(* ===== verification/Prelude.thy ===== *)
theory Prelude
  imports Main "HOL-Library.Word" "HOL-Library.Sublist"
begin

text \<open>
  Shared vocabulary of the development: the Go base types, the library of list and window
  lemmas the components use, and the fact collections their proofs rewrite with.

  Conventions. A Go \<open>string\<close> is a byte sequence, here \<open>string\<close> (a list of 8-bit
  characters). \<open>uint64\<close> is \<open>64 word\<close>. A \<open>time.Time\<close> is the number of nanoseconds
  since the zero time (so \<open>IsZero\<close> is \<open>t = 0\<close>), a \<open>time.Duration\<close> a number of
  nanoseconds; \<open>Time.Sub\<close> saturates at the range of \<open>int64\<close>, as Go's does.
  Pointers to heap objects whose identity the code compares are numbers (\<open>mref\<close> for
  \<open>*SessionMeta\<close>, \<open>href\<close> for \<open>*WorkerHandle\<close>); connections and channels are
  numbers too.
\<close>

type_synonym u64 = "64 word"
type_synonym time = int
type_synonym duration = int
type_synonym mref = nat
type_synonym href = nat
type_synonym conn = nat
type_synonym chan = nat

named_theorems go_defs \<open>definitions of small accessors, unfolded by the component proofs\<close>
named_theorems frame_simps \<open>what an operation leaves unchanged\<close>

section \<open>Time\<close>

definition Second :: duration where "Second = 1000000000"
definition Millisecond :: duration where "Millisecond = 1000000"
definition Minute :: duration where "Minute = 60 * Second"

definition maxDuration :: duration where "maxDuration = 2 ^ 63 - 1"
definition minDuration :: duration where "minDuration = - (2 ^ 63)"

text \<open>\<open>t.Sub(u)\<close>: the difference, saturated at the range of \<open>time.Duration\<close>.\<close>

definition time_sub :: "time \<Rightarrow> time \<Rightarrow> duration" where
  "time_sub t u = max minDuration (min maxDuration (t - u))"

definition is_zero_time :: "time \<Rightarrow> bool" where
  "is_zero_time t = (t = 0)"

lemmas duration_defs = Second_def Millisecond_def Minute_def maxDuration_def minDuration_def

lemma time_sub_self [simp]: "time_sub t t = 0"
  by (simp add: time_sub_def maxDuration_def minDuration_def)

lemma time_sub_lt: "0 \<le> d \<Longrightarrow> d \<le> maxDuration \<Longrightarrow> time_sub t u < d \<longleftrightarrow> t - u < d"
  by (auto simp: time_sub_def maxDuration_def minDuration_def)

lemma time_sub_gt: "0 \<le> d \<Longrightarrow> d < maxDuration \<Longrightarrow> d < time_sub t u \<longleftrightarrow> d < t - u"
  by (auto simp: time_sub_def maxDuration_def minDuration_def)

section \<open>Truncation to the newest entries\<close>

text \<open>
  \<open>keep_last n xs\<close> is the Go idiom
  \<open>if len(xs) > n { xs = xs[len(xs)-n:] }\<close>.
\<close>

definition keep_last :: "nat \<Rightarrow> 'a list \<Rightarrow> 'a list" where
  "keep_last n xs = (if n < length xs then drop (length xs - n) xs else xs)"

lemma keep_last_drop: "keep_last n xs = drop (length xs - n) xs"
  by (simp add: keep_last_def)

lemma length_keep_last [simp]: "length (keep_last n xs) = min n (length xs)"
  by (simp add: keep_last_drop min_def)

lemma keep_last_id [simp]: "length xs \<le> n \<Longrightarrow> keep_last n xs = xs"
  by (simp add: keep_last_def)

lemma keep_last_append_keep_last:
  "keep_last n (keep_last n xs @ ys) = keep_last n (xs @ ys)"
proof (cases "length xs \<le> n")
  case False
  then have "length xs + length ys - n = (length xs - n) + length ys" by simp
  with False show ?thesis
    by (simp add: keep_last_drop drop_append min_def add.commute)
qed simp

lemma keep_last_append_long:
  "n \<le> length ys \<Longrightarrow> keep_last n (xs @ ys) = keep_last n ys"
  by (simp add: keep_last_drop)

lemma set_keep_last: "set (keep_last n xs) \<subseteq> set xs"
  by (auto simp: keep_last_drop dest: in_set_dropD)

lemma suffix_keep_last: "suffix (keep_last n xs) xs"
  by (simp add: keep_last_drop suffix_drop)

lemma drop_keep_last:
  "length ys \<le> n \<Longrightarrow> length ys \<le> length zs \<Longrightarrow> suffix ys zs \<Longrightarrow> suffix zs xs \<Longrightarrow>
   drop (length zs - length ys) zs = ys"
  by (auto simp: suffix_def)

section \<open>Partial maps and lists of options\<close>

lemma map_upd_None_iff [simp]: "(m(k \<mapsto> v)) j = None \<longleftrightarrow> j \<noteq> k \<and> m j = None"
  by simp

lemma map_upd_Some_iff: "(m(k \<mapsto> v)) j = Some w \<longleftrightarrow> (j = k \<and> w = v) \<or> (j \<noteq> k \<and> m j = Some w)"
  by auto

lemma map_del_Some_iff: "(m(k := None)) j = Some w \<longleftrightarrow> j \<noteq> k \<and> m j = Some w"
  by simp

lemma filter_all_id: "(\<forall>x\<in>set xs. P x) \<Longrightarrow> filter P xs = xs"
  by (induction xs) auto

lemma dropWhile_none: "xs = [] \<or> \<not> P (hd xs) \<Longrightarrow> dropWhile P xs = xs"
  by (cases xs) auto

lemma set_map_filter: "y \<in> set (List.map_filter f xs) \<longleftrightarrow> (\<exists>x\<in>set xs. f x = Some y)"
  by (induction xs) (auto simp: List.map_filter_def)

section \<open>Words\<close>

lemma unat_add_small:
  fixes a :: u64
  assumes "unat a + n < 2 ^ 64"
  shows "unat (a + of_nat n) = unat a + n"
proof -
  have "n < 2 ^ 64" using assms by simp
  then have "unat (of_nat n :: u64) = n"
    by (simp add: unat_of_nat)
  with assms show ?thesis by (simp add: unat_word_ariths)
qed

lemma unat_suc_small: "unat (a :: u64) + 1 < 2 ^ 64 \<Longrightarrow> unat (a + 1) = unat a + 1"
  using unat_add_small [of a 1] by simp

lemma unat_of_nat_small: "n < 2 ^ 64 \<Longrightarrow> unat (of_nat n :: u64) = n"
  by (simp add: unat_of_nat)

lemma unat_sub_small: "b \<le> a \<Longrightarrow> unat (a - b :: u64) = unat a - unat b"
  by (rule unat_sub)

end
