(* ===== verification/Protocol.thy ===== *)
theory Protocol
  imports Prelude
begin

text \<open>
  The message vocabulary of \<open>internal/protocol/protocol.go\<close>: message types, turn terminals
  and the message record that daemon, workers and command-line clients exchange, one JSON
  object per line. \<open>MessageType\<close> and \<open>TurnStatus\<close> are string types in the code, so a
  peer may send any string: they are strings here, and a \<open>switch\<close> over them is a chain of
  comparisons. The JSON encoding itself is in \<open>Protocol_Codec\<close>.
\<close>

type_synonym MessageType = string
type_synonym TurnStatus = string

definition MsgNewSession :: MessageType where "MsgNewSession = ''new_session''"
definition MsgUserInput :: MessageType where "MsgUserInput = ''user_input''"
definition MsgCancelTurn :: MessageType where "MsgCancelTurn = ''cancel_turn''"
definition MsgRestartWorker :: MessageType where "MsgRestartWorker = ''restart_worker''"
definition MsgClose :: MessageType where "MsgClose = ''close''"
definition MsgOutput :: MessageType where "MsgOutput = ''output''"
definition MsgReady :: MessageType where "MsgReady = ''ready''"
definition MsgError :: MessageType where "MsgError = ''error''"
definition MsgCliSessionBound :: MessageType where "MsgCliSessionBound = ''cli_session_bound''"
definition MsgTurnCompleted :: MessageType where "MsgTurnCompleted = ''turn_completed''"
definition MsgHeartbeat :: MessageType where "MsgHeartbeat = ''heartbeat''"
definition MsgAck :: MessageType where "MsgAck = ''ack''"
definition MsgListSessions :: MessageType where "MsgListSessions = ''list_sessions''"
definition MsgListSessionsRsp :: MessageType where "MsgListSessionsRsp = ''list_sessions_rsp''"
definition MsgHistory :: MessageType where "MsgHistory = ''history''"
definition MsgHistoryRsp :: MessageType where "MsgHistoryRsp = ''history_rsp''"
definition MsgCloseSession :: MessageType where "MsgCloseSession = ''close_session''"
definition MsgCloseSessionAck :: MessageType where "MsgCloseSessionAck = ''close_session_ack''"

lemmas msg_type_defs =
  MsgNewSession_def MsgUserInput_def MsgCancelTurn_def MsgRestartWorker_def MsgClose_def
  MsgOutput_def MsgReady_def MsgError_def MsgCliSessionBound_def MsgTurnCompleted_def
  MsgHeartbeat_def MsgAck_def MsgListSessions_def MsgListSessionsRsp_def MsgHistory_def
  MsgHistoryRsp_def MsgCloseSession_def MsgCloseSessionAck_def

definition TurnCompleted :: TurnStatus where "TurnCompleted = ''completed''"
definition TurnAborted :: TurnStatus where "TurnAborted = ''aborted''"
definition TurnFailed :: TurnStatus where "TurnFailed = ''failed''"

lemmas turn_status_defs = TurnCompleted_def TurnAborted_def TurnFailed_def

record TurnTerminal =
  tt_Status :: TurnStatus
  ErrorCode :: string
  ErrorDetail :: string

record Message =
  msg_Type :: MessageType
  msg_SessionID :: string
  WorkerInstanceID :: string
  Payload :: string
  Timestamp :: int

text \<open>\<open>time.Now().UnixNano()\<close> is the argument \<open>now\<close>.\<close>

definition NewMessage :: "time \<Rightarrow> MessageType \<Rightarrow> string \<Rightarrow> string \<Rightarrow> Message" where
  "NewMessage now typ sessionID payload =
     \<lparr>msg_Type = typ, msg_SessionID = sessionID, WorkerInstanceID = [], Payload = payload,
      Timestamp = now\<rparr>"

lemma NewMessage_simps [simp]:
  "msg_Type (NewMessage now typ sid p) = typ"
  "msg_SessionID (NewMessage now typ sid p) = sid"
  "Payload (NewMessage now typ sid p) = p"
  "WorkerInstanceID (NewMessage now typ sid p) = []"
  "Timestamp (NewMessage now typ sid p) = now"
  by (simp_all add: NewMessage_def)

definition zero_terminal :: TurnTerminal where
  "zero_terminal = \<lparr>tt_Status = [], ErrorCode = [], ErrorDetail = []\<rparr>"

text \<open>The terminal the daemon and the worker construct for a failed turn.\<close>

definition failed_terminal :: "string \<Rightarrow> string \<Rightarrow> TurnTerminal" where
  "failed_terminal code detail = \<lparr>tt_Status = TurnFailed, ErrorCode = code, ErrorDetail = detail\<rparr>"

lemma failed_terminal_simps [simp]:
  "tt_Status (failed_terminal c t) = TurnFailed"
  "ErrorCode (failed_terminal c t) = c"
  "ErrorDetail (failed_terminal c t) = t"
  by (simp_all add: failed_terminal_def)

end
