(* ===== verification/Bounded_Log.thy ===== *)
theory Bounded_Log
  imports Prelude
begin

text \<open>
  The interface of a bounded, cursor-read log: the daemon keeps the newest output lines and
  the newest turn terminals of a session this way, and its clients poll both with a cursor.
  \<open>items\<close> are the retained entries, \<open>sq\<close> the 64-bit number of entries ever added,
  \<open>add\<close> appends one entry and \<open>since\<close> reads what is newer than a cursor. What a
  subscriber may rely on is proved here once; the theory of the session metadata interprets
  the locale on the output log and on the terminal log.
\<close>

text \<open>
  The index computation of the two \<open>Snapshot...Since\<close> methods: the cursor is clamped into
  \<open>[base, next]\<close>, where \<open>base = next - len\<close> in 64-bit arithmetic, and what follows it
  is returned.
\<close>

definition since_window :: "'a list \<Rightarrow> u64 \<Rightarrow> u64 \<Rightarrow> 'a list" where
  "since_window xs nxt cursor =
     (let base = nxt - of_nat (length xs);
          c1 = (if cursor < base then base else cursor);
          c2 = (if c1 > nxt then nxt else c1)
      in drop (unat (c2 - base)) xs)"

definition seq_covers :: "'a list \<Rightarrow> u64 \<Rightarrow> bool" where
  "seq_covers xs nxt = (length xs \<le> unat nxt)"

lemma clamp_nat: "l \<le> n \<Longrightarrow> min n (max (n - l) c) - (n - l) = min l (c - (n - l))" for l n c :: nat
  by (cases "c \<le> n - l") (auto simp: min_def max_def)

lemma since_window_nat:
  assumes "seq_covers xs nxt"
  shows "since_window xs nxt cursor
       = drop (min (length xs) (unat cursor - (unat nxt - length xs))) xs"
proof -
  let ?len = "of_nat (length xs) :: u64"
  let ?base = "nxt - ?len"
  have len: "unat ?len = length xs"
    using assms unsigned_less [of nxt, where ?'a = nat] by (intro unat_of_nat_small) (auto simp: seq_covers_def)
  have le: "?len \<le> nxt" using assms by (simp add: word_le_nat_alt len seq_covers_def)
  have base: "unat ?base = unat nxt - length xs" using le len by (simp add: unat_sub_small)
  define c2 where "c2 = (let c1 = (if cursor < ?base then ?base else cursor) in if c1 > nxt then nxt else c1)"
  have "unat c2 = min (unat nxt) (max (unat nxt - length xs) (unat cursor))"
    by (auto simp: c2_def Let_def word_less_nat_alt base min_def max_def)
  moreover have "?base \<le> c2"
    by (auto simp: c2_def Let_def word_less_nat_alt word_le_nat_alt base)
  ultimately have "unat (c2 - ?base)
      = min (unat nxt) (max (unat nxt - length xs) (unat cursor)) - (unat nxt - length xs)"
    by (simp add: unat_sub_small base)
  also have "\<dots> = min (length xs) (unat cursor - (unat nxt - length xs))"
    using assms by (simp add: clamp_nat seq_covers_def)
  finally show ?thesis by (simp add: since_window_def Let_def c2_def)
qed

locale bounded_log =
  fixes cap :: nat
    and items :: "'s \<Rightarrow> 'a list"
    and sq :: "'s \<Rightarrow> u64"
    and add :: "'s \<Rightarrow> 'a \<Rightarrow> 's"
    and since :: "'s \<Rightarrow> u64 \<Rightarrow> 'a list \<times> u64"
    and wf :: "'s \<Rightarrow> bool"
  assumes wf_covers: "wf s \<Longrightarrow> seq_covers (items s) (sq s)"
    and wf_add: "wf s \<Longrightarrow> unat (sq s) + 1 < 2 ^ 64 \<Longrightarrow> wf (add s x)"
    and items_add: "wf s \<Longrightarrow> items (add s x) = keep_last cap (items s @ [x])"
    and sq_add: "wf s \<Longrightarrow> sq (add s x) = sq s + 1"
    and since_eq: "wf s \<Longrightarrow> since s c = (since_window (items s) (sq s) c, sq s)"
begin

lemma add_many:
  assumes "wf s" and "unat (sq s) + length xs < 2 ^ 64"
  shows "wf (foldl add s xs) \<and> unat (sq (foldl add s xs)) = unat (sq s) + length xs
       \<and> (xs \<noteq> [] \<longrightarrow> items (foldl add s xs) = keep_last cap (items s @ xs))"
  using assms
proof (induction xs rule: rev_induct)
  case (snoc x xs)
  then have IH: "wf (foldl add s xs)" "unat (sq (foldl add s xs)) = unat (sq s) + length xs"
    "xs \<noteq> [] \<longrightarrow> items (foldl add s xs) = keep_last cap (items s @ xs)" by auto
  have small: "unat (sq (foldl add s xs)) + 1 < 2 ^ 64" using snoc.prems IH by simp
  have "items (add (foldl add s xs) x) = keep_last cap (items s @ xs @ [x])"
    using IH keep_last_append_keep_last [of cap "items s @ xs" "[x]"]
    by (cases "xs = []") (simp_all add: items_add)
  then show ?case
    using IH small by (simp add: wf_add sq_add unat_suc_small)
qed simp

text \<open>
  A reader that takes the cursor of a state and reads after any sequence of further appends
  gets exactly what was appended in between, of it the newest \<open>cap\<close> entries if there were
  more; nothing older, nothing twice. (A state may start with more than \<open>cap\<close> entries, as a
  restored session does; the first append trims them.)
\<close>

lemma since_cursor:
  assumes "wf s" and "unat (sq s) + length xs < 2 ^ 64"
  shows "fst (since (foldl add s xs) (sq s)) = keep_last cap xs"
proof (cases "xs = []")
  case True
  then show ?thesis
    using wf_covers [OF assms(1)] by (simp add: since_eq assms since_window_nat seq_covers_def)
next
  case False
  let ?t = "foldl add s xs"
  note many = add_many [OF assms]
  have cov: "seq_covers (items ?t) (sq ?t)"
    using many wf_covers [of ?t] by blast
  have s_cov: "length (items s) \<le> unat (sq s)"
    using wf_covers [OF assms(1)] by (auto simp: seq_covers_def)
  have len: "length (items ?t) = min cap (length (items s) + length xs)" using many False by simp
  have "fst (since ?t (sq s)) =
      drop (min (length (items ?t)) (unat (sq s) - (unat (sq ?t) - length (items ?t)))) (items ?t)"
    using many cov by (simp add: since_eq since_window_nat)
  also have "\<dots> = keep_last cap xs"
  proof (cases "cap \<le> length xs")
    case True
    then have "items ?t = keep_last cap xs" and "length (items ?t) = cap"
      using many False len by (auto simp: keep_last_append_long)
    with True many show ?thesis by simp
  next
    case short: False
    have "unat (sq s) - (unat (sq ?t) - length (items ?t)) = length (items ?t) - length xs"
      using short many len s_cov cov by (auto simp: min_def seq_covers_def)
    moreover have "suffix xs (items ?t)"
      using many False short by (auto simp: keep_last_drop suffix_def drop_append)
    ultimately show ?thesis
      using short by (auto simp: suffix_def)
  qed
  finally show ?thesis .
qed

text \<open>Reading at the cursor a read returned yields nothing until something is appended.\<close>

lemma since_idle: "wf s \<Longrightarrow> fst (since s (snd (since s c))) = []"
  using wf_covers [of s] by (simp add: since_eq since_window_nat seq_covers_def)

text \<open>
  Polling loses nothing and repeats nothing while the reader keeps up: two reads in a row,
  the second from the cursor the first returned, deliver the appended entries in order.
\<close>

lemma since_polls_compose:
  assumes "wf s" and "unat (sq s) + length xs + length ys < 2 ^ 64"
    and "length xs \<le> cap" and "length ys \<le> cap"
  shows "let s1 = foldl add s xs; r1 = since s1 (sq s); s2 = foldl add s1 ys
         in fst r1 @ fst (since s2 (snd r1)) = xs @ ys"
proof -
  let ?s1 = "foldl add s xs"
  have s1: "wf ?s1" "unat (sq ?s1) = unat (sq s) + length xs" using add_many [of s xs] assms by auto
  have "snd (since ?s1 (sq s)) = sq ?s1" using s1 by (simp add: since_eq)
  moreover have "fst (since ?s1 (sq s)) = xs" using since_cursor [of s xs] assms by simp
  moreover have "fst (since (foldl add ?s1 ys) (sq ?s1)) = ys"
    using since_cursor [of ?s1 ys] s1 assms by simp
  ultimately show ?thesis by (simp add: Let_def)
qed

end

end
