(* ===== verification/Turn_Gate.thy ===== *)
theory Turn_Gate
  imports Prelude
begin

text \<open>
  The contract of a turn gate, which two components implement: the daemon's session record
  (\<open>BeginTurn\<close>, \<open>BeginTurnCancel\<close>, the finishing methods) and the worker
  (\<open>beginTurnWithID\<close>, \<open>requestTurnInterrupt\<close>, \<open>finishTurnWithID\<close>). A gate admits one turn at
  a time, numbers the turns, and lets each turn be cancelled at most once. \<open>ready\<close> says
  whether a new turn may begin.
\<close>

datatype gate_op = GBegin | GCancel | GFinish

text \<open>
  Running operations against a gate, counting the turns admitted and the cancellations
  accepted.
\<close>

fun gate_run :: "('s \<Rightarrow> 's \<times> bool) \<Rightarrow> ('s \<Rightarrow> 's \<times> bool) \<Rightarrow> ('s \<Rightarrow> 's) \<Rightarrow> 's \<Rightarrow> gate_op list \<Rightarrow> 's \<times> nat \<times> nat" where
  "gate_run bg cn fin s [] = (s, 0, 0)"
| "gate_run bg cn fin s (GBegin # ops) =
     (case gate_run bg cn fin (fst (bg s)) ops of
        (t, b, c) \<Rightarrow> (t, if snd (bg s) then Suc b else b, c))"
| "gate_run bg cn fin s (GCancel # ops) =
     (case gate_run bg cn fin (fst (cn s)) ops of
        (t, b, c) \<Rightarrow> (t, b, if snd (cn s) then Suc c else c))"
| "gate_run bg cn fin s (GFinish # ops) = gate_run bg cn fin (fin s) ops"

locale turn_gate =
  fixes active :: "'s \<Rightarrow> bool"
    and cancelled :: "'s \<Rightarrow> bool"
    and token :: "'s \<Rightarrow> u64"
    and bg :: "'s \<Rightarrow> 's \<times> bool"
    and cn :: "'s \<Rightarrow> 's \<times> bool"
    and fin :: "'s \<Rightarrow> 's"
  assumes begin_accepted: "snd (bg s) \<Longrightarrow> \<not> active s \<and> active (fst (bg s))
      \<and> \<not> cancelled (fst (bg s)) \<and> token (fst (bg s)) = token s + 1"
    and begin_refused: "\<not> snd (bg s) \<Longrightarrow> fst (bg s) = s"
    and cancel_iff: "snd (cn s) \<longleftrightarrow> active s \<and> \<not> cancelled s"
    and cancel_accepted: "snd (cn s) \<Longrightarrow> active (fst (cn s)) \<and> cancelled (fst (cn s))
      \<and> token (fst (cn s)) = token s"
    and cancel_refused: "\<not> snd (cn s) \<Longrightarrow> fst (cn s) = s"
    and finish_effect: "\<not> active (fin s) \<and> token (fin s) = token s"
begin

text \<open>While a turn is active every further begin is refused.\<close>

lemma single_turn: "active s \<Longrightarrow> \<not> snd (bg s)"
  using begin_accepted by blast

text \<open>Over any run: no more cancellations than turns, and the token counts the turns.\<close>

definition credit :: "'s \<Rightarrow> nat" where
  "credit s = (if active s \<and> \<not> cancelled s then 1 else 0)"

lemma credit_begin: "credit (fst (bg s)) = (if snd (bg s) then 1 else credit s)"
  using begin_accepted [of s] begin_refused [of s] by (auto simp: credit_def)

lemma credit_cancel: "credit s = credit (fst (cn s)) + (if snd (cn s) then 1 else 0)"
proof (cases "snd (cn s)")
  case True
  then show ?thesis using cancel_accepted [of s] cancel_iff [of s] by (simp add: credit_def)
next
  case False
  then show ?thesis using cancel_refused [of s] by simp
qed

lemma credit_finish: "credit (fin s) = 0"
  using finish_effect by (simp add: credit_def)

lemma run_counts:
  "gate_run bg cn fin s ops = (t, b, c) \<Longrightarrow> c \<le> b + credit s \<and> token t = token s + of_nat b"
proof (induction ops arbitrary: s t b c)
  case Nil
  then show ?case by simp
next
  case (Cons op ops)
  show ?case
  proof (cases op)
    case GBegin
    obtain b' where run: "gate_run bg cn fin (fst (bg s)) ops = (t, b', c)"
      and b: "b = (if snd (bg s) then Suc b' else b')"
      using Cons.prems GBegin by (auto split: prod.splits)
    note IH = Cons.IH [OF run]
    show ?thesis
    proof (cases "snd (bg s)")
      case True
      with IH b begin_accepted [OF True] show ?thesis by (simp add: credit_begin add_ac)
    next
      case False
      with IH b begin_refused [OF False] show ?thesis by simp
    qed
  next
    case GCancel
    obtain c' where run: "gate_run bg cn fin (fst (cn s)) ops = (t, b, c')"
      and c: "c = (if snd (cn s) then Suc c' else c')"
      using Cons.prems GCancel by (auto split: prod.splits)
    note IH = Cons.IH [OF run]
    show ?thesis
    proof (cases "snd (cn s)")
      case True
      with IH c cancel_accepted [OF True] credit_cancel [of s] show ?thesis by simp
    next
      case False
      with IH c cancel_refused [OF False] show ?thesis by simp
    qed
  next
    case GFinish
    then have "gate_run bg cn fin (fin s) ops = (t, b, c)" using Cons.prems by simp
    from Cons.IH [OF this] show ?thesis by (simp add: credit_finish finish_effect)
  qed
qed

text \<open>
  Over any run from an idle gate, no more cancellations are accepted than turns were begun,
  and the token has advanced by the number of turns.
\<close>

lemma cancels_bounded:
  "gate_run bg cn fin s ops = (t, b, c) \<Longrightarrow> \<not> active s \<Longrightarrow> c \<le> b"
  using run_counts [of s ops t b c] by (simp add: credit_def)

lemma token_counts: "gate_run bg cn fin s ops = (t, b, c) \<Longrightarrow> token t = token s + of_nat b"
  using run_counts by blast

end

end
