(* ===== verification/Session_Meta.thy ===== *)
theory Session_Meta
  imports Protocol Bounded_Log Turn_Gate
begin

text \<open>
  \<open>internal/daemon/session_meta.go\<close>: the daemon's in-memory record of one session. Its
  three machines are the output log (the newest 2000 lines with a 64-bit sequence number and
  a notification channel), the terminal log (the newest 16 turn terminals, the same way) and
  the turn state (active, cancelling, a 64-bit token per turn). Every method runs under the
  record's own mutex, so a method is one function from the record to the record.

  A notification channel is replaced and closed at every append, so it is modelled by its
  number in the order of creation: a subscriber that holds number \<open>c\<close> has been woken iff the
  record's current number is not \<open>c\<close>. \<open>None\<close> is the nil channel a record may start with.
  The functions registered with \<open>AddOnClose\<close> each close one \<open>stop\<close> channel; a function is
  the number of that channel.
\<close>

datatype SessionStatus = StatusCreated | StatusSpawning | StatusReady | StatusRecovering | StatusClosed

definition status_string :: "SessionStatus \<Rightarrow> string" where
  "status_string s = (case s of StatusCreated \<Rightarrow> ''CREATED'' | StatusSpawning \<Rightarrow> ''SPAWNING''
     | StatusReady \<Rightarrow> ''READY'' | StatusRecovering \<Rightarrow> ''RECOVERING'' | StatusClosed \<Rightarrow> ''CLOSED'')"

lemma status_string_inj [simp]: "status_string a = status_string b \<longleftrightarrow> a = b"
  by (cases a; cases b) (simp_all add: status_string_def)

record SessionMeta =
  SessionID :: string
  BotID :: string
  CliType :: string
  CliPath :: string
  Model :: string
  CodexProfile :: string
  CliSessionID :: string
  WorkingDir :: string
  LastOutput :: "string list"
  CreatedAt :: time
  Closed :: bool
  Status :: SessionStatus
  lastActive :: time
  onClose :: "chan list"
  outputSeq :: u64
  outputNotifyCh :: "chan option"
  turnActive :: bool
  turnCancelling :: bool
  turnToken :: u64
  terminalSeq :: u64
  terminals :: "TurnTerminal list"
  terminalNotifyCh :: "chan option"

text \<open>The zero value of the struct: what a composite literal leaves unset.\<close>

definition zero_meta :: SessionMeta where
  "zero_meta = \<lparr>SessionID = [], BotID = [], CliType = [], CliPath = [], Model = [],
     CodexProfile = [], CliSessionID = [], WorkingDir = [], LastOutput = [], CreatedAt = 0,
     Closed = False, Status = StatusCreated, lastActive = 0, onClose = [], outputSeq = 0,
     outputNotifyCh = None, turnActive = False, turnCancelling = False, turnToken = 0,
     terminalSeq = 0, terminals = [], terminalNotifyCh = None\<rparr>"

definition NewSessionMeta :: "time \<Rightarrow> string \<Rightarrow> string \<Rightarrow> SessionMeta" where
  "NewSessionMeta now sid botID = zero_meta\<lparr>SessionID := sid, BotID := botID, CreatedAt := now,
     Status := StatusCreated, outputNotifyCh := Some 0, terminalNotifyCh := Some 0\<rparr>"

definition touchActive :: "SessionMeta \<Rightarrow> time \<Rightarrow> SessionMeta" where
  "touchActive m now = m\<lparr>lastActive := now\<rparr>"

definition LastActive :: "SessionMeta \<Rightarrow> time" where
  "LastActive m = lastActive m"

section \<open>The output log\<close>

definition maxMemoryOutputLines :: nat where "maxMemoryOutputLines = 2000"

definition ensureOutputStateLocked :: "SessionMeta \<Rightarrow> SessionMeta" where
  "ensureOutputStateLocked m =
     (let m1 = (if outputNotifyCh m = None then m\<lparr>outputNotifyCh := Some 0\<rparr> else m);
          minimum = of_nat (length (LastOutput m1)) :: u64
      in if outputSeq m1 < minimum then m1\<lparr>outputSeq := minimum\<rparr> else m1)"

definition AddOutput :: "SessionMeta \<Rightarrow> string \<Rightarrow> SessionMeta" where
  "AddOutput m line =
     (let m = ensureOutputStateLocked m;
          m = m\<lparr>LastOutput := LastOutput m @ [line]\<rparr>;
          m = m\<lparr>outputSeq := outputSeq m + 1\<rparr>;
          m = (if maxMemoryOutputLines < length (LastOutput m)
               then m\<lparr>LastOutput := drop (length (LastOutput m) - maxMemoryOutputLines) (LastOutput m)\<rparr>
               else m)
      in m\<lparr>outputNotifyCh := map_option Suc (outputNotifyCh m)\<rparr>)"

definition SnapshotOutput :: "SessionMeta \<Rightarrow> string list" where
  "SnapshotOutput m = LastOutput m"

definition OutputCursor :: "SessionMeta \<Rightarrow> SessionMeta \<times> u64" where
  "OutputCursor m = (let m = ensureOutputStateLocked m in (m, outputSeq m))"

definition OutputSubscription :: "SessionMeta \<Rightarrow> SessionMeta \<times> u64 \<times> chan option" where
  "OutputSubscription m = (let m = ensureOutputStateLocked m in (m, outputSeq m, outputNotifyCh m))"

definition SnapshotOutputSince :: "SessionMeta \<Rightarrow> u64 \<Rightarrow> SessionMeta \<times> string list \<times> u64 \<times> chan option" where
  "SnapshotOutputSince m cursor =
     (let m = ensureOutputStateLocked m
      in (m, since_window (LastOutput m) (outputSeq m) cursor, outputSeq m, outputNotifyCh m))"

section \<open>The terminal log\<close>

definition maxMemoryTerminals :: nat where "maxMemoryTerminals = 16"

definition ensureTerminalStateLocked :: "SessionMeta \<Rightarrow> SessionMeta" where
  "ensureTerminalStateLocked m =
     (let m1 = (if terminalNotifyCh m = None then m\<lparr>terminalNotifyCh := Some 0\<rparr> else m);
          minimum = of_nat (length (terminals m1)) :: u64
      in if terminalSeq m1 < minimum then m1\<lparr>terminalSeq := minimum\<rparr> else m1)"

definition publishTerminalLocked :: "SessionMeta \<Rightarrow> TurnTerminal \<Rightarrow> SessionMeta" where
  "publishTerminalLocked m terminal =
     (let m = ensureTerminalStateLocked m;
          m = m\<lparr>terminals := terminals m @ [terminal]\<rparr>;
          m = m\<lparr>terminalSeq := terminalSeq m + 1\<rparr>;
          m = (if maxMemoryTerminals < length (terminals m)
               then m\<lparr>terminals := drop (length (terminals m) - maxMemoryTerminals) (terminals m)\<rparr>
               else m)
      in m\<lparr>terminalNotifyCh := map_option Suc (terminalNotifyCh m)\<rparr>)"

definition PublishTerminal :: "SessionMeta \<Rightarrow> TurnTerminal \<Rightarrow> SessionMeta" where
  "PublishTerminal m terminal = publishTerminalLocked m terminal"

definition TerminalSubscription :: "SessionMeta \<Rightarrow> SessionMeta \<times> u64 \<times> chan option" where
  "TerminalSubscription m =
     (let m = ensureTerminalStateLocked m in (m, terminalSeq m, terminalNotifyCh m))"

definition SnapshotTerminalsSince :: "SessionMeta \<Rightarrow> u64 \<Rightarrow> SessionMeta \<times> TurnTerminal list \<times> u64 \<times> chan option" where
  "SnapshotTerminalsSince m cursor =
     (let m = ensureTerminalStateLocked m
      in (m, since_window (terminals m) (terminalSeq m) cursor, terminalSeq m, terminalNotifyCh m))"

section \<open>The turn state\<close>

record TurnSnapshot =
  ts_Active :: bool
  ts_Cancelling :: bool
  ts_Token :: u64
  Latest :: "TurnTerminal option"

definition BeginTurn :: "SessionMeta \<Rightarrow> SessionMeta \<times> bool" where
  "BeginTurn m =
     (if turnActive m then (m, False)
      else (m\<lparr>turnToken := turnToken m + 1, turnActive := True, turnCancelling := False\<rparr>, True))"

definition BeginTurnCancel :: "SessionMeta \<Rightarrow> SessionMeta \<times> u64 \<times> bool" where
  "BeginTurnCancel m =
     (if \<not> turnActive m \<or> turnCancelling m then (m, 0, False)
      else (m\<lparr>turnCancelling := True\<rparr>, turnToken m, True))"

definition finishTurnLocked :: "SessionMeta \<Rightarrow> TurnTerminal \<Rightarrow> SessionMeta" where
  "finishTurnLocked m terminal =
     publishTerminalLocked (m\<lparr>turnActive := False, turnCancelling := False\<rparr>) terminal"

definition CompleteTurn :: "SessionMeta \<Rightarrow> TurnTerminal \<Rightarrow> SessionMeta \<times> bool" where
  "CompleteTurn m terminal =
     (if \<not> turnActive m then (m, False) else (finishTurnLocked m terminal, True))"

definition FailCancellingTurn :: "SessionMeta \<Rightarrow> u64 \<Rightarrow> TurnTerminal \<Rightarrow> SessionMeta \<times> bool" where
  "FailCancellingTurn m token terminal =
     (if \<not> turnActive m \<or> \<not> turnCancelling m \<or> turnToken m \<noteq> token then (m, False)
      else (finishTurnLocked m terminal, True))"

definition TurnSnapshot_of :: "SessionMeta \<Rightarrow> TurnSnapshot" where
  "TurnSnapshot_of m =
     \<lparr>ts_Active = turnActive m, ts_Cancelling = turnCancelling m, ts_Token = turnToken m,
      Latest = (if terminals m \<noteq> [] then Some (last (terminals m)) else None)\<rparr>"

definition FinishTurn :: "SessionMeta \<Rightarrow> SessionMeta" where
  "FinishTurn m = m\<lparr>turnActive := False, turnCancelling := False\<rparr>"

section \<open>The remaining accessors\<close>

definition SetCliSessionID :: "SessionMeta \<Rightarrow> string \<Rightarrow> SessionMeta" where
  "SetCliSessionID m i = m\<lparr>CliSessionID := i\<rparr>"

definition GetCliSessionID :: "SessionMeta \<Rightarrow> string" where
  "GetCliSessionID m = CliSessionID m"

definition AddOnClose :: "SessionMeta \<Rightarrow> chan \<Rightarrow> SessionMeta" where
  "AddOnClose m fn = m\<lparr>onClose := onClose m @ [fn]\<rparr>"

definition DrainOnClose :: "SessionMeta \<Rightarrow> SessionMeta \<times> chan list" where
  "DrainOnClose m = (m\<lparr>onClose := []\<rparr>, onClose m)"

section \<open>The two logs implement the bounded log interface\<close>

definition wf_output :: "SessionMeta \<Rightarrow> bool" where
  "wf_output m = seq_covers (LastOutput m) (outputSeq m)"

definition wf_terminals :: "SessionMeta \<Rightarrow> bool" where
  "wf_terminals m = seq_covers (terminals m) (terminalSeq m)"

lemma not_less_covers: "seq_covers xs n \<Longrightarrow> \<not> n < (of_nat (length xs) :: u64)"
  using unsigned_less [of n, where ?'a = nat]
  by (simp add: seq_covers_def word_less_nat_alt unat_of_nat_small not_less)

lemma ensure_output_wf:
  "wf_output m \<Longrightarrow> ensureOutputStateLocked m =
     (if outputNotifyCh m = None then m\<lparr>outputNotifyCh := Some 0\<rparr> else m)"
  by (auto simp: wf_output_def ensureOutputStateLocked_def Let_def dest: not_less_covers)

lemma ensure_terminal_wf:
  "wf_terminals m \<Longrightarrow> ensureTerminalStateLocked m =
     (if terminalNotifyCh m = None then m\<lparr>terminalNotifyCh := Some 0\<rparr> else m)"
  by (auto simp: wf_terminals_def ensureTerminalStateLocked_def Let_def dest: not_less_covers)

lemma ensure_output_fields [simp]:
  "LastOutput (ensureOutputStateLocked m) = LastOutput m"
  by (simp add: ensureOutputStateLocked_def Let_def)

lemma ensure_terminal_fields [simp]:
  "terminals (ensureTerminalStateLocked m) = terminals m"
  "turnActive (ensureTerminalStateLocked m) = turnActive m"
  "turnCancelling (ensureTerminalStateLocked m) = turnCancelling m"
  "turnToken (ensureTerminalStateLocked m) = turnToken m"
  by (simp_all add: ensureTerminalStateLocked_def Let_def)

lemma AddOutput_items: "LastOutput (AddOutput m line) = keep_last maxMemoryOutputLines (LastOutput m @ [line])"
  by (simp add: AddOutput_def Let_def keep_last_def)

lemma AddOutput_seq: "outputSeq (AddOutput m line) = outputSeq (ensureOutputStateLocked m) + 1"
  by (simp add: AddOutput_def Let_def)

lemma publish_items:
  "terminals (publishTerminalLocked m t) = keep_last maxMemoryTerminals (terminals m @ [t])"
  by (simp add: publishTerminalLocked_def Let_def keep_last_def)

lemma publish_seq:
  "terminalSeq (publishTerminalLocked m t) = terminalSeq (ensureTerminalStateLocked m) + 1"
  by (simp add: publishTerminalLocked_def Let_def)

lemma publish_turn [simp]:
  "turnActive (publishTerminalLocked m t) = turnActive m"
  "turnCancelling (publishTerminalLocked m t) = turnCancelling m"
  "turnToken (publishTerminalLocked m t) = turnToken m"
  by (simp_all add: publishTerminalLocked_def Let_def)

lemma covers_push:
  "seq_covers xs n \<Longrightarrow> unat n + 1 < 2 ^ 64 \<Longrightarrow> seq_covers (keep_last c (xs @ [x])) (n + 1)"
  by (simp add: seq_covers_def unat_suc_small)

definition output_since :: "SessionMeta \<Rightarrow> u64 \<Rightarrow> string list \<times> u64" where
  "output_since m c = (case SnapshotOutputSince m c of (_, xs, nxt, _) \<Rightarrow> (xs, nxt))"

definition terminals_since :: "SessionMeta \<Rightarrow> u64 \<Rightarrow> TurnTerminal list \<times> u64" where
  "terminals_since m c = (case SnapshotTerminalsSince m c of (_, xs, nxt, _) \<Rightarrow> (xs, nxt))"

interpretation out_log: bounded_log maxMemoryOutputLines LastOutput outputSeq AddOutput output_since wf_output
proof unfold_locales
  fix m x c
  show "wf_output m \<Longrightarrow> seq_covers (LastOutput m) (outputSeq m)"
    by (simp add: wf_output_def)
  show "wf_output m \<Longrightarrow> unat (outputSeq m) + 1 < 2 ^ 64 \<Longrightarrow> wf_output (AddOutput m x)"
    by (simp add: wf_output_def AddOutput_items AddOutput_seq ensure_output_wf [unfolded wf_output_def] covers_push)
  show "LastOutput (AddOutput m x) = keep_last maxMemoryOutputLines (LastOutput m @ [x])"
    by (rule AddOutput_items)
  show "wf_output m \<Longrightarrow> outputSeq (AddOutput m x) = outputSeq m + 1"
    by (simp add: AddOutput_seq ensure_output_wf)
  show "wf_output m \<Longrightarrow> output_since m c = (since_window (LastOutput m) (outputSeq m) c, outputSeq m)"
    by (simp add: output_since_def SnapshotOutputSince_def Let_def ensure_output_wf)
qed

interpretation term_log: bounded_log maxMemoryTerminals terminals terminalSeq PublishTerminal terminals_since wf_terminals
proof unfold_locales
  fix m x c
  show "wf_terminals m \<Longrightarrow> seq_covers (terminals m) (terminalSeq m)"
    by (simp add: wf_terminals_def)
  show "wf_terminals m \<Longrightarrow> unat (terminalSeq m) + 1 < 2 ^ 64 \<Longrightarrow> wf_terminals (PublishTerminal m x)"
    by (simp add: wf_terminals_def PublishTerminal_def publish_items publish_seq
        ensure_terminal_wf [unfolded wf_terminals_def] covers_push)
  show "terminals (PublishTerminal m x) = keep_last maxMemoryTerminals (terminals m @ [x])"
    by (simp add: PublishTerminal_def publish_items)
  show "wf_terminals m \<Longrightarrow> terminalSeq (PublishTerminal m x) = terminalSeq m + 1"
    by (simp add: PublishTerminal_def publish_seq ensure_terminal_wf)
  show "wf_terminals m \<Longrightarrow> terminals_since m c = (since_window (terminals m) (terminalSeq m) c, terminalSeq m)"
    by (simp add: terminals_since_def SnapshotTerminalsSince_def Let_def ensure_terminal_wf)
qed

section \<open>The turn state is a turn gate\<close>

interpretation turn: turn_gate turnActive turnCancelling turnToken BeginTurn
  "\<lambda>m. (fst (BeginTurnCancel m), snd (snd (BeginTurnCancel m)))" FinishTurn
proof unfold_locales
  fix m :: SessionMeta
  let ?cn = "(fst (BeginTurnCancel m), snd (snd (BeginTurnCancel m)))"
  show "snd (BeginTurn m) \<Longrightarrow> \<not> turnActive m \<and> turnActive (fst (BeginTurn m))
      \<and> \<not> turnCancelling (fst (BeginTurn m)) \<and> turnToken (fst (BeginTurn m)) = turnToken m + 1"
    by (cases "turnActive m") (simp_all add: BeginTurn_def)
  show "\<not> snd (BeginTurn m) \<Longrightarrow> fst (BeginTurn m) = m"
    by (cases "turnActive m") (simp_all add: BeginTurn_def)
  show "snd ?cn \<longleftrightarrow> turnActive m \<and> \<not> turnCancelling m"
    by (simp add: BeginTurnCancel_def)
  show "snd ?cn \<Longrightarrow> turnActive (fst ?cn) \<and> turnCancelling (fst ?cn) \<and> turnToken (fst ?cn) = turnToken m"
    by (cases "turnActive m \<and> \<not> turnCancelling m") (simp_all add: BeginTurnCancel_def)
  show "\<not> snd ?cn \<Longrightarrow> fst ?cn = m"
    by (cases "turnActive m \<and> \<not> turnCancelling m") (simp_all add: BeginTurnCancel_def)
  show "\<not> turnActive (FinishTurn m) \<and> turnToken (FinishTurn m) = turnToken m"
    by (simp add: FinishTurn_def)
qed

section \<open>Runs of the turn state\<close>

text \<open>
  The operations on the turn state, in any order. \<open>turn_step\<close> also returns what the step published:
  the terminals that a reader of the terminal log finds past where the log ended before it, each with the
  token the session then had.
\<close>

datatype turn_op = TBegin | TCancel | TComplete TurnTerminal | TFailCancel u64 TurnTerminal | TFinish

fun turn_op_effect :: "SessionMeta \<Rightarrow> turn_op \<Rightarrow> SessionMeta" where
  "turn_op_effect m TBegin = fst (BeginTurn m)"
| "turn_op_effect m TCancel = fst (BeginTurnCancel m)"
| "turn_op_effect m (TComplete t) = fst (CompleteTurn m t)"
| "turn_op_effect m (TFailCancel tok t) = fst (FailCancellingTurn m tok t)"
| "turn_op_effect m TFinish = FinishTurn m"

definition turn_step :: "SessionMeta \<Rightarrow> turn_op \<Rightarrow> SessionMeta \<times> (u64 \<times> TurnTerminal) list" where
  "turn_step m op =
     (let m' = turn_op_effect m op
      in (m', map (Pair (turnToken m)) (fst (terminals_since m' (terminalSeq m)))))"

fun turn_run :: "SessionMeta \<Rightarrow> turn_op list \<Rightarrow> SessionMeta \<times> (u64 \<times> TurnTerminal) list" where
  "turn_run m [] = (m, [])"
| "turn_run m (op # ops) =
     (let (m1, ts) = turn_step m op; (m2, us) = turn_run m1 ops in (m2, ts @ us))"

lemma turn_step_state [simp]: "fst (turn_step m op) = turn_op_effect m op"
  by (simp add: turn_step_def Let_def)

lemmas turn_op_defs = BeginTurn_def BeginTurnCancel_def CompleteTurn_def FailCancellingTurn_def
  FinishTurn_def finishTurnLocked_def

lemma turn_run_Cons [simp]:
  "fst (turn_run m (op # ops)) = fst (turn_run (turn_op_effect m op) ops)"
  "snd (turn_run m (op # ops)) = snd (turn_step m op) @ snd (turn_run (turn_op_effect m op) ops)"
  by (simp_all add: case_prod_unfold Let_def)

declare turn_run.simps(2) [simp del]

lemma turn_run_append:
  "fst (turn_run m (xs @ ys)) = fst (turn_run (fst (turn_run m xs)) ys)"
  "snd (turn_run m (xs @ ys)) = snd (turn_run m xs) @ snd (turn_run (fst (turn_run m xs)) ys)"
  by (induction xs arbitrary: m) simp_all

lemma turn_step_token:
  "unat (turnToken m) + 1 < 2 ^ 64 \<Longrightarrow>
   unat (turnToken m) \<le> unat (turnToken (turn_op_effect m op)) \<and>
   unat (turnToken (turn_op_effect m op)) \<le> unat (turnToken m) + 1"
  by (cases op) (auto simp: turn_op_defs unat_suc_small)

text \<open>
  The tokens a run ends from \<open>m\<close> are at least the current one, and above it when no turn is
  active: the generalisation that the theorem on terminals per turn needs.
\<close>

definition next_endable :: "SessionMeta \<Rightarrow> nat" where
  "next_endable m = (if turnActive m then unat (turnToken m) else unat (turnToken m) + 1)"

lemma turn_step_endable:
  assumes "unat (turnToken m) + 1 < 2 ^ 64"
  shows "next_endable m \<le> next_endable (turn_op_effect m op)"
  using assms by (cases op) (auto simp: turn_op_defs next_endable_def unat_suc_small)

text \<open>What a run published is what its terminal log has gained.\<close>

definition log_gains :: "SessionMeta \<Rightarrow> TurnTerminal list \<Rightarrow> SessionMeta \<Rightarrow> bool" where
  "log_gains m ts m' \<longleftrightarrow> wf_terminals m' \<and> unat (terminalSeq m') = unat (terminalSeq m) + length ts
     \<and> terminals m' = (if ts = [] then terminals m else keep_last maxMemoryTerminals (terminals m @ ts))"

lemma log_gains_trans: "log_gains m ts m1 \<Longrightarrow> log_gains m1 us m2 \<Longrightarrow> log_gains m (ts @ us) m2"
  by (auto simp: log_gains_def keep_last_append_keep_last)

lemma publishes_one:
  assumes "wf_terminals m" and "unat (terminalSeq m) + 1 < 2 ^ 64"
  shows "log_gains m [t] (publishTerminalLocked m t)"
    "fst (terminals_since (publishTerminalLocked m t) (terminalSeq m)) = [t]"
  using assms term_log.add_many [of m "[t]"] term_log.since_cursor [of m "[t]"]
  by (simp_all add: log_gains_def PublishTerminal_def keep_last_def maxMemoryTerminals_def)

lemma publishes_none:
  assumes "wf_terminals m" and "terminals m' = terminals m" and "terminalSeq m' = terminalSeq m"
  shows "log_gains m [] m'" "fst (terminals_since m' (terminalSeq m)) = []"
proof -
  have w: "wf_terminals m'" using assms by (simp add: wf_terminals_def)
  have "unat (terminalSeq m') < 2 ^ 64" using unsigned_less [of "terminalSeq m'", where ?'a = nat] by simp
  with term_log.since_cursor [OF w, of "[]"] w assms
  show "log_gains m [] m'" "fst (terminals_since m' (terminalSeq m)) = []"
    by (simp_all add: log_gains_def keep_last_def)
qed

text \<open>A step publishes nothing, or one terminal, and then the turn it belongs to is over.\<close>

lemma turn_step_published:
  assumes "wf_terminals m" and "unat (terminalSeq m) + 1 < 2 ^ 64"
  shows "log_gains m (map snd (snd (turn_step m op))) (turn_op_effect m op)
    \<and> (snd (turn_step m op) = []
       \<or> (\<exists>t. snd (turn_step m op) = [(turnToken m, t)] \<and> turnActive m
            \<and> next_endable (turn_op_effect m op) = unat (turnToken m) + 1))"
proof -
  have silent: ?thesis if "terminals (turn_op_effect m op) = terminals m" "terminalSeq (turn_op_effect m op) = terminalSeq m"
    using publishes_none [OF assms(1) that] by (simp add: turn_step_def Let_def)
  have ends: ?thesis if op: "turn_op_effect m op = finishTurnLocked m t" and act: "turnActive m" for t
  proof -
    let ?m = "m\<lparr>turnActive := False, turnCancelling := False\<rparr>"
    have m: "wf_terminals ?m" "unat (terminalSeq ?m) + 1 < 2 ^ 64" using assms by (simp_all add: wf_terminals_def)
    show ?thesis
      using publishes_one [OF m, of t] act
      by (simp add: turn_step_def op finishTurnLocked_def log_gains_def next_endable_def Let_def)
  qed
  show ?thesis
  proof (cases op)
    case (TComplete t)
    then show ?thesis
      using silent ends [of t] by (cases "turnActive m") (auto simp: CompleteTurn_def)
  next
    case (TFailCancel tok t)
    then show ?thesis
      using silent ends [of t]
      by (cases "turnActive m \<and> turnCancelling m \<and> turnToken m = tok") (auto simp: FailCancellingTurn_def)
  qed (rule silent; simp add: BeginTurn_def BeginTurnCancel_def FinishTurn_def)+
qed

lemma turn_run_published:
  assumes "wf_terminals m" and "unat (turnToken m) + length ops < 2 ^ 64" and "unat (terminalSeq m) + length ops < 2 ^ 64"
  shows "sorted_wrt (\<lambda>a b. unat (fst a) < unat (fst b)) (snd (turn_run m ops))
    \<and> (\<forall>p\<in>set (snd (turn_run m ops)). next_endable m \<le> unat (fst p))
    \<and> log_gains m (map snd (snd (turn_run m ops))) (fst (turn_run m ops))"
  using assms
proof (induction ops arbitrary: m)
  case Nil
  then show ?case by (simp add: log_gains_def)
next
  case (Cons op ops)
  let ?m1 = "turn_op_effect m op" and ?ps = "snd (turn_step m op)"
  have one: "unat (turnToken m) + 1 < 2 ^ 64" "unat (terminalSeq m) + 1 < 2 ^ 64" using Cons.prems by simp_all
  note step = turn_step_published [OF Cons.prems(1) one(2), of op]
  have g: "log_gains m (map snd ?ps) ?m1" and "length ?ps \<le> 1" using step by auto
  then have m1: "wf_terminals ?m1" "unat (terminalSeq ?m1) + length ops < 2 ^ 64"
    using Cons.prems(3) by (simp_all add: log_gains_def)
  have "unat (turnToken ?m1) + length ops < 2 ^ 64" using turn_step_token [OF one(1), of op] Cons.prems(2) by simp
  note IH = Cons.IH [OF m1(1) this m1(2)]
  have le: "next_endable m \<le> next_endable ?m1" by (rule turn_step_endable [OF one(1)])
  have "log_gains m (map snd ?ps @ map snd (snd (turn_run ?m1 ops))) (fst (turn_run ?m1 ops))"
    using log_gains_trans [OF g] IH by blast
  moreover have "sorted_wrt (\<lambda>a b. unat (fst a) < unat (fst b)) (?ps @ snd (turn_run ?m1 ops))
      \<and> (\<forall>p\<in>set (?ps @ snd (turn_run ?m1 ops)). next_endable m \<le> unat (fst p))"
    using step [THEN conjunct2]
  proof (elim disjE exE conjE)
    assume "?ps = []"
    with IH le show ?thesis by fastforce
  next
    fix t assume "?ps = [(turnToken m, t)]" "turnActive m" "next_endable ?m1 = unat (turnToken m) + 1"
    with IH show ?thesis by (fastforce simp: next_endable_def)
  qed
  ultimately show ?case by simp
qed

text \<open>Once the turn with token \<open>tok\<close> is no longer active it never is again.\<close>

definition turn_over :: "u64 \<Rightarrow> SessionMeta \<Rightarrow> bool" where
  "turn_over tok m = (unat tok < next_endable m)"

lemma turn_run_over:
  assumes "unat (turnToken m) + length ops < 2 ^ 64" and "turn_over tok m"
  shows "turn_over tok (fst (turn_run m ops))"
  using assms
proof (induction ops arbitrary: m)
  case (Cons op ops)
  have one: "unat (turnToken m) + 1 < 2 ^ 64" using Cons.prems(1) by simp
  have "turn_over tok (fst (turn_run (turn_op_effect m op) ops))"
    using Cons.prems turn_step_token [OF one, of op] turn_step_endable [OF one, of op]
    by (intro Cons.IH) (auto simp: turn_over_def)
  then show ?case by simp
qed simp

lemma turn_over_refuses: "turn_over tok m \<Longrightarrow> FailCancellingTurn m tok t = (m, False)"
  by (auto simp: turn_over_def next_endable_def FailCancellingTurn_def)

lemma turn_over_inactive: "\<not> turnActive m \<Longrightarrow> unat tok \<le> unat (turnToken m) \<Longrightarrow> turn_over tok m"
  by (simp add: turn_over_def next_endable_def)

lemma turn_run_token_mono:
  assumes "unat (turnToken m) + length ops < 2 ^ 64"
  shows "unat (turnToken m) \<le> unat (turnToken (fst (turn_run m ops)))
       \<and> unat (turnToken (fst (turn_run m ops))) \<le> unat (turnToken m) + length ops"
  using assms
proof (induction ops arbitrary: m)
  case (Cons op ops)
  have one: "unat (turnToken m) + 1 < 2 ^ 64" using Cons.prems(1) by simp
  have "unat (turnToken (turn_op_effect m op)) + length ops < 2 ^ 64"
    using turn_step_token [OF one, of op] Cons.prems by simp
  from Cons.IH [OF this] turn_step_token [OF one, of op] show ?case
    by simp
qed simp

section \<open>What clients of a session may rely on\<close>

lemma sorted_wrt_less_unat_distinct: "sorted_wrt (\<lambda>a b. unat a < unat b) (xs :: u64 list) \<Longrightarrow> distinct xs"
  by (induction xs) auto

lemma new_meta_fields [simp]:
  "outputSeq (NewSessionMeta now sid b) = 0" "terminalSeq (NewSessionMeta now sid b) = 0"
  "turnToken (NewSessionMeta now sid b) = 0" "\<not> turnActive (NewSessionMeta now sid b)"
  by (simp_all add: NewSessionMeta_def zero_meta_def)

lemma wf_new_meta: "wf_output (NewSessionMeta now sid b)" "wf_terminals (NewSessionMeta now sid b)"
  by (simp_all add: wf_output_def wf_terminals_def NewSessionMeta_def zero_meta_def seq_covers_def)

text \<open>
  C13: A client that polls a session's output with cursors gets every line exactly once and in
  order: it takes the cursor, lines \<open>xs\<close> are added, it polls, lines \<open>ys\<close> are added, it polls from
  the cursor the first poll returned, and the two answers together are \<open>xs\<close> followed by \<open>ys\<close>,
  as long as no more than the 2000 retained lines come between two polls.
\<close>

theorem output_polls_exact:
  assumes "wf_output m" and "unat (outputSeq m) + length xs + length ys < 2 ^ 64"
    and "length xs \<le> maxMemoryOutputLines" and "length ys \<le> maxMemoryOutputLines"
  shows "let m1 = foldl AddOutput m xs; r1 = output_since m1 (outputSeq m); m2 = foldl AddOutput m1 ys
         in fst r1 @ fst (output_since m2 (snd r1)) = xs @ ys"
  using assms by (rule out_log.since_polls_compose)

theorem output_polls_exact_witness:
  "let m = NewSessionMeta 7 ''s'' ''b''; m1 = foldl AddOutput m [''a'']; r1 = output_since m1 (outputSeq m);
       m2 = foldl AddOutput m1 [''b'', ''c'']
   in fst r1 @ fst (output_since m2 (snd r1)) = [''a''] @ [''b'', ''c'']"
  using output_polls_exact [of "NewSessionMeta 7 ''s'' ''b''" "[''a'']" "[''b'', ''c'']"]
  by (simp add: wf_new_meta maxMemoryOutputLines_def Let_def)

text \<open>
  A client that fell behind, on either log of a session, gets the newest entries and only
  those: after any lines (terminals) \<open>xs\<close> added past its cursor it reads the last 2000 lines
  (16 terminals) of \<open>xs\<close>, and never an entry from before its cursor.
\<close>

lemma late_reader_gets_newest:
  assumes "wf_output m" and "unat (outputSeq m) + length xs < 2 ^ 64"
    and "wf_terminals m" and "unat (terminalSeq m) + length ts < 2 ^ 64"
  shows "fst (output_since (foldl AddOutput m xs) (outputSeq m)) = keep_last maxMemoryOutputLines xs
    \<and> fst (terminals_since (foldl PublishTerminal m ts) (terminalSeq m)) = keep_last maxMemoryTerminals ts"
  using out_log.since_cursor [OF assms(1,2)] term_log.since_cursor [OF assms(3,4)] by blast

lemma late_reader_gets_newest_witness:
  "let m = NewSessionMeta 7 ''s'' ''b'' in
   fst (output_since (foldl AddOutput m [''a'']) (outputSeq m)) = [''a'']
    \<and> fst (terminals_since (foldl PublishTerminal m (replicate 17 zero_terminal)) (terminalSeq m))
      = replicate 16 zero_terminal"
  using late_reader_gets_newest [of "NewSessionMeta 7 ''s'' ''b''" "[''a'']" "replicate 17 zero_terminal"]
  by (simp add: wf_new_meta maxMemoryOutputLines_def maxMemoryTerminals_def keep_last_def
      Let_def)

text \<open>
  C3: each turn of a session publishes at most one terminal through the turn operations, whatever their
  order. Over any sequence of begins, cancels, completions, watchdog failures and finishes, take what
  each step adds to the terminal log with the number of the session's turn at that step: these turn
  numbers strictly increase. Together the steps account for the whole log: its counter has advanced by their
  number, and its retained entries are the newest of the old ones followed by theirs.
\<close>

theorem one_terminal_per_turn:
  assumes "wf_terminals m" and "unat (turnToken m) + length ops < 2 ^ 64" and "unat (terminalSeq m) + length ops < 2 ^ 64"
    and "turn_run m ops = (m', published)"
  shows "sorted_wrt (\<lambda>a b. unat a < unat b) (map fst published) \<and> distinct (map fst published)
    \<and> unat (terminalSeq m') = unat (terminalSeq m) + length published
    \<and> terminals m' = (if published = [] then terminals m
        else keep_last maxMemoryTerminals (terminals m @ map snd published))"
proof -
  have "sorted_wrt (\<lambda>a b. unat a < unat b) (map fst published)"
    using turn_run_published [OF assms(1-3)] assms(4) by (simp add: sorted_wrt_map)
  then show ?thesis
    using turn_run_published [OF assms(1-3)] assms(4) sorted_wrt_less_unat_distinct by (simp add: log_gains_def)
qed

theorem one_terminal_per_turn_witness:
  "terminals (fst (turn_run (NewSessionMeta 0 ''s'' ''b'')
     [TBegin, TComplete zero_terminal, TComplete zero_terminal, TBegin, TCancel, TFailCancel 2 zero_terminal]))
   = [zero_terminal, zero_terminal]"
proof -
  let ?m = "NewSessionMeta 0 ''s'' ''b''"
  let ?ops = "[TBegin, TComplete zero_terminal, TComplete zero_terminal, TBegin, TCancel, TFailCancel 2 zero_terminal]"
  obtain m' ps where r: "turn_run ?m ?ops = (m', ps)" by fastforce
  have "map snd (snd (turn_run ?m ?ops)) = [zero_terminal, zero_terminal]" by code_simp
  then have "map snd ps = [zero_terminal, zero_terminal]" using r by simp
  moreover from this have "ps \<noteq> []" by auto
  moreover have "terminals ?m = []" by (simp add: NewSessionMeta_def zero_meta_def)
  ultimately show ?thesis
    using one_terminal_per_turn [OF wf_new_meta(2) _ _ r] r by (simp add: keep_last_def maxMemoryTerminals_def)
qed

text \<open>
  The watchdog of a cancelled turn cannot end a later turn: once the turn it was started
  for has completed, then after any further operations (new turns and new cancellations
  included) \<open>FailCancellingTurn\<close> with its token refuses and changes nothing.
\<close>

lemma stale_watchdog_refused:
  assumes "BeginTurnCancel m = (m1, tok, True)" and "CompleteTurn m1 t = (m2, True)"
    and "unat (turnToken m) + length ops < 2 ^ 64"
  shows "let m3 = fst (turn_run m2 ops) in FailCancellingTurn m3 tok t' = (m3, False)"
proof -
  have "turnToken m2 = turnToken m" "tok = turnToken m" "\<not> turnActive m2"
    using assms(1,2) by (auto simp: turn_op_defs split: if_splits)
  with assms(3) have "turn_over tok (fst (turn_run m2 ops))"
    by (intro turn_run_over) (simp_all add: turn_over_inactive)
  then show ?thesis by (simp add: turn_over_refuses Let_def)
qed

lemma stale_watchdog_refused_witness:
  "let m = fst (BeginTurn (NewSessionMeta 0 ''s'' ''b'')); m1 = fst (BeginTurnCancel m);
       m2 = fst (CompleteTurn m1 zero_terminal); m3 = fst (turn_run m2 [TBegin, TCancel])
   in FailCancellingTurn m3 1 zero_terminal = (m3, False)"
  using stale_watchdog_refused [of "fst (BeginTurn (NewSessionMeta 0 ''s'' ''b''))"
      "fst (BeginTurnCancel (fst (BeginTurn (NewSessionMeta 0 ''s'' ''b''))))" 1 zero_terminal
      "fst (CompleteTurn (fst (BeginTurnCancel (fst (BeginTurn (NewSessionMeta 0 ''s'' ''b''))))) zero_terminal)"
      "[TBegin, TCancel]" zero_terminal]
  by (simp add: turn_op_defs NewSessionMeta_def zero_meta_def Let_def)

text \<open>
  From an idle session, whatever the order of begins, cancels and finishes, no more
  cancellations are accepted than turns were begun, and the turn token has advanced by exactly
  the number of turns begun.
\<close>

lemma session_cancels_bounded:
  assumes "gate_run BeginTurn (\<lambda>m. (fst (BeginTurnCancel m), snd (snd (BeginTurnCancel m)))) FinishTurn m ops
           = (m', begun, cancels)" and "\<not> turnActive m"
  shows "cancels \<le> begun \<and> turnToken m' = turnToken m + of_nat begun"
  using turn.cancels_bounded [OF assms] turn.token_counts [OF assms(1)] by blast

lemma session_cancels_bounded_witness:
  "(1::nat) \<le> 1 \<and> turnToken (fst (BeginTurnCancel (fst (BeginTurn (NewSessionMeta 0 ''s'' ''b'')))))
     = turnToken (NewSessionMeta 0 ''s'' ''b'') + of_nat 1"
  using session_cancels_bounded [of "NewSessionMeta 0 ''s'' ''b''" "[GBegin, GCancel, GCancel]"
      "fst (BeginTurnCancel (fst (BeginTurn (NewSessionMeta 0 ''s'' ''b''))))" 1 1]
  by (simp add: turn_op_defs NewSessionMeta_def zero_meta_def)

end
