(* ===== verification/Go_Strings.thy ===== *)
theory Go_Strings
  imports Prelude
begin

text \<open>
  The part of Go's \<open>strings\<close>, \<open>bytes\<close>, \<open>strconv\<close>, \<open>unicode/utf8\<close> and
  \<open>path/filepath\<close> packages that the program uses, on byte strings. UTF-8 decoding follows
  \<open>utf8.DecodeRuneInString\<close>: an invalid byte decodes to \<open>RuneError\<close> with width 1.
\<close>

section \<open>Bytes and runes\<close>

definition byte :: "char \<Rightarrow> nat" where "byte c = of_char c"

lemma byte_less: "byte c < 256"
  by (simp add: byte_def)

lemma byte_inj: "byte c = byte d \<longleftrightarrow> c = d"
  by (simp add: byte_def)

definition RuneError :: nat where "RuneError = 0xFFFD"

definition is_cont :: "char \<Rightarrow> bool" where
  "is_cont c = (0x80 \<le> byte c \<and> byte c \<le> 0xBF)"

text \<open>\<open>utf8.RuneStart\<close>: the byte could be the first of an encoded rune.\<close>

definition RuneStart :: "char \<Rightarrow> bool" where
  "RuneStart c = (\<not> is_cont c)"

definition in_range :: "nat \<Rightarrow> nat \<Rightarrow> char \<Rightarrow> bool" where
  "in_range lo hi c = (lo \<le> byte c \<and> byte c \<le> hi)"

text \<open>The accepted range of the second byte, by the first byte (Go's \<open>acceptRanges\<close>).\<close>

definition second_range :: "nat \<Rightarrow> nat \<times> nat" where
  "second_range b =
     (if b = 0xE0 then (0xA0, 0xBF) else if b = 0xED then (0x80, 0x9F)
      else if b = 0xF0 then (0x90, 0xBF) else if b = 0xF4 then (0x80, 0x8F) else (0x80, 0xBF))"

definition rune_len :: "nat \<Rightarrow> nat" where
  "rune_len b =
     (if b < 0x80 then 1 else if 0xC2 \<le> b \<and> b \<le> 0xDF then 2
      else if 0xE0 \<le> b \<and> b \<le> 0xEF then 3 else if 0xF0 \<le> b \<and> b \<le> 0xF4 then 4 else 0)"

definition second_ok :: "char \<Rightarrow> char \<Rightarrow> bool" where
  "second_ok c c1 = in_range (fst (second_range (byte c))) (snd (second_range (byte c))) c1"

definition DecodeRune :: "string \<Rightarrow> nat \<times> nat" where
  "DecodeRune s =
     (case s of
        [] \<Rightarrow> (RuneError, 0)
      | c # cs \<Rightarrow>
          (let b = byte c; n = rune_len b in
           if n = 1 then (b, 1)
           else if n = 2 then
             (case cs of c1 # _ \<Rightarrow> if second_ok c c1 then ((b - 0xC0) * 64 + (byte c1 - 0x80), 2)
                                  else (RuneError, 1)
              | _ \<Rightarrow> (RuneError, 1))
           else if n = 3 then
             (case cs of c1 # c2 # _ \<Rightarrow>
                if second_ok c c1 \<and> is_cont c2
                then ((b - 0xE0) * 4096 + (byte c1 - 0x80) * 64 + (byte c2 - 0x80), 3)
                else (RuneError, 1)
              | _ \<Rightarrow> (RuneError, 1))
           else if n = 4 then
             (case cs of c1 # c2 # c3 # _ \<Rightarrow>
                if second_ok c c1 \<and> is_cont c2 \<and> is_cont c3
                then ((b - 0xF0) * 262144 + (byte c1 - 0x80) * 4096 + (byte c2 - 0x80) * 64
                      + (byte c3 - 0x80), 4)
                else (RuneError, 1)
              | _ \<Rightarrow> (RuneError, 1))
           else (RuneError, 1)))"

lemma DecodeRune_Nil [simp]: "DecodeRune [] = (RuneError, 0)"
  by (simp add: DecodeRune_def)

lemma DecodeRune_size: "s \<noteq> [] \<Longrightarrow> 1 \<le> snd (DecodeRune s) \<and> snd (DecodeRune s) \<le> length s \<and> snd (DecodeRune s) \<le> 4"
  by (auto simp: DecodeRune_def Let_def split: list.splits)

lemma second_ok_cont: "second_ok c c1 \<Longrightarrow> is_cont c1"
  by (auto simp: second_ok_def second_range_def in_range_def is_cont_def split: if_splits)

text \<open>The bytes of a decoded rune after its first are continuation bytes.\<close>

lemma DecodeRune_tail_cont:
  assumes "0 < i" and "i < snd (DecodeRune s)"
  shows "is_cont (s ! i)"
proof (cases s)
  case Nil
  with assms show ?thesis by simp
next
  case (Cons c cs)
  have "i = 1 \<or> i = 2 \<or> i = 3"
    using assms DecodeRune_size [of s] Cons by auto
  with assms Cons show ?thesis
    by (auto simp: DecodeRune_def Let_def second_ok_cont split: list.splits if_splits)
qed

lemma DecodeRune_ascii: "byte c < 0x80 \<Longrightarrow> DecodeRune (c # cs) = (byte c, 1)"
  by (simp add: DecodeRune_def rune_len_def)

text \<open>A multi-byte rune is not \<open>RuneError\<close> of width 1.\<close>

fun rune_segs :: "string \<Rightarrow> (nat \<times> string) list" where
  "rune_segs [] = []"
| "rune_segs (c # cs) =
     (let (r, n) = DecodeRune (c # cs)
      in (r, take (max 1 n) (c # cs)) # rune_segs (drop (max 1 n) (c # cs)))"

declare rune_segs.simps(2) [simp del]

lemma max1: "max (Suc 0) n = (if n = 0 then 1 else n)"
  by (simp add: max_def)

lemma concat_rune_segs: "concat (map snd (rune_segs s)) = s"
proof (induction s rule: rune_segs.induct)
  case (2 c cs)
  obtain r n where rn: "DecodeRune (c # cs) = (r, n)" by fastforce
  with 2 have "concat (map snd (rune_segs (drop (max 1 n) (c # cs)))) = drop (max 1 n) (c # cs)"
    by simp
  with rn show ?case by (simp add: rune_segs.simps(2) Let_def del: drop_eq_Nil)
qed simp

text \<open>A string is valid UTF-8 when no byte decodes as an encoding error.\<close>

definition ValidString :: "string \<Rightarrow> bool" where
  "ValidString s = (\<forall>(r, b) \<in> set (rune_segs s). \<not> (r = RuneError \<and> length b = 1))"

lemma ValidString_ascii: "\<forall>c\<in>set s. byte c < 0x80 \<Longrightarrow> ValidString s"
proof (induction s)
  case (Cons c s)
  then show ?case
    by (simp add: ValidString_def rune_segs.simps(2) DecodeRune_ascii Let_def) (simp add: RuneError_def)
qed (simp add: ValidString_def)

section \<open>White space and trimming\<close>

definition IsSpace :: "nat \<Rightarrow> bool" where
  "IsSpace r = (r \<in> {9, 10, 11, 12, 13, 32, 0x85, 0xA0, 0x1680, 0x2028, 0x2029, 0x202F, 0x205F, 0x3000}
     \<or> (0x2000 \<le> r \<and> r \<le> 0x200A))"

definition TrimSpace :: "string \<Rightarrow> string" where
  "TrimSpace s = concat (map snd
     (rev (dropWhile (\<lambda>x. IsSpace (fst x)) (rev (dropWhile (\<lambda>x. IsSpace (fst x)) (rune_segs s))))))"

text \<open>\<open>TrimLeft\<close> and \<open>TrimRight\<close> with a cutset of ASCII characters work bytewise.\<close>

definition TrimLeft :: "string \<Rightarrow> string \<Rightarrow> string" where
  "TrimLeft s cutset = dropWhile (\<lambda>c. c \<in> set cutset) s"

definition TrimRight :: "string \<Rightarrow> string \<Rightarrow> string" where
  "TrimRight s cutset = rev (dropWhile (\<lambda>c. c \<in> set cutset) (rev s))"

lemma TrimRight_last: "TrimRight s cutset \<noteq> [] \<Longrightarrow> last (TrimRight s cutset) \<notin> set cutset"
  unfolding TrimRight_def by (metis hd_dropWhile last_rev rev_is_Nil_conv)

lemma TrimRight_id: "s = [] \<or> last s \<notin> set cutset \<Longrightarrow> TrimRight s cutset = s"
  unfolding TrimRight_def by (metis dropWhile_none hd_rev rev.simps(1) rev_rev_ident)

lemma set_TrimRight: "set (TrimRight s cutset) \<subseteq> set s"
  by (auto simp: TrimRight_def dest: set_dropWhileD)

section \<open>Searching and replacing\<close>

definition HasPrefix :: "string \<Rightarrow> string \<Rightarrow> bool" where "HasPrefix s p = prefix p s"
definition HasSuffix :: "string \<Rightarrow> string \<Rightarrow> bool" where "HasSuffix s p = suffix p s"

definition TrimPrefix :: "string \<Rightarrow> string \<Rightarrow> string" where
  "TrimPrefix s p = (if HasPrefix s p then drop (length p) s else s)"

definition TrimSuffix :: "string \<Rightarrow> string \<Rightarrow> string" where
  "TrimSuffix s p = (if HasSuffix s p then take (length s - length p) s else s)"

fun Index :: "string \<Rightarrow> string \<Rightarrow> nat option" where
  "Index [] sub = (if sub = [] then Some 0 else None)"
| "Index (c # cs) sub = (if prefix sub (c # cs) then Some 0 else map_option Suc (Index cs sub))"

definition Contains :: "string \<Rightarrow> string \<Rightarrow> bool" where
  "Contains s sub = (Index s sub \<noteq> None)"

lemma Index_Some: "Index s sub = Some i \<Longrightarrow> i + length sub \<le> length s \<and> take (length sub) (drop i s) = sub"
proof (induction s arbitrary: i)
  case (Cons c cs)
  show ?case
  proof (cases "prefix sub (c # cs)")
    case True
    then have "take (length sub) (c # cs) = sub" "length sub \<le> length (c # cs)"
      by (auto simp: prefix_def prefix_length_le dest: arg_cong [where f = length])
    with True Cons.prems show ?thesis by auto
  next
    case False
    with Cons.prems obtain j where "Index cs sub = Some j" "i = Suc j" by auto
    with Cons.IH [of j] show ?thesis by simp
  qed
qed (simp split: if_splits)

lemma Index_prefix: "prefix sub s \<Longrightarrow> Index s sub = Some 0"
  by (cases s) auto

lemma Contains_append: "Contains (xs @ sub @ ys) sub"
proof (induction xs)
  case Nil
  then show ?case by (simp add: Contains_def Index_prefix)
next
  case (Cons x xs)
  then show ?case by (simp add: Contains_def)
qed

text \<open>
  \<open>strings.ReplaceAll\<close> for a non-empty \<open>old\<close> (the program has no other use).
\<close>

fun ReplaceAll :: "string \<Rightarrow> string \<Rightarrow> string \<Rightarrow> string" where
  "ReplaceAll [] old new = []"
| "ReplaceAll (c # cs) old new =
     (if old \<noteq> [] \<and> prefix old (c # cs) then new @ ReplaceAll (drop (length old - 1) cs) old new
      else c # ReplaceAll cs old new)"

text \<open>\<open>strings.Split\<close> and \<open>bytes.Split\<close> with a one-byte separator.\<close>

fun split_byte :: "char \<Rightarrow> string \<Rightarrow> string list" where
  "split_byte sep [] = [[]]"
| "split_byte sep (c # cs) =
     (if c = sep then [] # split_byte sep cs
      else (case split_byte sep cs of (l # ls) \<Rightarrow> (c # l) # ls | [] \<Rightarrow> [[c]]))"

lemma split_byte_not_Nil [simp]: "split_byte sep s \<noteq> []"
  by (induction s) (auto split: list.splits)

lemma split_byte_none: "sep \<notin> set s \<Longrightarrow> split_byte sep s = [s]"
  by (induction s) auto

lemma split_byte_append: "sep \<notin> set l \<Longrightarrow> split_byte sep (l @ sep # s) = l # split_byte sep s"
  by (induction l) auto

text \<open>\<open>strings.SplitN(s, sep, 2)\<close>: the part before the separator and, if there is one, the rest.\<close>

definition split_once :: "char \<Rightarrow> string \<Rightarrow> string \<times> string option" where
  "split_once sep s =
     (let (a, b) = (takeWhile (\<lambda>c. c \<noteq> sep) s, dropWhile (\<lambda>c. c \<noteq> sep) s)
      in (a, if b = [] then None else Some (tl b)))"

fun join_with :: "string \<Rightarrow> string list \<Rightarrow> string" where
  "join_with sep [] = []"
| "join_with sep [x] = x"
| "join_with sep (x # y # ys) = x @ sep @ join_with sep (y # ys)"

text \<open>
  \<open>strings.ToLower\<close> and \<open>strings.EqualFold\<close> on ASCII letters. Bytes of non-ASCII runes are
  left as they are.
\<close>

definition lower_char :: "char \<Rightarrow> char" where
  "lower_char c = (if 65 \<le> byte c \<and> byte c \<le> 90 then char_of (byte c + 32) else c)"

definition ToLower :: "string \<Rightarrow> string" where "ToLower s = map lower_char s"

definition EqualFold :: "string \<Rightarrow> string \<Rightarrow> bool" where
  "EqualFold s t = (ToLower s = ToLower t)"

lemma ToLower_append [simp]: "ToLower (a @ b) = ToLower a @ ToLower b"
  by (simp add: ToLower_def)

section \<open>Decimal numbers\<close>

definition digit_char :: "nat \<Rightarrow> char" where "digit_char d = char_of (48 + d)"

definition is_digit :: "char \<Rightarrow> bool" where "is_digit c = (48 \<le> byte c \<and> byte c \<le> 57)"

fun itoa_nat :: "nat \<Rightarrow> string" where
  "itoa_nat n = (if n < 10 then [digit_char n] else itoa_nat (n div 10) @ [digit_char (n mod 10)])"

declare itoa_nat.simps [simp del]

definition itoa :: "int \<Rightarrow> string" where
  "itoa i = (if i < 0 then CHR ''-'' # itoa_nat (nat (- i)) else itoa_nat (nat i))"

definition digits_value :: "string \<Rightarrow> nat" where
  "digits_value s = foldl (\<lambda>acc c. acc * 10 + (byte c - 48)) 0 s"

text \<open>\<open>strconv.Atoi\<close>: an optional sign and decimal digits, in the range of \<open>int64\<close>.\<close>

definition Atoi :: "string \<Rightarrow> int option" where
  "Atoi s =
     (let neg = (s \<noteq> [] \<and> hd s = CHR ''-'');
          ds = (if s \<noteq> [] \<and> (hd s = CHR ''-'' \<or> hd s = CHR ''+'') then tl s else s);
          v = (if neg then - int (digits_value ds) else int (digits_value ds))
      in if ds = [] \<or> \<not> list_all is_digit ds then None
         else if v < - (2 ^ 63) \<or> 2 ^ 63 - 1 < v then None
         else Some v)"

section \<open>File paths\<close>

definition IsAbs :: "string \<Rightarrow> bool" where "IsAbs p = HasPrefix p ''/''"

definition clean_push :: "bool \<Rightarrow> string list \<Rightarrow> string \<Rightarrow> string list" where
  "clean_push rooted stack part =
     (if part = [] \<or> part = ''.'' then stack
      else if part = ''..'' then
        (if stack \<noteq> [] \<and> last stack \<noteq> ''..'' then butlast stack
         else if rooted then stack else stack @ [''..''])
      else stack @ [part])"

definition Clean :: "string \<Rightarrow> string" where
  "Clean p =
     (let rooted = IsAbs p;
          comps = foldl (clean_push rooted) [] (split_byte (CHR ''/'') p);
          out = (if rooted then ''/'' else []) @ join_with ''/'' comps
      in if out = [] then ''.'' else out)"

text \<open>\<open>filepath.Join\<close> of two elements: empty elements are ignored, the result is cleaned.\<close>

definition path_join :: "string \<Rightarrow> string \<Rightarrow> string" where
  "path_join a b =
     (if a = [] \<and> b = [] then []
      else if a = [] then Clean b
      else if b = [] then Clean a
      else Clean (a @ ''/'' @ b))"

text \<open>\<open>filepath.Ext\<close>: from the last dot of the last path element, or nothing.\<close>

definition Ext :: "string \<Rightarrow> string" where
  "Ext p =
     (let base = takeWhile (\<lambda>c. c \<noteq> CHR ''/'') (rev p);
          e = takeWhile (\<lambda>c. c \<noteq> CHR ''.'') base
      in if e = base then [] else CHR ''.'' # rev e)"

end
