(* ===== verification/Runs.thy ===== *)
theory Runs
  imports Prelude
begin

text \<open>
  Transition systems given by a step function: what is reached from a state, environments made of
  steps, loops of a goroutine, and the interface of a system with an invariant. The daemon, the
  worker and the store are such systems.
\<close>

section \<open>Reaching a state\<close>

definition reaches :: "('s \<Rightarrow> 'a \<Rightarrow> 's) \<Rightarrow> 's \<Rightarrow> 's \<Rightarrow> bool" where
  "reaches step s s' \<longleftrightarrow> (\<exists>acts. s' = foldl step s acts)"

text \<open>What other goroutines do meanwhile: any function that is itself made of steps.\<close>

definition env_of :: "('s \<Rightarrow> 'a \<Rightarrow> 's) \<Rightarrow> ('s \<Rightarrow> 's) \<Rightarrow> bool" where
  "env_of step env \<longleftrightarrow> (\<forall>s. reaches step s (env s))"

lemma reaches_refl: "reaches step s s"
  unfolding reaches_def by (rule exI [of _ "[]"]) simp

lemma reaches_trans: "reaches step s s' \<Longrightarrow> reaches step s' s'' \<Longrightarrow> reaches step s s''"
  unfolding reaches_def by (metis foldl_append)

lemma reaches_step: "reaches step s (step s act)"
  unfolding reaches_def by (rule exI [of _ "[act]"]) simp

lemma reaches_then:
  assumes "reaches step s s'" and "s'' = step s' act"
  shows "reaches step s s''"
  unfolding assms(2) by (rule reaches_trans [OF assms(1) reaches_step [of step s' act]])

lemma reaches_env:
  assumes "env_of step env" and "reaches step s s'"
  shows "reaches step s (env s')"
proof -
  have "reaches step s' (env s')" using assms(1) unfolding env_of_def by (rule spec)
  with assms(2) show ?thesis by (rule reaches_trans)
qed

lemma env_of_id: "env_of step id"
  by (simp add: env_of_def reaches_refl)

section \<open>Loops\<close>

text \<open>
  A goroutine that loops: each round is woken up by something, after the others have run; its result
  says whether the loop goes on. A list that is used up is a loop that still waits.
\<close>

fun goroutine_loop :: "('x \<Rightarrow> 's \<Rightarrow> 's \<times> bool) \<Rightarrow> (('s \<Rightarrow> 's) \<times> 'x) list \<Rightarrow> 's \<Rightarrow> 's \<times> bool" where
  "goroutine_loop body [] s = (s, False)"
| "goroutine_loop body ((env, x) # rs) s =
     (case body x (env s) of (s, go_on) \<Rightarrow> if go_on then goroutine_loop body rs s else (s, True))"

lemma reaches_loop:
  assumes "\<And>x s. ok x \<Longrightarrow> reaches step s (fst (body x s))"
  shows "list_all (\<lambda>(env, x). env_of step env \<and> ok x) rs \<Longrightarrow> reaches step s s'
    \<Longrightarrow> reaches step s (fst (goroutine_loop body rs s'))"
proof (induction rs arbitrary: s')
  case (Cons r rs)
  obtain env x where r: "r = (env, x)" by (cases r)
  with Cons.prems(1) have env: "env_of step env" and x: "ok x" by auto
  have b: "reaches step s (fst (body x (env s')))"
    by (rule reaches_trans [OF reaches_env [OF env Cons.prems(2)] assms [OF x]])
  with Cons.IH [OF _ b] Cons.prems(1) show ?case by (simp add: r case_prod_unfold)
qed simp

section \<open>Invariants\<close>

locale machine =
  fixes step :: "'s \<Rightarrow> 'a \<Rightarrow> 's"
    and inv :: "'s \<Rightarrow> bool"
  assumes inv_step: "inv s \<Longrightarrow> inv (step s act)"
begin

lemma inv_run: "inv s \<Longrightarrow> inv (foldl step s acts)"
  by (induction acts arbitrary: s) (auto intro: inv_step)

lemma inv_reaches: "inv s \<Longrightarrow> reaches step s s' \<Longrightarrow> inv s'"
  unfolding reaches_def using inv_run by blast

text \<open>A loop that keeps the invariant returns at the first round that the invariant makes the last.\<close>

lemma loop_returns:
  assumes body: "\<And>x s. ok x \<Longrightarrow> reaches step s (fst (body x s))"
    and last: "\<And>x s. inv s \<Longrightarrow> last_round x \<Longrightarrow> \<not> snd (body x s)"
  shows "list_all (\<lambda>(env, x). env_of step env \<and> ok x) rs \<Longrightarrow> list_ex (\<lambda>(env, x). last_round x) rs \<Longrightarrow> inv s
    \<Longrightarrow> snd (goroutine_loop body rs s)"
proof (induction rs arbitrary: s)
  case (Cons r rs)
  obtain env x where r: "r = (env, x)" by (cases r)
  with Cons.prems(1) have env: "env_of step env" and x: "ok x" by auto
  have i: "inv (env s)" by (rule inv_reaches [OF Cons.prems(3) reaches_env [OF env reaches_refl]])
  have i': "inv (fst (body x (env s)))" by (rule inv_reaches [OF i body [OF x]])
  show ?case
  proof (cases "last_round x")
    case True
    with last [OF i] show ?thesis by (simp add: r case_prod_unfold)
  next
    case False
    with Cons.IH [OF _ _ i'] Cons.prems(1,2) show ?thesis by (simp add: r case_prod_unfold)
  qed
qed simp

end

end
