(* ===== verification/Closing.thy ===== *)
theory Closing
  imports Runs
begin

text \<open>
  The contract of a registry whose entries can be closed: no operation reopens a closed entry;
  only an operation that replaces the whole entry (a purge, a new session under the same name)
  can. The persisted sessions and the daemon's in-memory sessions both implement it.
\<close>

locale closing = machine step inv
  for step :: "'s \<Rightarrow> 'op \<Rightarrow> 's"
    and inv :: "'s \<Rightarrow> bool" +
  fixes get :: "'s \<Rightarrow> 'k \<Rightarrow> 'v option"
    and closed :: "'v \<Rightarrow> bool"
    and replaces :: "'s \<Rightarrow> 'op \<Rightarrow> 'k \<Rightarrow> bool"
  assumes sticky: "inv s \<Longrightarrow> get s k = Some v \<Longrightarrow> closed v \<Longrightarrow> \<not> replaces s op k \<Longrightarrow>
       \<exists>v'. get (step s op) k = Some v' \<and> closed v'"
begin

text \<open>A run replaces an entry when one of its operations does, in the state it meets.\<close>

fun run_replaces :: "'s \<Rightarrow> 'op list \<Rightarrow> 'k \<Rightarrow> bool" where
  "run_replaces s [] k = False"
| "run_replaces s (op # ops) k = (replaces s op k \<or> run_replaces (step s op) ops k)"

lemma closed_run:
  assumes "inv s" and "get s k = Some v" and "closed v" and "\<not> run_replaces s ops k"
  shows "\<exists>v'. get (foldl step s ops) k = Some v' \<and> closed v'"
  using assms
proof (induction ops arbitrary: s v)
  case (Cons op ops)
  then obtain v' where "get (step s op) k = Some v'" "closed v'"
    using sticky [of s k v op] by auto
  with Cons show ?case by (auto intro: inv_step)
qed auto

end

end
