(* ===== verification/Session_Store.thy ===== *)
theory Session_Store
  imports Session_Meta Go_Strings Closing
begin

text \<open>
  \<open>internal/daemon/session_store.go\<close>: the directory of persisted sessions, one JSON file per
  session, written to a temporary name and renamed. A file of the directory is either a
  readable session or bytes that do not parse; encoding a record as JSON and reading it back
  is taken to give the record itself. Files are keyed by path, computed as the code does with
  \<open>filepath.Join(dir, id + ".json")\<close>, which cleans the path. What the operating system answers
  is an argument (\<open>io\<close>, \<open>rm\<close>, the directory listing). The store's mutex makes each operation
  one step; the three test hooks are nil in production and are left out.
\<close>

record PersistedSession =
  ps_SessionID :: string
  ps_BotID :: string
  ps_CliType :: string
  ps_CliPath :: string
  ps_Model :: string
  ps_CodexProfile :: string
  ps_CliSessionID :: string
  ps_WorkingDir :: string
  ps_WorkerPID :: int
  ps_LastOutput :: "string list"
  ps_LastActive :: time
  ps_CreatedAt :: time
  ps_Closed :: bool

datatype store_file = SessionFile PersistedSession | Garbage

record SessionStore =
  dir :: string
  files :: "string \<rightharpoonup> store_file"

text \<open>How a save can end: at which call it fails, with which error.\<close>

datatype save_io = IoOk | MkdirFails string | MarshalFails string | WriteFails string | RenameFails string

definition NewSessionStore :: "string \<Rightarrow> (string \<rightharpoonup> store_file) \<Rightarrow> SessionStore" where
  "NewSessionStore d disk = \<lparr>dir = d, files = disk\<rparr>"

definition session_path :: "SessionStore \<Rightarrow> string \<Rightarrow> string" where
  "session_path s sessionID = path_join (dir s) (sessionID @ ''.json'')"

definition saveLocked :: "save_io \<Rightarrow> SessionStore \<Rightarrow> PersistedSession \<Rightarrow> SessionStore \<times> string option" where
  "saveLocked io s ps =
     (let path = session_path s (ps_SessionID ps); tmpPath = path @ ''.tmp'' in
      case io of
        MkdirFails e \<Rightarrow> (s, Some e)
      | MarshalFails e \<Rightarrow> (s, Some e)
      | WriteFails e \<Rightarrow> (s\<lparr>files := (files s)(tmpPath \<mapsto> Garbage)\<rparr>, Some e)
      | RenameFails e \<Rightarrow> (s\<lparr>files := (files s)(tmpPath \<mapsto> SessionFile ps)\<rparr>, Some e)
      | IoOk \<Rightarrow> (s\<lparr>files := ((files s)(tmpPath := None))(path \<mapsto> SessionFile ps)\<rparr>, None))"

definition save :: "save_io \<Rightarrow> SessionStore \<Rightarrow> PersistedSession \<Rightarrow> SessionStore \<times> string option" where
  "save io s ps = saveLocked io s ps"

definition loadLocked :: "SessionStore \<Rightarrow> string \<Rightarrow> string + PersistedSession" where
  "loadLocked s sessionID =
     (let path = session_path s sessionID in
      case files s path of
        None \<Rightarrow> Inl (''open '' @ path @ '': no such file or directory'')
      | Some Garbage \<Rightarrow> Inl ''invalid session file''
      | Some (SessionFile ps) \<Rightarrow> Inr ps)"

definition load :: "SessionStore \<Rightarrow> string \<Rightarrow> string + PersistedSession" where
  "load s sessionID = loadLocked s sessionID"

text \<open>\<open>os.ReadDir\<close>: the entries (name, whether a directory) in the order of their names.\<close>

datatype readdir = DirMissing | DirError string | DirEntries "(string \<times> bool) list"

fun list_entries :: "SessionStore \<Rightarrow> (string \<times> bool) list \<Rightarrow> PersistedSession list" where
  "list_entries s [] = []"
| "list_entries s ((name, is_dir) # es) =
     (if is_dir then list_entries s es
      else if Ext name \<noteq> ''.json'' then list_entries s es
      else (case loadLocked s (take (length name - length ''.json'') name) of
              Inl _ \<Rightarrow> list_entries s es
            | Inr ps \<Rightarrow> if \<not> ps_Closed ps then ps # list_entries s es else list_entries s es))"

definition store_list :: "SessionStore \<Rightarrow> readdir \<Rightarrow> string + PersistedSession list" where
  "store_list s rd =
     (case rd of DirMissing \<Rightarrow> Inr [] | DirError e \<Rightarrow> Inl e | DirEntries es \<Rightarrow> Inr (list_entries s es))"

text \<open>
  \<open>rm\<close> is the error \<open>os.Remove\<close> ends with, if any; a missing file is not an error.
\<close>

definition removeLocked :: "string option \<Rightarrow> SessionStore \<Rightarrow> string \<Rightarrow> SessionStore \<times> string option" where
  "removeLocked rm s sessionID =
     (case rm of
        Some e \<Rightarrow> (s, Some e)
      | None \<Rightarrow> (s\<lparr>files := (files s)(session_path s sessionID := None)\<rparr>, None))"

definition remove :: "string option \<Rightarrow> SessionStore \<Rightarrow> string \<Rightarrow> SessionStore \<times> string option" where
  "remove rm s sessionID = removeLocked rm s sessionID"

definition MarkClosed :: "save_io \<Rightarrow> time \<Rightarrow> SessionStore \<Rightarrow> string \<Rightarrow> SessionStore \<times> string option" where
  "MarkClosed io now s sessionID =
     (case loadLocked s sessionID of
        Inl e \<Rightarrow> (s, Some e)
      | Inr ps \<Rightarrow> saveLocked io s (ps\<lparr>ps_Closed := True, ps_LastActive := now\<rparr>))"

definition maxPersistedOutputLines :: nat where "maxPersistedOutputLines = 5000"

definition UpdateOutput :: "save_io \<Rightarrow> time \<Rightarrow> SessionStore \<Rightarrow> string \<Rightarrow> string \<Rightarrow> SessionStore \<times> string option" where
  "UpdateOutput io now s sessionID output =
     (case loadLocked s sessionID of
        Inl e \<Rightarrow> (s, Some e)
      | Inr ps \<Rightarrow>
          (if ps_Closed ps then (s, None)
           else let out = ps_LastOutput ps @ [output];
                    out = (if maxPersistedOutputLines < length out
                           then drop (length out - maxPersistedOutputLines) out else out)
                in saveLocked io s (ps\<lparr>ps_LastOutput := out, ps_LastActive := now\<rparr>)))"

definition UpdateLastActive :: "save_io \<Rightarrow> time \<Rightarrow> SessionStore \<Rightarrow> string \<Rightarrow> SessionStore \<times> string option" where
  "UpdateLastActive io now s sessionID =
     (case loadLocked s sessionID of
        Inl e \<Rightarrow> (s, Some e)
      | Inr ps \<Rightarrow> (if ps_Closed ps then (s, None)
                    else saveLocked io s (ps\<lparr>ps_LastActive := now\<rparr>)))"

definition UpdateWorkerPID :: "save_io \<Rightarrow> SessionStore \<Rightarrow> string \<Rightarrow> int \<Rightarrow> SessionStore \<times> string option" where
  "UpdateWorkerPID io s sessionID pid =
     (case loadLocked s sessionID of
        Inl e \<Rightarrow> (s, Some e)
      | Inr ps \<Rightarrow> (if ps_Closed ps then (s, None)
                    else saveLocked io s (ps\<lparr>ps_WorkerPID := pid\<rparr>)))"

definition UpdateCliSessionID :: "save_io \<Rightarrow> time \<Rightarrow> SessionStore \<Rightarrow> string \<Rightarrow> string \<Rightarrow> SessionStore \<times> string option" where
  "UpdateCliSessionID io now s sessionID cliSessionID =
     (case loadLocked s sessionID of
        Inl e \<Rightarrow> (s, Some e)
      | Inr ps \<Rightarrow> (if ps_Closed ps then (s, None)
                    else saveLocked io s (ps\<lparr>ps_CliSessionID := cliSessionID, ps_LastActive := now\<rparr>)))"

section \<open>Between the in-memory and the persisted session (\<open>session_meta.go\<close>)\<close>

definition ToPersisted :: "SessionMeta \<Rightarrow> PersistedSession" where
  "ToPersisted m =
     \<lparr>ps_SessionID = SessionID m, ps_BotID = BotID m, ps_CliType = CliType m,
      ps_CliPath = CliPath m, ps_Model = Model m, ps_CodexProfile = CodexProfile m,
      ps_CliSessionID = CliSessionID m, ps_WorkingDir = WorkingDir m, ps_WorkerPID = 0,
      ps_LastOutput = LastOutput m, ps_LastActive = lastActive m, ps_CreatedAt = CreatedAt m,
      ps_Closed = Closed m\<rparr>"

definition SessionMetaFromPersisted :: "time \<Rightarrow> PersistedSession \<Rightarrow> SessionMeta" where
  "SessionMetaFromPersisted now ps =
     zero_meta\<lparr>SessionID := ps_SessionID ps, BotID := ps_BotID ps, CliType := ps_CliType ps,
       CliPath := ps_CliPath ps, Model := ps_Model ps, CodexProfile := ps_CodexProfile ps,
       CliSessionID := ps_CliSessionID ps, WorkingDir := ps_WorkingDir ps,
       LastOutput := ps_LastOutput ps,
       CreatedAt := (if is_zero_time (ps_CreatedAt ps) then now else ps_CreatedAt ps),
       Closed := ps_Closed ps,
       Status := (if ps_Closed ps then StatusClosed else StatusCreated),
       lastActive := (if is_zero_time (ps_LastActive ps) then now else ps_LastActive ps),
       outputSeq := of_nat (length (ps_LastOutput ps)),
       outputNotifyCh := Some 0, terminalNotifyCh := Some 0\<rparr>"

section \<open>Paths of session files\<close>

lemma split_byte_last:
  "sep \<notin> set y \<Longrightarrow> last (split_byte sep (x @ y)) = last (split_byte sep x) @ y
     \<and> butlast (split_byte sep (x @ y)) = butlast (split_byte sep x)"
proof (induction x)
  case Nil
  then show ?case by (simp add: split_byte_none)
next
  case (Cons c x)
  then show ?case
    by (cases "split_byte sep (x @ y)"; cases "split_byte sep x") auto
qed

lemma split_byte_cat: "split_byte sep (x @ sep # y) = split_byte sep x @ split_byte sep y"
proof (induction x)
  case (Cons c x)
  then show ?case by (cases "split_byte sep x") auto
qed simp

lemma join_with_snoc: "join_with sep (xs @ [z]) = (if xs = [] then z else join_with sep xs @ sep @ z)"
  by (induction sep xs rule: join_with.induct) auto

text \<open>A last component that is neither empty nor a dot component survives cleaning.\<close>

definition plain_part :: "string \<Rightarrow> bool" where
  "plain_part c = (c \<noteq> [] \<and> c \<noteq> ''.'' \<and> c \<noteq> ''..'')"

lemma clean_last:
  assumes "split_byte (CHR ''/'') p = cs @ [c]" and "plain_part c"
  shows "Clean p = (if IsAbs p then ''/'' else []) @
           join_with ''/'' (foldl (clean_push (IsAbs p)) [] cs @ [c])"
proof -
  have "foldl (clean_push (IsAbs p)) [] (cs @ [c]) = foldl (clean_push (IsAbs p)) [] cs @ [c]"
    using assms(2) by (simp add: clean_push_def plain_part_def)
  moreover have "join_with ''/'' (foldl (clean_push (IsAbs p)) [] cs @ [c]) \<noteq> []"
    using assms(2) by (simp add: join_with_snoc plain_part_def)
  ultimately show ?thesis using assms(1) by (simp add: Clean_def Let_def)
qed

lemma json_part: "plain_part (x @ ''.json'')"
  by (auto simp: plain_part_def dest: arg_cong [where f = length])

lemma clean_json:
  "Clean (x @ ''.json'') = (if IsAbs (x @ ''.json'') then ''/'' else []) @
     join_with ''/'' (foldl (clean_push (IsAbs (x @ ''.json''))) [] (butlast (split_byte (CHR ''/'') x))
        @ [last (split_byte (CHR ''/'') x) @ ''.json''])"
proof -
  have "split_byte (CHR ''/'') (x @ ''.json'')
      = butlast (split_byte (CHR ''/'') x) @ [last (split_byte (CHR ''/'') x) @ ''.json'']"
    using split_byte_last [of "CHR ''/''" "''.json''" x]
      append_butlast_last_id [of "split_byte (CHR ''/'') (x @ ''.json'')"] by simp
  from clean_last [OF this json_part] show ?thesis .
qed

lemma suffix_clean_json: "suffix ''.json'' (Clean (x @ ''.json''))"
proof -
  let ?fs = "foldl (clean_push (IsAbs (x @ ''.json''))) [] (butlast (split_byte (CHR ''/'') x))"
  let ?l = "last (split_byte (CHR ''/'') x)"
  let ?pre = "if IsAbs (x @ ''.json'') then ''/'' else []"
  have "Clean (x @ ''.json'') = (?pre @ (if ?fs = [] then ?l else join_with ''/'' ?fs @ ''/'' @ ?l)) @ ''.json''"
    unfolding clean_json by (simp add: join_with_snoc)
  then show ?thesis unfolding suffix_def by blast
qed

lemma session_path_alt:
  "session_path s sid = Clean ((if dir s = [] then [] else dir s @ ''/'') @ sid @ ''.json'')"
  by (simp add: session_path_def path_join_def)

lemma suffix_session_path: "suffix ''.json'' (session_path s sid)"
  using suffix_clean_json [of "(if dir s = [] then [] else dir s @ ''/'') @ sid"]
  by (simp add: session_path_alt)

lemma tmp_not_session_path: "session_path s sid @ ''.tmp'' \<noteq> session_path t sid'"
proof
  assume eq: "session_path s sid @ ''.tmp'' = session_path t sid'"
  have "suffix ''.json'' (session_path s sid @ ''.tmp'')"
    unfolding eq by (rule suffix_session_path)
  then have "suffix ''.tmp'' ''.json'' \<or> suffix ''.json'' ''.tmp''"
    using suffix_same_cases [of "''.tmp''" "session_path s sid @ ''.tmp''" "''.json''"]
    by (auto simp: suffix_def)
  then show False by (auto simp: suffix_def Cons_eq_append_conv)
qed

definition plain_id :: "string \<Rightarrow> bool" where "plain_id sid = (CHR ''/'' \<notin> set sid)"

lemma session_path_plain:
  assumes "plain_id sid"
  shows "session_path s sid =
     (if IsAbs (dir s) then ''/'' else []) @
      join_with ''/'' (foldl (clean_push (IsAbs (dir s))) [] (if dir s = [] then [] else split_byte (CHR ''/'') (dir s))
        @ [sid @ ''.json''])"
proof (cases "dir s = []")
  case True
  have "\<not> IsAbs (sid @ ''.json'')"
    using assms by (cases sid) (auto simp: IsAbs_def HasPrefix_def plain_id_def)
  moreover have "split_byte (CHR ''/'') sid = [sid]"
    using assms by (simp add: split_byte_none plain_id_def)
  ultimately show ?thesis
    using True by (simp add: session_path_alt clean_json) (simp add: IsAbs_def HasPrefix_def)
next
  case False
  let ?x = "dir s @ ''/'' @ sid"
  have "IsAbs (?x @ ''.json'') = IsAbs (dir s)"
    using False by (cases "dir s") (auto simp: IsAbs_def HasPrefix_def)
  moreover have "split_byte (CHR ''/'') ?x = split_byte (CHR ''/'') (dir s) @ [sid]"
    using assms split_byte_cat [of "CHR ''/''" "dir s" sid] by (simp add: split_byte_none plain_id_def)
  ultimately show ?thesis
    using False clean_json [of ?x] by (simp add: session_path_alt)
qed

lemma session_path_inj: "plain_id a \<Longrightarrow> plain_id b \<Longrightarrow> session_path s a = session_path s b \<longleftrightarrow> a = b"
  by (auto simp: session_path_plain join_with_snoc split: if_splits)

section \<open>What each operation does to the persisted record of a session\<close>

text \<open>The record a session id currently loads.\<close>

definition persisted :: "SessionStore \<Rightarrow> string \<Rightarrow> PersistedSession option" where
  "persisted s sid = (case files s (session_path s sid) of Some (SessionFile ps) \<Rightarrow> Some ps | _ \<Rightarrow> None)"

lemma loadLocked_persisted:
  "(case loadLocked s sid of Inl e \<Rightarrow> f e | Inr ps \<Rightarrow> g ps) =
   (case persisted s sid of
      None \<Rightarrow> f (if files s (session_path s sid) = None
                 then ''open '' @ session_path s sid @ '': no such file or directory''
                 else ''invalid session file'')
    | Some ps \<Rightarrow> g ps)"
  by (auto simp: loadLocked_def persisted_def Let_def split: option.splits store_file.splits)

lemma session_path_files [simp]: "session_path (s\<lparr>files := x\<rparr>) sid = session_path s sid"
  by (simp add: session_path_def)

lemma saveLocked_dir [simp]: "session_path (fst (saveLocked io s ps)) sid = session_path s sid"
  by (cases io) (simp_all add: saveLocked_def Let_def)

lemma saveLocked_persisted:
  "persisted (fst (saveLocked io s ps)) sid =
     (if io = IoOk \<and> session_path s sid = session_path s (ps_SessionID ps) then Some ps
      else persisted s sid)"
  using tmp_not_session_path [of s "ps_SessionID ps" s sid]
  by (cases io) (auto simp: saveLocked_def persisted_def Let_def)

lemma removeLocked_dir [simp]: "session_path (fst (removeLocked rm s k)) sid = session_path s sid"
  by (cases rm) (simp_all add: removeLocked_def)

lemma removeLocked_persisted:
  "persisted (fst (removeLocked rm s k)) sid =
     (if rm = None \<and> session_path s sid = session_path s k then None else persisted s sid)"
  by (cases rm) (auto simp: removeLocked_def persisted_def)

text \<open>
  The common shape of the updates: load, skip a closed record, save the changed one. The
  change never touches the session id or the closed flag.
\<close>

definition keeps_identity :: "(PersistedSession \<Rightarrow> PersistedSession) \<Rightarrow> bool" where
  "keeps_identity f = (\<forall>ps. ps_SessionID (f ps) = ps_SessionID ps \<and> ps_Closed (f ps) = ps_Closed ps)"

definition update_record :: "save_io \<Rightarrow> (PersistedSession \<Rightarrow> PersistedSession) \<Rightarrow> SessionStore \<Rightarrow> string \<Rightarrow> SessionStore" where
  "update_record io f s k =
     (case persisted s k of None \<Rightarrow> s
      | Some ps \<Rightarrow> if ps_Closed ps then s else fst (saveLocked io s (f ps)))"

definition push_output :: "time \<Rightarrow> string \<Rightarrow> PersistedSession \<Rightarrow> PersistedSession" where
  "push_output now line ps = ps\<lparr>ps_LastOutput := keep_last maxPersistedOutputLines (ps_LastOutput ps @ [line]),
     ps_LastActive := now\<rparr>"

lemma update_forms:
  "fst (UpdateOutput io now s k line) = update_record io (push_output now line) s k"
  "fst (UpdateLastActive io now s k) = update_record io (\<lambda>ps. ps\<lparr>ps_LastActive := now\<rparr>) s k"
  "fst (UpdateWorkerPID io s k pid) = update_record io (\<lambda>ps. ps\<lparr>ps_WorkerPID := pid\<rparr>) s k"
  "fst (UpdateCliSessionID io now s k c) =
     update_record io (\<lambda>ps. ps\<lparr>ps_CliSessionID := c, ps_LastActive := now\<rparr>) s k"
  unfolding UpdateOutput_def UpdateLastActive_def UpdateWorkerPID_def UpdateCliSessionID_def
    loadLocked_persisted update_record_def push_output_def keep_last_def Let_def
  by (auto split: option.splits)

lemma keeps_identity_updates [simp]:
  "keeps_identity (push_output now line)"
  "keeps_identity (\<lambda>ps. ps\<lparr>ps_LastActive := now\<rparr>)"
  "keeps_identity (\<lambda>ps. ps\<lparr>ps_WorkerPID := pid\<rparr>)"
  "keeps_identity (\<lambda>ps. ps\<lparr>ps_CliSessionID := c, ps_LastActive := now\<rparr>)"
  by (simp_all add: keeps_identity_def push_output_def)

text \<open>
  Every session file holds a record whose own id leads back to that file: what \<open>saveLocked\<close>
  writes. (The file of a session is found by the id asked for, but written back under the id
  inside the record.)
\<close>

definition store_inv :: "SessionStore \<Rightarrow> bool" where
  "store_inv s = (\<forall>sid ps. persisted s sid = Some ps \<longrightarrow> session_path s (ps_SessionID ps) = session_path s sid)"

lemma update_record_dir [simp]: "session_path (update_record io f s k) sid = session_path s sid"
  by (auto simp: update_record_def split: option.splits)

lemma update_record_persisted:
  assumes "store_inv s" and "keeps_identity f"
  shows "persisted (update_record io f s k) sid =
    (case persisted s sid of
       Some ps \<Rightarrow> if io = IoOk \<and> session_path s sid = session_path s k \<and> \<not> ps_Closed ps
                  then Some (f ps) else Some ps
     | None \<Rightarrow> None)"
proof -
  have same: "session_path s sid = session_path s k \<Longrightarrow> persisted s sid = persisted s k"
    by (simp add: persisted_def)
  have "ps_SessionID (f ps) = ps_SessionID ps" for ps
    using assms(2) by (simp add: keeps_identity_def)
  with assms(1) same show ?thesis
    by (auto simp: update_record_def saveLocked_persisted store_inv_def split: option.splits)
qed

lemma MarkClosed_form:
  "fst (MarkClosed io now s k) =
     (case persisted s k of None \<Rightarrow> s
      | Some ps \<Rightarrow> fst (saveLocked io s (ps\<lparr>ps_Closed := True, ps_LastActive := now\<rparr>)))"
  unfolding MarkClosed_def loadLocked_persisted by (auto split: option.splits)

lemma MarkClosed_persisted:
  assumes "store_inv s"
  shows "persisted (fst (MarkClosed io now s k)) sid =
    (case persisted s sid of
       Some ps \<Rightarrow> if io = IoOk \<and> session_path s sid = session_path s k
                  then Some (ps\<lparr>ps_Closed := True, ps_LastActive := now\<rparr>) else Some ps
     | None \<Rightarrow> None)"
proof -
  have same: "session_path s sid = session_path s k \<Longrightarrow> persisted s sid = persisted s k"
    by (simp add: persisted_def)
  with assms show ?thesis
    by (auto simp: MarkClosed_form saveLocked_persisted store_inv_def split: option.splits)
qed

section \<open>Runs of the store\<close>

datatype store_op =
    OpSave save_io PersistedSession
  | OpRemove "string option" string
  | OpMarkClosed save_io time string
  | OpUpdateOutput save_io time string string
  | OpUpdateLastActive save_io time string
  | OpUpdateWorkerPID save_io string int
  | OpUpdateCliSessionID save_io time string string

fun store_step :: "SessionStore \<Rightarrow> store_op \<Rightarrow> SessionStore" where
  "store_step s (OpSave io ps) = fst (save io s ps)"
| "store_step s (OpRemove rm k) = fst (remove rm s k)"
| "store_step s (OpMarkClosed io now k) = fst (MarkClosed io now s k)"
| "store_step s (OpUpdateOutput io now k line) = fst (UpdateOutput io now s k line)"
| "store_step s (OpUpdateLastActive io now k) = fst (UpdateLastActive io now s k)"
| "store_step s (OpUpdateWorkerPID io k pid) = fst (UpdateWorkerPID io s k pid)"
| "store_step s (OpUpdateCliSessionID io now k c) = fst (UpdateCliSessionID io now s k c)"

fun store_replaces :: "SessionStore \<Rightarrow> store_op \<Rightarrow> string \<Rightarrow> bool" where
  "store_replaces s (OpSave io ps) sid = (session_path s sid = session_path s (ps_SessionID ps))"
| "store_replaces s (OpRemove rm k) sid = (session_path s sid = session_path s k)"
| "store_replaces s _ sid = False"

lemmas store_step_persisted =
  update_forms update_record_persisted MarkClosed_persisted saveLocked_persisted
  removeLocked_persisted save_def remove_def

lemma store_step_dir [simp]: "session_path (store_step s op) sid = session_path s sid"
  by (cases op)
     (auto simp: update_forms MarkClosed_form save_def remove_def removeLocked_def split: option.splits)

lemma saveLocked_inv: "store_inv s \<Longrightarrow> store_inv (fst (saveLocked io s ps))"
  unfolding store_inv_def by (auto simp: saveLocked_persisted)

lemma removeLocked_inv: "store_inv s \<Longrightarrow> store_inv (fst (removeLocked rm s k))"
  unfolding store_inv_def by (auto simp: removeLocked_persisted split: if_splits)

lemma update_record_inv: "store_inv s \<Longrightarrow> store_inv (update_record io f s k)"
  by (auto simp: update_record_def saveLocked_inv split: option.splits)

lemma MarkClosed_inv: "store_inv s \<Longrightarrow> store_inv (fst (MarkClosed io now s k))"
  by (auto simp: MarkClosed_form saveLocked_inv split: option.splits)

lemma store_inv_step: "store_inv s \<Longrightarrow> store_inv (store_step s op)"
  by (cases op)
     (simp_all add: update_forms update_record_inv MarkClosed_inv saveLocked_inv removeLocked_inv
       save_def remove_def)

interpretation store: closing store_step store_inv persisted ps_Closed store_replaces
proof unfold_locales
  fix s op sid ps
  show "store_inv s \<Longrightarrow> store_inv (store_step s op)" by (rule store_inv_step)
  assume "store_inv s" "persisted s sid = Some ps" "ps_Closed ps" "\<not> store_replaces s op sid"
  then show "\<exists>v'. persisted (store_step s op) sid = Some v' \<and> ps_Closed v'"
    by (cases op) (auto simp: store_step_persisted)
qed

lemma closed_untouched:
  assumes "store_inv s" and "persisted s sid = Some ps" and "ps_Closed ps"
    and "\<not> store_replaces s op sid" and "\<forall>io now k. op \<noteq> OpMarkClosed io now k"
  shows "persisted (store_step s op) sid = Some ps"
  using assms by (cases op) (auto simp: store_step_persisted)

section \<open>What the rest of the daemon may rely on\<close>

text \<open>
  C18: Saving a session is atomic for its readers: whatever call of the save fails, every session
  id loads either what it loaded before or, when the save reported success and the id's file is
  the one saved, the new record. The temporary file never stands for a session.
\<close>

theorem save_atomic:
  "persisted (fst (save io s ps)) sid =
     (if snd (save io s ps) = None \<and> session_path s sid = session_path s (ps_SessionID ps)
      then Some ps else persisted s sid)"
  by (cases io) (simp_all add: save_def saveLocked_persisted, simp_all add: saveLocked_def Let_def)

text \<open>The session an operation of the store is asked to work on.\<close>

fun store_op_key :: "store_op \<Rightarrow> string" where
  "store_op_key (OpSave io ps) = ps_SessionID ps"
| "store_op_key (OpRemove rm k) = k"
| "store_op_key (OpMarkClosed io now k) = k"
| "store_op_key (OpUpdateOutput io now k line) = k"
| "store_op_key (OpUpdateLastActive io now k) = k"
| "store_op_key (OpUpdateWorkerPID io k pid) = k"
| "store_op_key (OpUpdateCliSessionID io now k c) = k"


definition sample_record :: PersistedSession where
  "sample_record = ToPersisted (NewSessionMeta 5 ''a'' ''bot'')"

definition sample_store :: SessionStore where
  "sample_store = fst (save IoOk (NewSessionStore ''/tmp'' Map.empty) sample_record)"

lemma sample_paths:
  "session_path sample_store sid = session_path (NewSessionStore ''/tmp'' Map.empty) sid"
  by (simp add: sample_store_def save_def)

lemma sample_store_inv: "store_inv sample_store"
  unfolding sample_store_def save_def
  by (rule saveLocked_inv) (simp add: store_inv_def persisted_def NewSessionStore_def)

lemma sample_persisted: "persisted sample_store ''a'' = Some sample_record"
  unfolding sample_store_def
  by (simp add: save_def saveLocked_persisted sample_record_def ToPersisted_def NewSessionMeta_def zero_meta_def)


text \<open>
  A session that was closed on disk stays closed: over any sequence of store operations,
  each ending in any way, the session's file keeps a closed record unless one of them removes
  that file or saves a whole new record over it.
\<close>

lemma closed_never_reopened:
  assumes "store_inv s" and "persisted s sid = Some ps" and "ps_Closed ps"
    and "\<not> store.run_replaces s ops sid"
  shows "\<exists>ps'. persisted (foldl store_step s ops) sid = Some ps' \<and> ps_Closed ps'"
  using assms by (rule store.closed_run)

definition closed_store :: SessionStore where
  "closed_store = fst (MarkClosed IoOk 6 sample_store ''a'')"

lemma closed_store_persisted:
  "persisted closed_store ''a'' = Some (sample_record\<lparr>ps_Closed := True, ps_LastActive := 6\<rparr>)"
  unfolding closed_store_def by (simp add: MarkClosed_persisted sample_store_inv sample_persisted)

lemma closed_store_inv: "store_inv closed_store"
  unfolding closed_store_def by (rule MarkClosed_inv [OF sample_store_inv])

lemma closed_never_reopened_witness:
  "\<exists>ps'. persisted (foldl store_step closed_store [OpUpdateOutput IoOk 7 ''a'' ''late'', OpUpdateLastActive IoOk 8 ''a'']) ''a''
     = Some ps' \<and> ps_Closed ps'"
  by (rule closed_never_reopened [OF closed_store_inv closed_store_persisted]) simp_all

text \<open>
  Nothing is written into the record of a closed session any more: over any sequence of
  output, activity, worker and Codex session updates, to this or any other session, the record
  stays the same to the last field.
\<close>

lemma closed_record_frozen:
  assumes "store_inv s" and "persisted s sid = Some ps" and "ps_Closed ps"
    and "\<not> store.run_replaces s ops sid" and "\<forall>io now k. OpMarkClosed io now k \<notin> set ops"
  shows "persisted (foldl store_step s ops) sid = Some ps"
  using assms
proof (induction ops arbitrary: s)
  case (Cons op ops)
  have "persisted (store_step s op) sid = Some ps"
    using Cons.prems by (intro closed_untouched) auto
  with Cons show ?case by (auto simp: store_inv_step)
qed simp

lemma closed_record_frozen_witness:
  "persisted (foldl store_step closed_store [OpUpdateOutput IoOk 7 ''a'' ''late'', OpUpdateWorkerPID IoOk ''a'' 8]) ''a''
     = Some (sample_record\<lparr>ps_Closed := True, ps_LastActive := 6\<rparr>)"
  by (rule closed_record_frozen [OF closed_store_inv closed_store_persisted]) simp_all

lemma Ext_json: "Ext name = ''.json'' \<longleftrightarrow> (\<exists>sid. name = sid @ ''.json'')"
proof
  assume e: "Ext name = ''.json''"
  define base where "base = takeWhile (\<lambda>c. c \<noteq> CHR ''/'') (rev name)"
  define ext where "ext = takeWhile (\<lambda>c. c \<noteq> CHR ''.'') base"
  have ne: "ext \<noteq> base" and ext: "rev ext = ''json''"
    using e by (auto simp: Ext_def base_def ext_def Let_def split: if_splits)
  have "base = ext @ dropWhile (\<lambda>c. c \<noteq> CHR ''.'') base" by (simp add: ext_def)
  moreover have "dropWhile (\<lambda>c. c \<noteq> CHR ''.'') base \<noteq> []"
    using ne by (auto simp: ext_def)
  moreover have "hd (dropWhile (\<lambda>c. c \<noteq> CHR ''.'') base) = CHR ''.''"
    using hd_dropWhile [OF calculation(2)] by simp
  ultimately obtain rest where "base = ext @ CHR ''.'' # rest"
    by (metis list.collapse)
  moreover define more where "more = dropWhile (\<lambda>c. c \<noteq> CHR ''/'') (rev name)"
  have "rev name = base @ more" by (simp add: base_def more_def)
  ultimately have "rev name = ext @ CHR ''.'' # rest @ more" by simp
  from arg_cong [OF this, of rev] have "name = rev (ext @ CHR ''.'' # rest @ more)"
    by (simp only: rev_rev_ident)
  then have "name = rev (rest @ more) @ ''.json''" using ext by simp
  then show "\<exists>sid. name = sid @ ''.json''" by blast
qed (auto simp: Ext_def Let_def)

text \<open>
  Listing the store yields exactly the open sessions: the readable, not closed records of
  the directory's regular entries named \<open><id>.json\<close>.
\<close>

lemma list_exactly_open:
  "set (list_entries s es) =
     {ps. \<exists>sid. (sid @ ''.json'', False) \<in> set es \<and> persisted s sid = Some ps \<and> \<not> ps_Closed ps}"
proof (induction es)
  case (Cons e es)
  obtain name is_dir where e: "e = (name, is_dir)" by fastforce
  with Cons show ?case
    by (cases "Ext name = ''.json''") (auto simp: Ext_json loadLocked_persisted split: option.splits)
qed simp

text \<open>
  A session restored from disk is the session that was persisted: writing it out again
  gives the same record (but for the worker's process id, and for times that were never set,
  which become the time of the restore), it is idle, and its output log continues where the
  persisted lines end, so a new client's cursor is past exactly those lines.
\<close>

lemma restore_roundtrip:
  "let m = SessionMetaFromPersisted now ps in
     ToPersisted m = ps\<lparr>ps_WorkerPID := 0,
       ps_LastActive := (if ps_LastActive ps = 0 then now else ps_LastActive ps),
       ps_CreatedAt := (if ps_CreatedAt ps = 0 then now else ps_CreatedAt ps)\<rparr>
     \<and> \<not> turnActive m \<and> terminals m = []
     \<and> snd (OutputCursor m) = of_nat (length (ps_LastOutput ps))
     \<and> fst (output_since m 0) = ps_LastOutput ps"
proof -
  have "unat (0 - (of_nat n - of_nat n :: u64)) = 0" for n by simp
  then show ?thesis
    by (simp add: SessionMetaFromPersisted_def ToPersisted_def zero_meta_def is_zero_time_def OutputCursor_def
      ensureOutputStateLocked_def output_since_def SnapshotOutputSince_def since_window_def Let_def)
qed

end
