(* ===== verification/File_Locks.thy ===== *)
theory File_Locks
  imports Prelude
begin

text \<open>
  \<open>Daemon.lockSessionFile\<close> (\<open>internal/daemon/daemon.go\<close>): the table of per-session file
  locks. An entry is created on first use, counted while any goroutine waits for it or holds
  it, and deleted from the table when the last one leaves; a later caller then gets a new
  entry. Each step of a goroutine is one critical section of the code: \<open>request\<close> under
  \<open>sessionFileLocksMu\<close>, \<open>acquire\<close> at \<open>entry.mu.Lock\<close>, \<open>release\<close> at
  \<open>entry.mu.Unlock\<close> and \<open>forget\<close> under \<open>sessionFileLocksMu\<close> again. Entries are heap
  objects, numbered in the order of creation.
\<close>

record lock_entry =
  holder :: "nat option"   \<comment> \<open>the goroutine that has \<open>mu\<close>\<close>
  refs :: nat

datatype lock_pc =
    Outside                       \<comment> \<open>not in \<open>lockSessionFile\<close>\<close>
  | Waiting string nat            \<comment> \<open>counted, blocked on the entry's mutex\<close>
  | Holding string nat            \<comment> \<open>\<open>lockSessionFile\<close> has returned\<close>
  | Releasing string nat          \<comment> \<open>unlocked, not yet uncounted\<close>

record locks =
  sessionFileLocks :: "string \<rightharpoonup> nat"
  entries :: "nat \<Rightarrow> lock_entry"
  nextEntry :: nat
  pcs :: "nat \<Rightarrow> lock_pc"

definition init_locks :: locks where
  "init_locks = \<lparr>sessionFileLocks = Map.empty, entries = (\<lambda>_. \<lparr>holder = None, refs = 0\<rparr>),
     nextEntry = 0, pcs = (\<lambda>_. Outside)\<rparr>"

definition set_pc :: "nat \<Rightarrow> lock_pc \<Rightarrow> locks \<Rightarrow> locks" where
  "set_pc g pc l = l\<lparr>pcs := (pcs l)(g := pc)\<rparr>"

text \<open>First section: find or create the entry, count the caller.\<close>

definition lock_request :: "nat \<Rightarrow> string \<Rightarrow> locks \<Rightarrow> locks" where
  "lock_request g sid l =
     (let l1 = (case sessionFileLocks l sid of
                  None \<Rightarrow> l\<lparr>entries := (entries l)(nextEntry l := \<lparr>holder = None, refs = 0\<rparr>),
                            sessionFileLocks := (sessionFileLocks l)(sid \<mapsto> nextEntry l),
                            nextEntry := Suc (nextEntry l)\<rparr>
                | Some _ \<Rightarrow> l);
          e = the (sessionFileLocks l1 sid);
          l2 = l1\<lparr>entries := (entries l1)(e := (entries l1 e)\<lparr>refs := refs (entries l1 e) + 1\<rparr>)\<rparr>
      in set_pc g (Waiting sid e) l2)"

definition lock_acquire :: "nat \<Rightarrow> string \<Rightarrow> nat \<Rightarrow> locks \<Rightarrow> locks" where
  "lock_acquire g sid e l =
     set_pc g (Holding sid e) (l\<lparr>entries := (entries l)(e := (entries l e)\<lparr>holder := Some g\<rparr>)\<rparr>)"

definition lock_release :: "nat \<Rightarrow> string \<Rightarrow> nat \<Rightarrow> locks \<Rightarrow> locks" where
  "lock_release g sid e l =
     set_pc g (Releasing sid e) (l\<lparr>entries := (entries l)(e := (entries l e)\<lparr>holder := None\<rparr>)\<rparr>)"

text \<open>Last section: uncount the caller; the entry goes when nobody is left and it is still the listed one.\<close>

definition lock_forget :: "nat \<Rightarrow> string \<Rightarrow> nat \<Rightarrow> locks \<Rightarrow> locks" where
  "lock_forget g sid e l =
     (let l1 = l\<lparr>entries := (entries l)(e := (entries l e)\<lparr>refs := refs (entries l e) - 1\<rparr>)\<rparr>;
          l2 = (if refs (entries l1 e) = 0 \<and> sessionFileLocks l1 sid = Some e
                then l1\<lparr>sessionFileLocks := (sessionFileLocks l1)(sid := None)\<rparr> else l1)
      in set_pc g Outside l2)"

text \<open>Any goroutine may move; \<open>sync.Once\<close> makes a second call of the unlock function a no-op.\<close>

inductive lock_step :: "locks \<Rightarrow> locks \<Rightarrow> bool" where
  request: "pcs l g = Outside \<Longrightarrow> lock_step l (lock_request g sid l)"
| acquire: "pcs l g = Waiting sid e \<Longrightarrow> holder (entries l e) = None \<Longrightarrow> lock_step l (lock_acquire g sid e l)"
| release: "pcs l g = Holding sid e \<Longrightarrow> lock_step l (lock_release g sid e l)"
| forget: "pcs l g = Releasing sid e \<Longrightarrow> lock_step l (lock_forget g sid e l)"

inductive lock_reachable :: "locks \<Rightarrow> bool" where
  init: "lock_reachable init_locks"
| step: "lock_reachable l \<Longrightarrow> lock_step l l' \<Longrightarrow> lock_reachable l'"

inductive_cases lock_stepE: "lock_step l l'"

section \<open>The invariant\<close>

text \<open>The goroutines an entry counts, with the session they came for.\<close>

definition uses :: "lock_pc \<Rightarrow> (string \<times> nat) option" where
  "uses pc = (case pc of Outside \<Rightarrow> None | Waiting s e \<Rightarrow> Some (s, e) | Holding s e \<Rightarrow> Some (s, e)
     | Releasing s e \<Rightarrow> Some (s, e))"

definition users :: "locks \<Rightarrow> nat \<Rightarrow> nat set" where
  "users l e = {g. \<exists>sid. uses (pcs l g) = Some (sid, e)}"

text \<open>
  A counted entry is the listed one of its session and of no other; a listed entry has
  somebody inside; the count is the number of goroutines inside; an entry's holder is the
  goroutine that holds it.
\<close>

definition listed_inv :: "locks \<Rightarrow> bool" where
  "listed_inv l \<longleftrightarrow> (\<forall>g sid e. uses (pcs l g) = Some (sid, e) \<longrightarrow> sessionFileLocks l sid = Some e)"

definition table_inv :: "locks \<Rightarrow> bool" where
  "table_inv l \<longleftrightarrow> (\<forall>sid e. sessionFileLocks l sid = Some e \<longrightarrow> e < nextEntry l \<and> users l e \<noteq> {}
     \<and> (\<forall>sid'. sessionFileLocks l sid' = Some e \<longrightarrow> sid' = sid))"

definition count_inv :: "locks \<Rightarrow> bool" where
  "count_inv l \<longleftrightarrow> (\<forall>e < nextEntry l. finite (users l e) \<and> refs (entries l e) = card (users l e))"

definition holder_inv :: "locks \<Rightarrow> bool" where
  "holder_inv l \<longleftrightarrow> (\<forall>e < nextEntry l. \<forall>g. holder (entries l e) = Some g \<longleftrightarrow> (\<exists>sid. pcs l g = Holding sid e))"

definition lock_inv :: "locks \<Rightarrow> bool" where
  "lock_inv l \<longleftrightarrow> listed_inv l \<and> table_inv l \<and> count_inv l \<and> holder_inv l"

lemmas lock_inv_defs = lock_inv_def listed_inv_def table_inv_def count_inv_def holder_inv_def

lemma uses_simps [simp]:
  "uses Outside = None" "uses (Waiting s e) = Some (s, e)" "uses (Holding s e) = Some (s, e)"
  "uses (Releasing s e) = Some (s, e)"
  by (simp_all add: uses_def)

lemma users_fun_upd:
  "users (l\<lparr>pcs := (pcs l)(g := pc)\<rparr>) e =
     (if \<exists>sid. uses pc = Some (sid, e) then insert g (users l e) else users l e - {g})"
  by (auto simp: users_def)

lemma users_other [simp]:
  "users (l\<lparr>entries := x\<rparr>) = users l" "users (l\<lparr>sessionFileLocks := y\<rparr>) = users l"
  "users (l\<lparr>nextEntry := n\<rparr>) = users l"
  by (simp_all add: users_def fun_eq_iff)

lemma lock_invD:
  assumes "lock_inv l"
  shows "uses (pcs l g) = Some (sid, e) \<Longrightarrow> sessionFileLocks l sid = Some e"
    and "sessionFileLocks l sid = Some e \<Longrightarrow> e < nextEntry l"
    and "sessionFileLocks l sid = Some e \<Longrightarrow> users l e \<noteq> {}"
    and "sessionFileLocks l sid = Some e \<Longrightarrow> sessionFileLocks l sid' = Some e \<Longrightarrow> sid' = sid"
    and "e < nextEntry l \<Longrightarrow> finite (users l e)"
    and "e < nextEntry l \<Longrightarrow> refs (entries l e) = card (users l e)"
    and "e < nextEntry l \<Longrightarrow> holder (entries l e) = Some g \<longleftrightarrow> (\<exists>sid. pcs l g = Holding sid e)"
  using assms unfolding lock_inv_defs by blast+

lemma uses_lt: "lock_inv l \<Longrightarrow> uses (pcs l g) = Some (sid, e) \<Longrightarrow> e < nextEntry l"
  using lock_invD(1,2) by blast

lemma users_fresh:
  assumes "lock_inv l" and "nextEntry l \<le> e"
  shows "users l e = {}"
proof -
  have "uses (pcs l g) \<noteq> Some (sid, e)" for g sid
    using uses_lt [OF assms(1)] assms(2) by (meson not_less)
  then show ?thesis by (simp add: users_def)
qed

text \<open>Moving a goroutine between two counted positions on the same entry.\<close>

lemma lock_inv_move:
  assumes inv: "lock_inv l" and old: "uses (pcs l g) = Some (sid, e)" and new: "uses pc = Some (sid, e)"
    and h: "\<forall>g'. h = Some g' \<longleftrightarrow> (\<exists>s. ((pcs l)(g := pc)) g' = Holding s e)"
  shows "lock_inv (set_pc g pc (l\<lparr>entries := (entries l)(e := (entries l e)\<lparr>holder := h\<rparr>)\<rparr>))"
proof -
  let ?l = "set_pc g pc (l\<lparr>entries := (entries l)(e := (entries l e)\<lparr>holder := h\<rparr>)\<rparr>)"
  have in_old: "g \<in> users l e" using old by (auto simp: users_def)
  have other: "g \<notin> users l e'" if "e' \<noteq> e" for e' using old that by (auto simp: users_def)
  have users: "users ?l e' = users l e'" for e'
    using in_old other [of e'] new by (cases "e' = e") (auto simp: set_pc_def users_def)
  have hold: "(\<exists>s. pcs ?l g' = Holding s e') \<longleftrightarrow> (\<exists>s. pcs l g' = Holding s e')" if "e' \<noteq> e" for e' g'
    using old new that by (cases "g' = g"; cases "pcs l g"; cases pc) (auto simp: set_pc_def)
  from inv have "listed_inv ?l" "table_inv ?l" "count_inv ?l"
    using old new users by (auto simp: lock_inv_defs) (auto simp: set_pc_def split: if_splits)
  moreover have "holder_inv ?l"
    unfolding holder_inv_def
  proof (intro allI impI)
    fix e' g' assume "e' < nextEntry ?l"
    then show "holder (entries ?l e') = Some g' \<longleftrightarrow> (\<exists>sid. pcs ?l g' = Holding sid e')"
      using inv h hold [of e' g'] by (cases "e' = e") (auto simp: lock_inv_defs set_pc_def)
  qed
  ultimately show ?thesis by (simp add: lock_inv_def)
qed

lemma lock_inv_acquire:
  assumes "lock_inv l" and "pcs l g = Waiting sid e" and "holder (entries l e) = None"
  shows "lock_inv (lock_acquire g sid e l)"
proof -
  have "e < nextEntry l" by (rule uses_lt [OF assms(1), of g sid]) (simp add: assms(2))
  then have none: "\<forall>g' s. pcs l g' \<noteq> Holding s e"
    using lock_invD(7) [OF assms(1)] assms(3) by (metis option.distinct(1))
  show ?thesis unfolding lock_acquire_def
    by (rule lock_inv_move [OF assms(1)]) (use assms(2) none in auto)
qed

lemma lock_inv_release:
  assumes "lock_inv l" and "pcs l g = Holding sid e"
  shows "lock_inv (lock_release g sid e l)"
proof -
  have "e < nextEntry l" by (rule uses_lt [OF assms(1), of g sid]) (simp add: assms(2))
  then have only: "\<forall>g' s. pcs l g' = Holding s e \<longrightarrow> g' = g"
    using lock_invD(7) [OF assms(1)] assms(2) by (metis option.inject)
  show ?thesis unfolding lock_release_def
    by (rule lock_inv_move [OF assms(1)]) (use assms(2) only in auto)
qed

text \<open>Counting a goroutine in, on the listed entry.\<close>

lemma lock_inv_enter:
  assumes inv: "listed_inv l" "count_inv l" "holder_inv l"
    and table: "\<forall>s x. sessionFileLocks l s = Some x \<longrightarrow> x < nextEntry l
      \<and> (s \<noteq> sid \<longrightarrow> users l x \<noteq> {}) \<and> (\<forall>s'. sessionFileLocks l s' = Some x \<longrightarrow> s' = s)"
    and out: "pcs l g = Outside" and listed: "sessionFileLocks l sid = Some e"
  shows "lock_inv (set_pc g (Waiting sid e)
           (l\<lparr>entries := (entries l)(e := (entries l e)\<lparr>refs := refs (entries l e) + 1\<rparr>)\<rparr>))"
proof -
  let ?l = "set_pc g (Waiting sid e) (l\<lparr>entries := (entries l)(e := (entries l e)\<lparr>refs := refs (entries l e) + 1\<rparr>)\<rparr>)"
  have g: "g \<notin> users l x" for x using out by (auto simp: users_def)
  have users: "users ?l x = (if x = e then insert g (users l e) else users l x)" for x
    using g [of x] by (auto simp: set_pc_def users_def)
  have "listed_inv ?l" using inv(1) listed by (auto simp: listed_inv_def set_pc_def)
  moreover have "users l x \<noteq> {}" if "sessionFileLocks l s = Some x" "x \<noteq> e" for s x
    using that table listed by (metis option.inject)
  then have "table_inv ?l"
    unfolding table_inv_def users using table by (auto simp: set_pc_def)
  moreover have "count_inv ?l"
    unfolding count_inv_def users using inv(2) g [of e] by (auto simp: count_inv_def set_pc_def)
  moreover have "holder_inv ?l"
    using inv(3) out by (auto simp: holder_inv_def set_pc_def)
  ultimately show ?thesis by (simp add: lock_inv_def)
qed

lemma lock_inv_request:
  assumes inv: "lock_inv l" and out: "pcs l g = Outside"
  shows "lock_inv (lock_request g sid l)"
proof (cases "sessionFileLocks l sid")
  case (Some e)
  have "lock_inv (set_pc g (Waiting sid e)
           (l\<lparr>entries := (entries l)(e := (entries l e)\<lparr>refs := refs (entries l e) + 1\<rparr>)\<rparr>))"
    using inv out Some by (intro lock_inv_enter) (auto simp: lock_inv_def table_inv_def)
  with Some show ?thesis by (simp add: lock_request_def Let_def)
next
  case None
  let ?e = "nextEntry l"
  let ?l = "l\<lparr>entries := (entries l)(?e := \<lparr>holder = None, refs = 0\<rparr>),
              sessionFileLocks := (sessionFileLocks l)(sid \<mapsto> ?e), nextEntry := Suc ?e\<rparr>"
  define l2 where "l2 = ?l"
  have users: "users l2 = users l" by (simp add: users_def fun_eq_iff l2_def)
  have fresh: "users l ?e = {}" by (rule users_fresh [OF inv]) simp
  have nobody: "pcs l g' \<noteq> Holding s ?e" for g' s
    using fresh by (auto simp: users_def dest: spec [where x = g'])
  have li: "listed_inv l2"
    using lock_invD(1) [OF inv] None by (auto simp: listed_inv_def l2_def)
  have ci: "count_inv l2"
    unfolding count_inv_def users using lock_invD(5,6) [OF inv] fresh by (auto simp: less_Suc_eq l2_def)
  have hi: "holder_inv l2"
    using lock_invD(7) [OF inv] nobody by (auto simp: holder_inv_def less_Suc_eq l2_def)
  have ti: "\<forall>s x. sessionFileLocks l2 s = Some x \<longrightarrow> x < nextEntry l2
      \<and> (s \<noteq> sid \<longrightarrow> users l2 x \<noteq> {}) \<and> (\<forall>s'. sessionFileLocks l2 s' = Some x \<longrightarrow> s' = s)"
  proof (intro allI impI)
    fix s x assume s: "sessionFileLocks l2 s = Some x"
    show "x < nextEntry l2 \<and> (s \<noteq> sid \<longrightarrow> users l2 x \<noteq> {})
        \<and> (\<forall>s'. sessionFileLocks l2 s' = Some x \<longrightarrow> s' = s)"
    proof (cases "s = sid")
      case True
      with s have "x = ?e" by (simp add: l2_def)
      moreover have "sessionFileLocks l s' \<noteq> Some ?e" for s'
        using lock_invD(2) [OF inv, of s' ?e] by auto
      ultimately show ?thesis using True by (simp add: l2_def)
    next
      case False
      with s have l: "sessionFileLocks l s = Some x" by (simp add: l2_def)
      have "x < ?e" by (rule lock_invD(2) [OF inv l])
      with False show ?thesis
        using lock_invD(3) [OF inv l] lock_invD(4) [OF inv l] unfolding users by (auto simp: l2_def)
    qed
  qed
  have "lock_inv (set_pc g (Waiting sid ?e)
      (l2\<lparr>entries := (entries l2)(?e := (entries l2 ?e)\<lparr>refs := refs (entries l2 ?e) + 1\<rparr>)\<rparr>))"
    by (rule lock_inv_enter [OF li ci hi ti]) (simp_all add: l2_def out)
  then have "lock_inv (set_pc g (Waiting sid ?e)
      (?l\<lparr>entries := (entries ?l)(?e := (entries ?l ?e)\<lparr>refs := refs (entries ?l ?e) + 1\<rparr>)\<rparr>))"
    by (simp only: l2_def)
  with None show ?thesis by (simp add: lock_request_def Let_def)
qed

lemma lock_inv_forget:
  assumes inv: "lock_inv l" and pc: "pcs l g = Releasing sid e"
  shows "lock_inv (lock_forget g sid e l)"
proof -
  let ?l = "lock_forget g sid e l"
  have use: "uses (pcs l g) = Some (sid, e)" by (simp add: pc)
  have lt: "e < nextEntry l" and listed: "sessionFileLocks l sid = Some e"
    using uses_lt [OF inv use] lock_invD(1) [OF inv use] by auto
  have in_users: "g \<in> users l e" using use by (auto simp: users_def)
  have fin: "finite (users l e)" and cnt: "refs (entries l e) = card (users l e)"
    using lock_invD(5,6) [OF inv] lt by auto
  have users: "users ?l x = users l x - (if x = e then {g} else {})" for x
    using use by (auto simp: lock_forget_def set_pc_def Let_def users_def)
  have last: "refs (entries l e) - 1 = 0 \<longleftrightarrow> users l e = {g}"
    using in_users fin cnt card_1_singleton_iff [of "users l e"] by (auto simp: card_gt_0_iff)
      (metis One_nat_def card_Suc_eq_finite card_eq_0_iff empty_iff insert_iff le_Suc_eq le_zero_eq singletonD)
  have table: "sessionFileLocks ?l =
      (if users l e = {g} then (sessionFileLocks l)(sid := None) else sessionFileLocks l)"
    using last listed by (simp add: lock_forget_def set_pc_def Let_def)
  have pcs: "pcs ?l = (pcs l)(g := Outside)" and nxt: "nextEntry ?l = nextEntry l"
    and ent: "entries ?l = (entries l)(e := (entries l e)\<lparr>refs := refs (entries l e) - 1\<rparr>)"
    by (simp_all add: lock_forget_def set_pc_def Let_def)
  have gone: "uses (pcs l g') \<noteq> Some (sid, x)" if "users l e = {g}" "g' \<noteq> g" for g' x
  proof
    assume u: "uses (pcs l g') = Some (sid, x)"
    then have "x = e" using lock_invD(1) [OF inv u] listed by simp
    with u have "g' \<in> users l e" by (auto simp: users_def)
    with that show False by simp
  qed
  have "listed_inv ?l"
    unfolding listed_inv_def table pcs using lock_invD(1) [OF inv] gone by auto
  moreover have "table_inv ?l"
    unfolding table_inv_def table nxt users using lock_invD(2,3,4) [OF inv] listed in_users by auto
  moreover have "count_inv ?l"
    unfolding count_inv_def nxt users ent using lock_invD(5,6) [OF inv] in_users by auto
  moreover have "holder_inv ?l"
    unfolding holder_inv_def nxt pcs ent using lock_invD(7) [OF inv] pc by auto
  ultimately show ?thesis by (simp add: lock_inv_def)
qed

lemma lock_step_inv: "lock_step l l' \<Longrightarrow> lock_inv l \<Longrightarrow> lock_inv l'"
  by (induction rule: lock_step.induct)
     (simp_all add: lock_inv_request lock_inv_acquire lock_inv_release lock_inv_forget)

lemma reachable_lock_inv: "lock_reachable l \<Longrightarrow> lock_inv l"
proof (induction rule: lock_reachable.induct)
  case init
  then show ?case by (simp add: lock_inv_defs init_locks_def users_def)
next
  case (step l l')
  then show ?case by (blast intro: lock_step_inv)
qed

lemma lock_inv_exclusive:
  assumes inv: "lock_inv l" and "pcs l g = Holding sid e" and "pcs l g' = Holding sid e'"
  shows "g = g' \<and> e = e'"
proof -
  have "sessionFileLocks l sid = Some e" "sessionFileLocks l sid = Some e'"
    using lock_invD(1) [OF inv] assms(2,3) by (metis uses_simps(3))+
  then have eq: "e = e'" by simp
  have "e < nextEntry l" by (rule uses_lt [OF inv, of g sid]) (simp add: assms(2))
  with eq show ?thesis
    using lock_invD(7) [OF inv] assms(2,3) by (metis option.inject)
qed

text \<open>
  A waiting goroutine whose entry nobody holds can move at once, and one that holds or
  releases always can: no wake-up is lost with a deleted entry.
\<close>

lemma lock_inv_progress:
  assumes "lock_inv l" and "pcs l g = Waiting sid e" and "\<forall>g' s. pcs l g' \<noteq> Holding s e"
  shows "lock_step l (lock_acquire g sid e l)"
proof (rule lock_step.acquire [OF assms(2)])
  have "e < nextEntry l" by (rule uses_lt [OF assms(1), of g sid]) (simp add: assms(2))
  then show "holder (entries l e) = None"
    using lock_invD(7) [OF assms(1)] assms(3) by (metis not_None_eq)
qed

text \<open>
  C17: The per-session file lock is exclusive although its table entries come and go: in every
  reachable interleaving at most one goroutine is past \<open>lockSessionFile\<close> for a session.
\<close>

theorem file_lock_exclusive:
  assumes "lock_reachable l" and "pcs l g = Holding sid e" and "pcs l g' = Holding sid e'"
  shows "g = g'"
  using lock_inv_exclusive [OF reachable_lock_inv] assms by blast

definition two_users :: locks where
  "two_users = lock_acquire 1 ''s'' 0 (lock_request 2 ''s'' (lock_request 1 ''s'' init_locks))"

lemmas lock_op_defs = lock_request_def lock_acquire_def lock_release_def lock_forget_def set_pc_def
  init_locks_def

lemma two_users_reachable: "lock_reachable two_users"
proof -
  have "lock_reachable (lock_request 1 ''s'' init_locks)"
    by (rule lock_reachable.step [OF lock_reachable.init lock_step.request]) (simp add: init_locks_def)
  then have "lock_reachable (lock_request 2 ''s'' (lock_request 1 ''s'' init_locks))"
    by (rule lock_reachable.step [OF _ lock_step.request]) (simp add: lock_op_defs Let_def)
  then show ?thesis unfolding two_users_def
    by (rule lock_reachable.step [OF _ lock_step.acquire]) (simp_all add: lock_op_defs Let_def)
qed

theorem file_lock_exclusive_witness: "pcs two_users 1 = Holding ''s'' 0 \<and> (1::nat) = 1"
proof -
  have pc: "pcs two_users 1 = Holding ''s'' 0" by (simp add: two_users_def lock_op_defs Let_def)
  from file_lock_exclusive [OF two_users_reachable pc pc] pc show ?thesis by simp
qed

text \<open>
  The lock table does not leak and never strands a waiter: in every reachable state, an
  entry is listed only while some goroutine is inside for that session, and a goroutine that
  waits on an entry nobody holds can take it at once.
\<close>

lemma file_lock_table:
  assumes "lock_reachable l"
  shows "(sessionFileLocks l sid = Some e \<longrightarrow> (\<exists>g. uses (pcs l g) = Some (sid, e)))
       \<and> (pcs l g = Waiting sid e \<and> (\<forall>g' s. pcs l g' \<noteq> Holding s e) \<longrightarrow> lock_step l (lock_acquire g sid e l))"
proof -
  note inv = reachable_lock_inv [OF assms]
  have "\<exists>g. uses (pcs l g) = Some (sid, e)" if listed: "sessionFileLocks l sid = Some e"
  proof -
    obtain g sid' where u: "uses (pcs l g) = Some (sid', e)"
      using lock_invD(3) [OF inv listed] by (auto simp: users_def)
    have "sid' = sid" by (rule lock_invD(4) [OF inv listed lock_invD(1) [OF inv u]])
    with u show ?thesis by blast
  qed
  with lock_inv_progress [OF inv] show ?thesis by blast
qed

lemma file_lock_table_witness: "\<exists>g. uses (pcs two_users g) = Some (''s'', 0)"
  using file_lock_table [OF two_users_reachable, of "''s''" 0]
  by (simp add: two_users_def lock_op_defs Let_def)

end
