(* ===== verification/Worker_Handle.thy ===== *)
theory Worker_Handle
  imports Protocol
begin

text \<open>
  \<open>internal/daemon/worker_handle.go\<close>: the daemon's view of one worker process (one
  \<^emph>\<open>generation\<close> of a session's worker). \<open>Process\<close> says that \<open>Cmd\<close> and
  \<open>Cmd.Process\<close> are set. The \<open>Ready\<close> channel is closed exactly when \<open>isReady\<close> is set
  (by \<open>markReady\<close>, once), so waiting on it is reading the flag; \<open>ExitDone\<close> is closed by the
  goroutine that waited for the process.
\<close>

record WorkerHandle =
  wh_SessionID :: string
  InstanceID :: string
  Process :: bool
  Conn :: "conn option"
  ExitDone :: bool
  Pid :: int
  hbSeen :: time
  isReady :: bool
  wh_closed :: bool
  startupFailureRecorded :: bool

definition NewWorkerHandle :: "time \<Rightarrow> string \<Rightarrow> WorkerHandle" where
  "NewWorkerHandle now sessionID =
     \<lparr>wh_SessionID = sessionID, InstanceID = [], Process = False, Conn = None, ExitDone = False,
      Pid = 0, hbSeen = now, isReady = False, wh_closed = False, startupFailureRecorded = False\<rparr>"

definition IsAlive :: "WorkerHandle \<Rightarrow> time \<Rightarrow> bool" where
  "IsAlive h now =
     (if wh_closed h then False
      else Conn h \<noteq> None \<and> time_sub now (hbSeen h) < 30 * Second)"

definition TouchHb :: "WorkerHandle \<Rightarrow> time \<Rightarrow> WorkerHandle" where
  "TouchHb h now = h\<lparr>hbSeen := now\<rparr>"

definition LastHb :: "WorkerHandle \<Rightarrow> time" where
  "LastHb h = hbSeen h"

text \<open>
  \<open>Send\<close> picks the connection under the lock and writes to it after. \<open>wr\<close> is the error the
  write ends with, if any; the result is the error of \<open>Send\<close>.
\<close>

definition Send :: "string option \<Rightarrow> WorkerHandle \<Rightarrow> string option" where
  "Send wr h = (case Conn h of None \<Rightarrow> Some ''worker connection nil'' | Some _ \<Rightarrow> wr)"

definition SetConn :: "WorkerHandle \<Rightarrow> conn \<Rightarrow> time \<Rightarrow> WorkerHandle \<times> conn option" where
  "SetConn h c now = (h\<lparr>Conn := Some c, hbSeen := now\<rparr>, Conn h)"

definition markReady :: "WorkerHandle \<Rightarrow> WorkerHandle" where
  "markReady h = (if \<not> isReady h then h\<lparr>isReady := True\<rparr> else h)"

definition IsReady :: "WorkerHandle \<Rightarrow> bool" where
  "IsReady h = isReady h"

definition markStartupFailure :: "WorkerHandle \<Rightarrow> WorkerHandle \<times> bool" where
  "markStartupFailure h =
     (if isReady h \<or> startupFailureRecorded h then (h, False)
      else (h\<lparr>startupFailureRecorded := True\<rparr>, True))"

definition CloseConn :: "WorkerHandle \<Rightarrow> WorkerHandle" where
  "CloseConn h = h\<lparr>wh_closed := True, Conn := None\<rparr>"

lemmas handle_defs [go_defs] = TouchHb_def LastHb_def SetConn_def markReady_def IsReady_def
  CloseConn_def

text \<open>A closed handle is never alive again, whatever its owner does with it.\<close>

datatype handle_op = HTouch time | HSetConn conn time | HReady | HFail | HClose

fun handle_step :: "WorkerHandle \<Rightarrow> handle_op \<Rightarrow> WorkerHandle" where
  "handle_step h (HTouch now) = TouchHb h now"
| "handle_step h (HSetConn c now) = fst (SetConn h c now)"
| "handle_step h HReady = markReady h"
| "handle_step h HFail = fst (markStartupFailure h)"
| "handle_step h HClose = CloseConn h"

lemma handle_step_closed: "wh_closed h \<Longrightarrow> wh_closed (handle_step h op)"
  by (cases op) (simp_all add: handle_defs markStartupFailure_def)

lemma closed_never_alive: "wh_closed h \<Longrightarrow> \<not> IsAlive (foldl handle_step h ops) now"
proof -
  assume "wh_closed h"
  then have "wh_closed (foldl handle_step h ops)"
    by (induction ops arbitrary: h) (auto simp: handle_step_closed)
  then show ?thesis by (simp add: IsAlive_def)
qed

text \<open>A handle reports at most one startup failure over its life, and none once it was ready.\<close>

fun count_failures :: "WorkerHandle \<Rightarrow> handle_op list \<Rightarrow> nat" where
  "count_failures h [] = 0"
| "count_failures h (op # ops) =
     (if op = HFail \<and> snd (markStartupFailure h) then 1 else 0) + count_failures (handle_step h op) ops"

lemma spent_no_failures: "isReady h \<or> startupFailureRecorded h \<Longrightarrow> count_failures h ops = 0"
proof (induction ops arbitrary: h)
  case (Cons op ops)
  then have "isReady (handle_step h op) \<or> startupFailureRecorded (handle_step h op)"
    by (cases op) (auto simp: handle_defs markStartupFailure_def)
  with Cons show ?case by (auto simp: markStartupFailure_def)
qed simp

lemma failures_at_most_one: "count_failures h ops \<le> 1"
proof (induction ops arbitrary: h)
  case (Cons op ops)
  show ?case
  proof (cases "op = HFail \<and> snd (markStartupFailure h)")
    case True
    then have "startupFailureRecorded (handle_step h op)"
      by (simp add: markStartupFailure_def split: if_splits)
    with True show ?thesis by (simp add: spent_no_failures)
  next
    case False
    then have "count_failures h (op # ops) = count_failures (handle_step h op) ops"
      by auto
    with Cons show ?thesis by simp
  qed
qed simp

text \<open>
  A worker generation is counted as a failed start at most once, and not at all after it
  reported ready, whatever the order in which the readiness timeout, its exit, heartbeats,
  reconnects and closing reach its handle.
\<close>

lemma startup_failure_once:
  "count_failures h ops \<le> (if isReady h \<or> startupFailureRecorded h then 0 else 1)"
  using failures_at_most_one [of h ops] spent_no_failures [of h ops] by simp

end
