(* ===== verification/Config.thy ===== *)
theory Config
  imports Go_Strings "HOL-Library.List_Lexorder" "HOL-Library.Char_ord"
begin

text \<open>
  \<open>internal/config\<close>: the daemon's configuration record, its defaults, the lookup of a bot,
  and the names of Codex profiles. The environment (variables, the home directory, what
  \<open>os.Stat\<close> and \<open>os.ReadDir\<close> answer) is an argument. Error texts that the code formats
  with \<open>%q\<close> are constructors.
\<close>

definition CliMock :: string where "CliMock = ''mock''"
definition CliPty :: string where "CliPty = ''pty''"
definition CliAiden :: string where "CliAiden = ''aiden''"
definition CliCodex :: string where "CliCodex = ''codex''"
definition CliClaude :: string where "CliClaude = ''claude-code''"

definition BackendPty :: string where "BackendPty = ''pty''"
definition BackendTmux :: string where "BackendTmux = ''tmux''"

record BotConfig =
  bot_Name :: string
  bot_BotID :: string
  bot_CliType :: string
  bot_CliPath :: string
  BackendType :: string
  bot_WorkingDir :: string
  AllowedUsers :: "string list"
  bot_Model :: string
  bot_CodexProfile :: string

record DaemonConfig =
  ListenAddr :: string
  DashboardAddr :: string
  LogLevel :: string
  SessionsDir :: string
  Bots :: "BotConfig list"

text \<open>The process environment: \<open>os.Getenv\<close> (empty when unset) and \<open>os.UserHomeDir\<close>.\<close>

record os_env =
  Getenv :: "string \<Rightarrow> string"
  UserHomeDir :: "string option"

definition home_or_empty :: "os_env \<Rightarrow> string" where
  "home_or_empty os = (case UserHomeDir os of None \<Rightarrow> [] | Some h \<Rightarrow> h)"

definition path_join3 :: "string \<Rightarrow> string \<Rightarrow> string \<Rightarrow> string" where
  "path_join3 a b c = path_join a (b @ ''/'' @ c)"

definition DefaultConfig :: "os_env \<Rightarrow> DaemonConfig" where
  "DefaultConfig os =
     (let home = home_or_empty os;
          envDir = Getenv os ''BOTMUX_SESSIONS_DIR'';
          sessionsDir = (if envDir = [] then path_join3 home ''.botmux-go'' ''sessions'' else envDir)
      in \<lparr>ListenAddr = ''127.0.0.1:17890'', DashboardAddr = ''127.0.0.1:17891'',
          LogLevel = ''info'', SessionsDir = sessionsDir,
          Bots = [\<lparr>bot_Name = ''default'', bot_BotID = ''bot-default'', bot_CliType = CliMock,
                   bot_CliPath = [], BackendType = BackendPty, bot_WorkingDir = home,
                   AllowedUsers = [], bot_Model = [], bot_CodexProfile = []\<rparr>]\<rparr>)"

definition expandPath :: "os_env \<Rightarrow> string \<Rightarrow> string" where
  "expandPath os p =
     (if HasPrefix p ''~'' then
        (case UserHomeDir os of Some home \<Rightarrow> path_join home (TrimPrefix p ''~'') | None \<Rightarrow> p)
      else p)"

definition bot_defaults :: "os_env \<Rightarrow> BotConfig \<Rightarrow> BotConfig" where
  "bot_defaults os b =
     (let b1 = (if BackendType b = [] then b\<lparr>BackendType := BackendPty\<rparr> else b)
      in if bot_WorkingDir b1 = [] then b1\<lparr>bot_WorkingDir := home_or_empty os\<rparr>
         else b1\<lparr>bot_WorkingDir := expandPath os (bot_WorkingDir b1)\<rparr>)"

definition applyDefaults :: "os_env \<Rightarrow> DaemonConfig \<Rightarrow> DaemonConfig" where
  "applyDefaults os c =
     (let c = (if ListenAddr c = [] then c\<lparr>ListenAddr := ''127.0.0.1:17890''\<rparr> else c);
          c = (if DashboardAddr c = [] then c\<lparr>DashboardAddr := ''127.0.0.1:17891''\<rparr> else c);
          c = (if LogLevel c = [] then c\<lparr>LogLevel := ''info''\<rparr> else c);
          c = (if SessionsDir c = [] then
                 (let envDir = Getenv os ''BOTMUX_SESSIONS_DIR'' in
                  if envDir \<noteq> [] then c\<lparr>SessionsDir := expandPath os envDir\<rparr>
                  else c\<lparr>SessionsDir := path_join3 (home_or_empty os) ''.botmux-go'' ''sessions''\<rparr>)
               else c\<lparr>SessionsDir := expandPath os (SessionsDir c)\<rparr>)
      in c\<lparr>Bots := map (bot_defaults os) (Bots c)\<rparr>)"

fun find_bot :: "BotConfig list \<Rightarrow> string \<Rightarrow> BotConfig option" where
  "find_bot [] botID = None"
| "find_bot (b # bs) botID = (if bot_BotID b = botID then Some b else find_bot bs botID)"

definition FindBot :: "DaemonConfig \<Rightarrow> string \<Rightarrow> BotConfig option" where
  "FindBot c botID = find_bot (Bots c) botID"

lemma FindBot_Some: "FindBot c i = Some b \<Longrightarrow> b \<in> set (Bots c) \<and> bot_BotID b = i"
proof -
  have "find_bot bs i = Some b \<Longrightarrow> b \<in> set bs \<and> bot_BotID b = i" for bs
    by (induction bs) (auto split: if_splits)
  then show "FindBot c i = Some b \<Longrightarrow> b \<in> set (Bots c) \<and> bot_BotID b = i"
    by (simp add: FindBot_def)
qed

section \<open>Codex profiles (\<open>codex_profile.go\<close>)\<close>

definition CodexProfileSuffix :: string where "CodexProfileSuffix = ''.config.toml''"

definition is_alnum :: "char \<Rightarrow> bool" where
  "is_alnum c = ((65 \<le> byte c \<and> byte c \<le> 90) \<or> (97 \<le> byte c \<and> byte c \<le> 122) \<or> is_digit c)"

text \<open>\<open>^[A-Za-z0-9][A-Za-z0-9_-]{0,63}$\<close>\<close>

definition codexProfileNamePattern :: "string \<Rightarrow> bool" where
  "codexProfileNamePattern s =
     (case s of [] \<Rightarrow> False
      | c # cs \<Rightarrow> is_alnum c \<and> length cs \<le> 63
          \<and> list_all (\<lambda>x. is_alnum x \<or> x = CHR ''_'' \<or> x = CHR ''-'') cs)"

definition CodexHome :: "os_env \<Rightarrow> string" where
  "CodexHome os =
     (let home = Getenv os ''CODEX_HOME'' in
      if home \<noteq> [] then home
      else case UserHomeDir os of None \<Rightarrow> ''.codex'' | Some h \<Rightarrow> path_join h ''.codex'')"

datatype stat_result = StatMissing | StatError string | StatMode bool  \<comment> \<open>regular file?\<close>

datatype profile_error =
    InvalidProfileName string
  | ProfileNotFound string
  | ProfileStatError string string
  | ProfileNotRegular string

definition ValidateCodexProfile :: "os_env \<Rightarrow> (string \<Rightarrow> stat_result) \<Rightarrow> string \<Rightarrow> profile_error + string" where
  "ValidateCodexProfile os stat name =
     (if name = [] then Inr []
      else if \<not> codexProfileNamePattern name then Inl (InvalidProfileName name)
      else case stat (path_join (CodexHome os) (name @ CodexProfileSuffix)) of
             StatMissing \<Rightarrow> Inl (ProfileNotFound name)
           | StatError e \<Rightarrow> Inl (ProfileStatError name e)
           | StatMode regular \<Rightarrow> if \<not> regular then Inl (ProfileNotRegular name) else Inr name)"

text \<open>A directory entry: name, whether a directory, and \<open>Info\<close> (\<open>None\<close>: error; else whether regular).\<close>

datatype readdir_result = HomeMissing | HomeError string | HomeEntries "(string \<times> bool \<times> bool option) list"

definition profile_of_entry :: "string \<times> bool \<times> bool option \<Rightarrow> string option" where
  "profile_of_entry e =
     (case e of (name, is_dir, info) \<Rightarrow>
        if is_dir \<or> \<not> HasSuffix name CodexProfileSuffix then None
        else let profile = TrimSuffix name CodexProfileSuffix in
             if \<not> codexProfileNamePattern profile then None
             else if info = Some True then Some profile else None)"

definition DiscoverCodexProfiles :: "readdir_result \<Rightarrow> string + string list" where
  "DiscoverCodexProfiles rd =
     (case rd of HomeMissing \<Rightarrow> Inr []
      | HomeError e \<Rightarrow> Inl (''read Codex home: '' @ e)
      | HomeEntries es \<Rightarrow> Inr (sort (List.map_filter profile_of_entry es)))"

lemma pattern_chars:
  "codexProfileNamePattern s \<Longrightarrow> c \<in> set s \<Longrightarrow> is_alnum c \<or> c = CHR ''_'' \<or> c = CHR ''-''"
  by (cases s) (auto simp: codexProfileNamePattern_def list_all_iff)

lemma pattern_no_slash: "codexProfileNamePattern s \<Longrightarrow> CHR ''/'' \<notin> set s"
  by (auto dest: pattern_chars simp: is_alnum_def is_digit_def byte_def)

lemma profile_of_entry_Some:
  "profile_of_entry e = Some p \<longleftrightarrow>
     (\<exists>name. e = (name, False, Some True) \<and> name = p @ CodexProfileSuffix \<and> codexProfileNamePattern p)"
  by (cases e) (auto simp: profile_of_entry_def Let_def HasSuffix_def TrimSuffix_def suffix_def split: if_splits)

lemma path_join_config:
  assumes "CHR ''/'' \<notin> set p"
  shows "path_join ''/c'' (p @ CodexProfileSuffix) = ''/c/'' @ p @ CodexProfileSuffix"
proof -
  have "split_byte (CHR ''/'') (p @ CodexProfileSuffix) = [p @ CodexProfileSuffix]"
    using assms by (intro split_byte_none) (auto simp: CodexProfileSuffix_def)
  moreover have "p @ CodexProfileSuffix \<notin> {[], ''.'', ''..''}"
    by (auto simp: CodexProfileSuffix_def dest: arg_cong [where f = length])
  ultimately show ?thesis
    by (auto simp: path_join_def Clean_def IsAbs_def HasPrefix_def clean_push_def Let_def CodexProfileSuffix_def)
qed

text \<open>
  The profiles offered are exactly the profiles accepted: when the directory listing and
  \<open>os.Stat\<close> agree on which profile files are regular, a non-empty name is in the answer of
  \<open>DiscoverCodexProfiles\<close> iff \<open>ValidateCodexProfile\<close> accepts it, and no accepted name
  contains a path separator, so the file looked up is inside the Codex home.
\<close>

lemma profiles_offered_iff_accepted:
  assumes "\<forall>p. codexProfileNamePattern p \<longrightarrow>
      (stat (path_join (CodexHome os) (p @ CodexProfileSuffix)) = StatMode True
         \<longleftrightarrow> (p @ CodexProfileSuffix, False, Some True) \<in> set es)"
    and "DiscoverCodexProfiles (HomeEntries es) = Inr ps"
  shows "sorted ps \<and> (p \<in> set ps \<longleftrightarrow> p \<noteq> [] \<and> ValidateCodexProfile os stat p = Inr p)
    \<and> (p \<in> set ps \<longrightarrow> CHR ''/'' \<notin> set p)"
proof -
  have ps: "ps = sort (List.map_filter profile_of_entry es)"
    using assms(2) by (simp add: DiscoverCodexProfiles_def)
  have mem: "p \<in> set ps \<longleftrightarrow> codexProfileNamePattern p \<and> (p @ CodexProfileSuffix, False, Some True) \<in> set es"
    by (auto simp: ps set_map_filter profile_of_entry_Some)
  have "p \<in> set ps \<longleftrightarrow> p \<noteq> [] \<and> ValidateCodexProfile os stat p = Inr p"
    unfolding mem using assms(1)
    by (auto simp: ValidateCodexProfile_def codexProfileNamePattern_def split: stat_result.splits)
  with mem show ?thesis using pattern_no_slash by (simp add: ps) blast
qed

lemma profiles_offered_iff_accepted_witness:
  "''fast'' \<in> set [''fast''] \<longleftrightarrow> ''fast'' \<noteq> [] \<and>
     ValidateCodexProfile \<lparr>Getenv = (\<lambda>_. ''/c''), UserHomeDir = None\<rparr>
       (\<lambda>q. if q = path_join ''/c'' (''fast'' @ CodexProfileSuffix) then StatMode True else StatMissing) ''fast''
     = Inr ''fast''"
proof -
  let ?os = "\<lparr>Getenv = (\<lambda>_. ''/c''), UserHomeDir = None\<rparr>"
  let ?stat = "\<lambda>q. if q = path_join ''/c'' (''fast'' @ CodexProfileSuffix) then StatMode True else StatMissing"
  let ?es = "[(''fast'' @ CodexProfileSuffix, False, Some True)]"
  have home: "CodexHome ?os = ''/c''" by (simp add: CodexHome_def)
  have agree: "path_join ''/c'' (p @ CodexProfileSuffix) = path_join ''/c'' (''fast'' @ CodexProfileSuffix)
      \<longleftrightarrow> p = ''fast''" if "codexProfileNamePattern p" for p
    using path_join_config [OF pattern_no_slash [OF that]] path_join_config [of "''fast''"] by simp
  have "DiscoverCodexProfiles (HomeEntries ?es) = Inr [''fast'']"
    by (simp add: DiscoverCodexProfiles_def List.map_filter_def profile_of_entry_def CodexProfileSuffix_def
        HasSuffix_def suffix_def TrimSuffix_def codexProfileNamePattern_def is_alnum_def is_digit_def byte_def)
  then show ?thesis
    using profiles_offered_iff_accepted [of ?stat ?os ?es "[''fast'']" "''fast''"] agree
    by (simp add: home)
qed

end
