(* ===== verification/Daemon_State.thy ===== *)
theory Daemon_State
  imports Session_Store Worker_Handle Config
begin

text \<open>
  The state of the daemon (\<open>Daemon\<close> in \<open>internal/daemon/daemon.go\<close>) and the predicates and
  small updates every handler is made of. \<open>*SessionMeta\<close> and \<open>*WorkerHandle\<close> values are heap
  objects whose identity matters (a session id can be purged and reused, a session's worker can
  be replaced), so the maps hold references into two heaps, \<open>metas\<close> and \<open>handles\<close>. All maps
  of a daemon made by \<open>New\<close> are non-nil from then on; the code's \<open>== nil\<close> guards, there for
  literal test fixtures, are the false branch here. What leaves the daemon is recorded:
  \<open>outbox\<close> the messages written, \<open>killed\<close> the workers sent a kill signal, \<open>closedConns\<close>
  the connections closed, \<open>closedChans\<close> the stop channels closed.

  Functions whose name ends in \<open>Locked\<close>, and the bodies of critical sections, are single
  steps; a handler is composed of them in the order of the code. \<open>now\<close> is the clock,
  \<open>wr\<close> the error a socket write ends with, \<open>io\<close> how a save to disk ends.
\<close>

datatype go_err = ErrDaemonClosed | Errorf string

fun err_text :: "go_err \<Rightarrow> string" where
  "err_text ErrDaemonClosed = ''daemon closed''"
| "err_text (Errorf e) = e"

record spawnFailure =
  sf_count :: nat
  lastRetry :: time
  exhaustedLogged :: bool

record Daemon =
  cfg :: DaemonConfig
  store :: SessionStore
  ctxDone :: bool
  startedAt :: time
  metas :: "mref \<Rightarrow> SessionMeta"
  nextMeta :: mref
  handles :: "href \<Rightarrow> WorkerHandle"
  nextHandle :: href
  sessions :: "string \<rightharpoonup> mref"
  pendingRestart :: "mref \<rightharpoonup> href"
  workers :: "string \<rightharpoonup> href"
  workerOwners :: "href \<rightharpoonup> mref"
  connToSess :: "conn \<rightharpoonup> string"
  d_closed :: bool
  monitorStop :: bool            \<comment> \<open>the monitor's stop channel exists\<close>
  spawnFailures :: "string \<rightharpoonup> spawnFailure"
  outbox :: "(conn \<times> Message) list"
  killed :: "href list"
  closedConns :: "conn list"
  closedChans :: "chan list"

definition New :: "DaemonConfig \<Rightarrow> (string \<rightharpoonup> store_file) \<Rightarrow> Daemon" where
  "New c disk =
     \<lparr>cfg = c, store = NewSessionStore (SessionsDir c) disk, ctxDone = False, startedAt = 0,
      metas = (\<lambda>_. zero_meta), nextMeta = 0, handles = (\<lambda>_. NewWorkerHandle 0 []), nextHandle = 0,
      sessions = Map.empty, pendingRestart = Map.empty, workers = Map.empty,
      workerOwners = Map.empty, connToSess = Map.empty, d_closed = False, monitorStop = False,
      spawnFailures = Map.empty, outbox = [], killed = [], closedConns = [], closedChans = []\<rparr>"

section \<open>Heap access\<close>

definition upd_meta :: "mref \<Rightarrow> (SessionMeta \<Rightarrow> SessionMeta) \<Rightarrow> Daemon \<Rightarrow> Daemon" where
  "upd_meta m f d = d\<lparr>metas := (metas d)(m := f (metas d m))\<rparr>"

definition upd_handle :: "href \<Rightarrow> (WorkerHandle \<Rightarrow> WorkerHandle) \<Rightarrow> Daemon \<Rightarrow> Daemon" where
  "upd_handle h f d = d\<lparr>handles := (handles d)(h := f (handles d h))\<rparr>"

definition upd_store :: "(SessionStore \<Rightarrow> SessionStore \<times> string option) \<Rightarrow> Daemon \<Rightarrow> Daemon" where
  "upd_store f d = d\<lparr>store := fst (f (store d))\<rparr>"

definition set_status :: "mref \<Rightarrow> SessionStatus \<Rightarrow> Daemon \<Rightarrow> Daemon" where
  "set_status m st d = upd_meta m (\<lambda>x. x\<lparr>Status := st\<rparr>) d"

abbreviation sid_of :: "Daemon \<Rightarrow> mref \<Rightarrow> string" where
  "sid_of d m \<equiv> SessionID (metas d m)"

lemma upd_meta_simps [simp]:
  "metas (upd_meta m f d) = (metas d)(m := f (metas d m))"
  "handles (upd_meta m f d) = handles d" "sessions (upd_meta m f d) = sessions d"
  "workers (upd_meta m f d) = workers d" "workerOwners (upd_meta m f d) = workerOwners d"
  "pendingRestart (upd_meta m f d) = pendingRestart d" "store (upd_meta m f d) = store d"
  "cfg (upd_meta m f d) = cfg d" "ctxDone (upd_meta m f d) = ctxDone d"
  "nextMeta (upd_meta m f d) = nextMeta d" "nextHandle (upd_meta m f d) = nextHandle d"
  "d_closed (upd_meta m f d) = d_closed d" "spawnFailures (upd_meta m f d) = spawnFailures d"
  "outbox (upd_meta m f d) = outbox d" "killed (upd_meta m f d) = killed d"
  "connToSess (upd_meta m f d) = connToSess d" "monitorStop (upd_meta m f d) = monitorStop d"
  "closedConns (upd_meta m f d) = closedConns d" "closedChans (upd_meta m f d) = closedChans d"
  by (simp_all add: upd_meta_def)

lemma upd_handle_simps [simp]:
  "handles (upd_handle h g d) = (handles d)(h := g (handles d h))"
  "metas (upd_handle h g d) = metas d" "sessions (upd_handle h g d) = sessions d"
  "workers (upd_handle h g d) = workers d" "workerOwners (upd_handle h g d) = workerOwners d"
  "pendingRestart (upd_handle h g d) = pendingRestart d" "store (upd_handle h g d) = store d"
  "cfg (upd_handle h g d) = cfg d" "ctxDone (upd_handle h g d) = ctxDone d"
  "nextMeta (upd_handle h g d) = nextMeta d" "nextHandle (upd_handle h g d) = nextHandle d"
  "d_closed (upd_handle h g d) = d_closed d" "spawnFailures (upd_handle h g d) = spawnFailures d"
  "outbox (upd_handle h g d) = outbox d" "killed (upd_handle h g d) = killed d"
  "connToSess (upd_handle h g d) = connToSess d" "monitorStop (upd_handle h g d) = monitorStop d"
  "closedConns (upd_handle h g d) = closedConns d" "closedChans (upd_handle h g d) = closedChans d"
  by (simp_all add: upd_handle_def)

lemma upd_store_simps [simp]:
  "store (upd_store f d) = fst (f (store d))"
  "handles (upd_store f d) = handles d" "metas (upd_store f d) = metas d"
  "sessions (upd_store f d) = sessions d"
  "workers (upd_store f d) = workers d" "workerOwners (upd_store f d) = workerOwners d"
  "pendingRestart (upd_store f d) = pendingRestart d"
  "cfg (upd_store f d) = cfg d" "ctxDone (upd_store f d) = ctxDone d"
  "nextMeta (upd_store f d) = nextMeta d" "nextHandle (upd_store f d) = nextHandle d"
  "d_closed (upd_store f d) = d_closed d" "spawnFailures (upd_store f d) = spawnFailures d"
  "outbox (upd_store f d) = outbox d" "killed (upd_store f d) = killed d"
  "connToSess (upd_store f d) = connToSess d" "monitorStop (upd_store f d) = monitorStop d"
  "closedConns (upd_store f d) = closedConns d" "closedChans (upd_store f d) = closedChans d"
  by (simp_all add: upd_store_def)

section \<open>Identity predicates\<close>

definition isCurrentSessionLocked :: "Daemon \<Rightarrow> mref \<Rightarrow> bool" where
  "isCurrentSessionLocked d m = (sessions d (sid_of d m) = Some m)"

definition isCurrentSession :: "Daemon \<Rightarrow> mref \<Rightarrow> bool" where
  "isCurrentSession d m = isCurrentSessionLocked d m"

definition workerOwnedByMetaLocked :: "Daemon \<Rightarrow> href \<Rightarrow> mref \<Rightarrow> bool" where
  "workerOwnedByMetaLocked d h m = (workerOwners d h = Some m)"

definition workerOwnerLocked :: "Daemon \<Rightarrow> href \<Rightarrow> mref option" where
  "workerOwnerLocked d h = workerOwners d h"

definition isCurrentWorker :: "Daemon \<Rightarrow> href \<Rightarrow> bool" where
  "isCurrentWorker d h = (workers d (wh_SessionID (handles d h)) = Some h)"

definition isCurrentSessionWorker :: "Daemon \<Rightarrow> mref \<Rightarrow> href \<Rightarrow> bool" where
  "isCurrentSessionWorker d m h =
     (if workers d (sid_of d m) \<noteq> Some h \<or> \<not> workerOwnedByMetaLocked d h m then False
      else isCurrentSessionLocked d m)"

definition hasReadyCurrentWorkerForSession :: "Daemon \<Rightarrow> mref \<Rightarrow> bool" where
  "hasReadyCurrentWorkerForSession d m =
     (case workers d (sid_of d m) of
        None \<Rightarrow> False
      | Some h \<Rightarrow> if \<not> workerOwnedByMetaLocked d h m \<or> \<not> IsReady (handles d h) then False
                  else isCurrentSessionLocked d m)"

text \<open>The result's first component may be the nil handle, its second says whether \<open>m\<close> is current.\<close>

definition currentWorkerForSession :: "Daemon \<Rightarrow> mref \<Rightarrow> href option \<times> bool" where
  "currentWorkerForSession d m =
     (if \<not> isCurrentSessionLocked d m then (None, False)
      else (workers d (sid_of d m), True))"

definition isCurrentWorkerForSession :: "Daemon \<Rightarrow> mref \<Rightarrow> href option \<Rightarrow> bool" where
  "isCurrentWorkerForSession d m h =
     (if workers d (sid_of d m) \<noteq> h then False else isCurrentSessionLocked d m)"

lemmas identity_defs = isCurrentSessionLocked_def isCurrentSession_def workerOwnedByMetaLocked_def
  workerOwnerLocked_def isCurrentWorker_def isCurrentSessionWorker_def currentWorkerForSession_def
  isCurrentWorkerForSession_def

lemma isCurrentSessionWorker_iff:
  "isCurrentSessionWorker d m h \<longleftrightarrow>
     workers d (sid_of d m) = Some h \<and> workerOwners d h = Some m \<and> sessions d (sid_of d m) = Some m"
  by (auto simp: identity_defs)

section \<open>The worker maps\<close>

definition installWorkerLocked :: "mref \<Rightarrow> href \<Rightarrow> Daemon \<Rightarrow> Daemon" where
  "installWorkerLocked m h d =
     d\<lparr>workers := (workers d)(sid_of d m \<mapsto> h), workerOwners := (workerOwners d)(h \<mapsto> m)\<rparr>"

definition deleteWorkerIfCurrentLocked :: "string \<Rightarrow> href \<Rightarrow> Daemon \<Rightarrow> Daemon \<times> bool" where
  "deleteWorkerIfCurrentLocked sid h d =
     (if workers d sid \<noteq> Some h then (d, False)
      else (d\<lparr>workers := (workers d)(sid := None), workerOwners := (workerOwners d)(h := None)\<rparr>, True))"

section \<open>Effects on workers\<close>

text \<open>\<open>Cmd.Process.Kill()\<close>, guarded as everywhere by \<open>Cmd != nil && Cmd.Process != nil\<close>.\<close>

definition kill_process :: "href \<Rightarrow> Daemon \<Rightarrow> Daemon" where
  "kill_process h d = (if Process (handles d h) then d\<lparr>killed := killed d @ [h]\<rparr> else d)"

text \<open>\<open>handle.CloseConn()\<close>: marks the handle closed and closes the socket.\<close>

definition close_handle :: "href \<Rightarrow> Daemon \<Rightarrow> Daemon" where
  "close_handle h d =
     (let d1 = (case Conn (handles d h) of None \<Rightarrow> d | Some c \<Rightarrow> d\<lparr>closedConns := closedConns d @ [c]\<rparr>)
      in upd_handle h CloseConn d1)"

definition stopWorkerHandle :: "href option \<Rightarrow> Daemon \<Rightarrow> Daemon" where
  "stopWorkerHandle ho d = (case ho of None \<Rightarrow> d | Some h \<Rightarrow> close_handle h (kill_process h d))"

text \<open>\<open>handle.Send(msg)\<close>: the message reaches the connection unless the write fails.\<close>

definition send_handle :: "string option \<Rightarrow> href \<Rightarrow> Message \<Rightarrow> Daemon \<Rightarrow> Daemon \<times> string option" where
  "send_handle wr h msg d =
     (case Send wr (handles d h) of
        Some e \<Rightarrow> (d, Some e)
      | None \<Rightarrow> (d\<lparr>outbox := outbox d @ [(the (Conn (handles d h)), msg)]\<rparr>, None))"

definition write_conn :: "conn \<Rightarrow> Message \<Rightarrow> Daemon \<Rightarrow> Daemon" where
  "write_conn c msg d = d\<lparr>outbox := outbox d @ [(c, msg)]\<rparr>"

definition close_conn :: "conn \<Rightarrow> Daemon \<Rightarrow> Daemon" where
  "close_conn c d = d\<lparr>closedConns := closedConns d @ [c]\<rparr>"

text \<open>
  Running the functions \<open>DrainOnClose\<close> returns: each closes its stop channel (once; a panic
  of a second close is recovered).
\<close>

definition run_on_close :: "mref \<Rightarrow> Daemon \<Rightarrow> Daemon" where
  "run_on_close m d =
     (let (x, fns) = DrainOnClose (metas d m)
      in (upd_meta m (\<lambda>_. x) d)\<lparr>closedChans := closedChans d @ fns\<rparr>)"

section \<open>Persisting a session\<close>

text \<open>The store operation runs only while the meta is the registered one and open.\<close>

definition persistCurrentSession :: "mref \<Rightarrow> (SessionStore \<Rightarrow> SessionStore \<times> string option) \<Rightarrow> Daemon \<Rightarrow> Daemon" where
  "persistCurrentSession m f d =
     (if sessions d (sid_of d m) = Some m \<and> \<not> Closed (metas d m) then upd_store f d else d)"

section \<open>Accessors\<close>

definition GetSessionMeta :: "Daemon \<Rightarrow> string \<Rightarrow> mref option" where
  "GetSessionMeta d i = sessions d i"

definition GetWorkerHandle :: "Daemon \<Rightarrow> string \<Rightarrow> href option" where
  "GetWorkerHandle d i = workers d i"

definition Sessions :: "Daemon \<Rightarrow> (string \<rightharpoonup> mref)" where
  "Sessions d = sessions d"

definition isClosed :: "Daemon \<Rightarrow> bool" where
  "isClosed d = d_closed d"

definition safeShort :: "string \<Rightarrow> string" where
  "safeShort s = (if length s \<le> 8 then s else take 8 s)"

section \<open>What the effects leave unchanged\<close>

lemma frame_status [simp]:
  "sessions (set_status m st d) = sessions d" "workers (set_status m st d) = workers d"
  "workerOwners (set_status m st d) = workerOwners d" "handles (set_status m st d) = handles d"
  "pendingRestart (set_status m st d) = pendingRestart d" "store (set_status m st d) = store d"
  "nextMeta (set_status m st d) = nextMeta d" "nextHandle (set_status m st d) = nextHandle d"
  "d_closed (set_status m st d) = d_closed d" "cfg (set_status m st d) = cfg d"
  "spawnFailures (set_status m st d) = spawnFailures d" "outbox (set_status m st d) = outbox d"
  "metas (set_status m st d) = (metas d)(m := (metas d m)\<lparr>Status := st\<rparr>)"
  "killed (set_status m st d) = killed d" "ctxDone (set_status m st d) = ctxDone d"
  by (simp_all add: set_status_def)

lemma frame_effects [simp]:
  "sessions (kill_process h d) = sessions d" "sessions (close_handle h d) = sessions d"
  "sessions (stopWorkerHandle ho d) = sessions d" "sessions (fst (send_handle wr h msg d)) = sessions d"
  "sessions (persistCurrentSession m f d) = sessions d" "sessions (run_on_close m d) = sessions d"
  "workers (kill_process h d) = workers d" "workers (close_handle h d) = workers d"
  "workers (stopWorkerHandle ho d) = workers d" "workers (fst (send_handle wr h msg d)) = workers d"
  "workers (persistCurrentSession m f d) = workers d" "workers (run_on_close m d) = workers d"
  "workerOwners (kill_process h d) = workerOwners d" "workerOwners (close_handle h d) = workerOwners d"
  "workerOwners (stopWorkerHandle ho d) = workerOwners d" "workerOwners (fst (send_handle wr h msg d)) = workerOwners d"
  "workerOwners (persistCurrentSession m f d) = workerOwners d" "workerOwners (run_on_close m d) = workerOwners d"
  "pendingRestart (kill_process h d) = pendingRestart d" "pendingRestart (close_handle h d) = pendingRestart d"
  "pendingRestart (stopWorkerHandle ho d) = pendingRestart d" "pendingRestart (fst (send_handle wr h msg d)) = pendingRestart d"
  "pendingRestart (persistCurrentSession m f d) = pendingRestart d" "pendingRestart (run_on_close m d) = pendingRestart d"
  "metas (kill_process h d) = metas d" "metas (close_handle h d) = metas d"
  "metas (stopWorkerHandle ho d) = metas d" "metas (fst (send_handle wr h msg d)) = metas d"
  "metas (persistCurrentSession m f d) = metas d"
  "metas (run_on_close m d) = (metas d)(m := (metas d m)\<lparr>onClose := []\<rparr>)"
  "handles (kill_process h d) = handles d" "handles (fst (send_handle wr h msg d)) = handles d"
  "handles (persistCurrentSession m f d) = handles d" "handles (run_on_close m d) = handles d"
  "handles (close_handle h d) = (handles d)(h := CloseConn (handles d h))"
  "nextMeta (kill_process h d) = nextMeta d" "nextMeta (close_handle h d) = nextMeta d"
  "nextMeta (stopWorkerHandle ho d) = nextMeta d" "nextMeta (fst (send_handle wr h msg d)) = nextMeta d"
  "nextMeta (persistCurrentSession m f d) = nextMeta d" "nextMeta (run_on_close m d) = nextMeta d"
  "nextHandle (kill_process h d) = nextHandle d" "nextHandle (close_handle h d) = nextHandle d"
  "nextHandle (stopWorkerHandle ho d) = nextHandle d" "nextHandle (fst (send_handle wr h msg d)) = nextHandle d"
  "nextHandle (persistCurrentSession m f d) = nextHandle d" "nextHandle (run_on_close m d) = nextHandle d"
  by (simp_all add: kill_process_def close_handle_def stopWorkerHandle_def send_handle_def
      persistCurrentSession_def run_on_close_def DrainOnClose_def Let_def upd_meta_def
      split: option.splits)

lemma frame_effects2 [simp]:
  "d_closed (kill_process h d) = d_closed d" "d_closed (close_handle h d) = d_closed d"
  "d_closed (stopWorkerHandle ho d) = d_closed d" "d_closed (fst (send_handle wr h msg d)) = d_closed d"
  "d_closed (persistCurrentSession m f d) = d_closed d" "d_closed (run_on_close m d) = d_closed d"
  "spawnFailures (kill_process h d) = spawnFailures d" "spawnFailures (close_handle h d) = spawnFailures d"
  "spawnFailures (stopWorkerHandle ho d) = spawnFailures d" "spawnFailures (fst (send_handle wr h msg d)) = spawnFailures d"
  "spawnFailures (persistCurrentSession m f d) = spawnFailures d" "spawnFailures (run_on_close m d) = spawnFailures d"
  "cfg (kill_process h d) = cfg d" "cfg (close_handle h d) = cfg d"
  "cfg (stopWorkerHandle ho d) = cfg d" "cfg (fst (send_handle wr h msg d)) = cfg d"
  "cfg (persistCurrentSession m f d) = cfg d" "cfg (run_on_close m d) = cfg d"
  "store (kill_process h d) = store d" "store (close_handle h d) = store d"
  "store (stopWorkerHandle ho d) = store d" "store (fst (send_handle wr h msg d)) = store d"
  "store (run_on_close m d) = store d"
  by (simp_all add: kill_process_def close_handle_def stopWorkerHandle_def send_handle_def
      persistCurrentSession_def run_on_close_def DrainOnClose_def Let_def upd_meta_def
      split: option.splits)

lemma handles_stopWorkerHandle [simp]:
  "handles (stopWorkerHandle ho d) =
     (case ho of None \<Rightarrow> handles d | Some h \<Rightarrow> (handles d)(h := CloseConn (handles d h)))"
  by (simp add: stopWorkerHandle_def split: option.splits)

text \<open>What no handle operation changes.\<close>

lemma handle_frames [simp]:
  "wh_SessionID (CloseConn h) = wh_SessionID h" "InstanceID (CloseConn h) = InstanceID h"
  "isReady (CloseConn h) = isReady h" "wh_SessionID (TouchHb h t) = wh_SessionID h"
  "InstanceID (TouchHb h t) = InstanceID h" "isReady (TouchHb h t) = isReady h"
  "wh_SessionID (markReady h) = wh_SessionID h" "InstanceID (markReady h) = InstanceID h"
  "isReady (markReady h)" "wh_SessionID (fst (SetConn h c t)) = wh_SessionID h"
  "InstanceID (fst (SetConn h c t)) = InstanceID h" "isReady (fst (SetConn h c t)) = isReady h"
  "wh_SessionID (fst (markStartupFailure h)) = wh_SessionID h"
  "InstanceID (fst (markStartupFailure h)) = InstanceID h"
  "isReady (fst (markStartupFailure h)) = isReady h"
  by (simp_all add: handle_defs markStartupFailure_def)

text \<open>What no session operation changes.\<close>

lemma meta_frames [simp]:
  "SessionID (AddOutput x l) = SessionID x" "Closed (AddOutput x l) = Closed x" "Status (AddOutput x l) = Status x"
  "SessionID (touchActive x t) = SessionID x" "Closed (touchActive x t) = Closed x" "Status (touchActive x t) = Status x"
  "SessionID (FinishTurn x) = SessionID x" "Closed (FinishTurn x) = Closed x" "Status (FinishTurn x) = Status x"
  "SessionID (publishTerminalLocked x tt) = SessionID x" "Closed (publishTerminalLocked x tt) = Closed x"
  "Status (publishTerminalLocked x tt) = Status x"
  "SessionID (fst (BeginTurn x)) = SessionID x" "Closed (fst (BeginTurn x)) = Closed x" "Status (fst (BeginTurn x)) = Status x"
  "SessionID (fst (BeginTurnCancel x)) = SessionID x" "Closed (fst (BeginTurnCancel x)) = Closed x"
  "Status (fst (BeginTurnCancel x)) = Status x"
  "SessionID (fst (CompleteTurn x tt)) = SessionID x" "Closed (fst (CompleteTurn x tt)) = Closed x"
  "Status (fst (CompleteTurn x tt)) = Status x"
  "SessionID (fst (FailCancellingTurn x tok tt)) = SessionID x" "Closed (fst (FailCancellingTurn x tok tt)) = Closed x"
  "Status (fst (FailCancellingTurn x tok tt)) = Status x"
  "SessionID (SetCliSessionID x c) = SessionID x" "Closed (SetCliSessionID x c) = Closed x"
  "Status (SetCliSessionID x c) = Status x"
  "SessionID (ensureOutputStateLocked x) = SessionID x" "Closed (ensureOutputStateLocked x) = Closed x"
  "Status (ensureOutputStateLocked x) = Status x"
  "SessionID (ensureTerminalStateLocked x) = SessionID x" "Closed (ensureTerminalStateLocked x) = Closed x"
  "Status (ensureTerminalStateLocked x) = Status x"
  "SessionID (AddOnClose x fn) = SessionID x" "Closed (AddOnClose x fn) = Closed x" "Status (AddOnClose x fn) = Status x"
  by (simp_all add: AddOutput_def touchActive_def publishTerminalLocked_def turn_op_defs
      SetCliSessionID_def ensureOutputStateLocked_def ensureTerminalStateLocked_def AddOnClose_def Let_def)

end
