(* ===== verification/Daemon_Lifecycle.thy ===== *)
theory Daemon_Lifecycle
  imports Daemon_State
begin

text \<open>
  Life and death of sessions and workers in the daemon (\<open>daemon.go\<close>, \<open>session_monitor.go\<close>):
  creating, restoring, closing, removing and purging sessions; starting a worker generation,
  noticing its readiness timeout and its exit; counting failed starts.
\<close>

section \<open>Spawn failures (\<open>session_monitor.go\<close>)\<close>

definition zero_failure :: spawnFailure where
  "zero_failure = \<lparr>sf_count = 0, lastRetry = 0, exhaustedLogged = False\<rparr>"

definition recordSpawnFailure :: "time \<Rightarrow> string \<Rightarrow> Daemon \<Rightarrow> Daemon \<times> nat" where
  "recordSpawnFailure now sessionID d =
     (let sf = (case spawnFailures d sessionID of None \<Rightarrow> zero_failure | Some sf \<Rightarrow> sf);
          sf = sf\<lparr>sf_count := sf_count sf + 1, lastRetry := now, exhaustedLogged := False\<rparr>
      in (d\<lparr>spawnFailures := (spawnFailures d)(sessionID \<mapsto> sf)\<rparr>, sf_count sf))"

definition clearSpawnFailure :: "string \<Rightarrow> Daemon \<Rightarrow> Daemon" where
  "clearSpawnFailure sessionID d = d\<lparr>spawnFailures := (spawnFailures d)(sessionID := None)\<rparr>"

section \<open>Starting a worker\<close>

definition hex_digit :: "nat \<Rightarrow> char" where
  "hex_digit n = (if n < 10 then char_of (48 + n) else char_of (87 + n))"

fun hex_encode :: "string \<Rightarrow> string" where
  "hex_encode [] = []"
| "hex_encode (c # cs) = hex_digit (byte c div 16) # hex_digit (byte c mod 16) # hex_encode cs"

text \<open>\<open>rand\<close> is what \<open>rand.Read\<close> of 16 bytes gives: an error, or the bytes read.\<close>

definition newWorkerInstanceID :: "string + string \<Rightarrow> string + string" where
  "newWorkerInstanceID rand =
     (case rand of
        Inl e \<Rightarrow> Inl (''read random bytes: '' @ e)
      | Inr buf \<Rightarrow>
          if length buf \<noteq> 16
          then Inl (''read random bytes: got '' @ itoa_nat (length buf) @ '', want 16'')
          else Inr (hex_encode buf))"

text \<open>The environment variables a worker is started with, on top of the daemon's own.\<close>

definition worker_environ :: "DaemonConfig \<Rightarrow> SessionMeta \<Rightarrow> string \<Rightarrow> (string \<times> string) list" where
  "worker_environ c meta iid =
     [(''BOTMUX_ROLE'', ''worker''),
      (''BOTMUX_SESSION_ID'', SessionID meta),
      (''BOTMUX_DAEMON_ADDR'', ListenAddr c),
      (''BOTMUX_CLI_TYPE'', CliType meta),
      (''BOTMUX_CLI_PATH'', CliPath meta),
      (''BOTMUX_MODEL'', Model meta),
      (''BOTMUX_CODEX_PROFILE'', CodexProfile meta),
      (''BOTMUX_RESUME_SESSION_ID'', CliSessionID meta),
      (''BOTMUX_WORKING_DIR'', WorkingDir meta),
      (''BOTMUX_STORE_DIR'', SessionsDir c),
      (''BOTMUX_WORKER_INSTANCE_ID'', iid)]"

text \<open>
  What the world contributes to a spawn: the clock, the random bytes, the outcome of
  \<open>cmd.Start\<close> (an error or the process id) and of the save of that id.
\<close>

record spawn_world =
  sw_now :: time
  sw_rand :: "string + string"
  sw_start :: "string + int"
  sw_io :: save_io

text \<open>
  The critical section of \<open>spawnWorkerForSession\<close> (lines 375 to 399) on a handle already
  allocated: identity check, replacement of the worker, start of the process.
\<close>

definition alloc_handle :: "WorkerHandle \<Rightarrow> Daemon \<Rightarrow> Daemon \<times> href" where
  "alloc_handle x d =
     (d\<lparr>handles := (handles d)(nextHandle d := x), nextHandle := Suc (nextHandle d)\<rparr>, nextHandle d)"

definition spawn_section :: "mref \<Rightarrow> href \<Rightarrow> string + int \<Rightarrow> Daemon \<Rightarrow> Daemon \<times> go_err option \<times> href option" where
  "spawn_section m h start d =
     (if \<not> isCurrentSessionLocked d m
      then (d, Some (Errorf (''session '' @ sid_of d m @ '' is no longer current'')), None)
      else
        let d = set_status m StatusSpawning d;
            d = d\<lparr>pendingRestart := (pendingRestart d)(m := None)\<rparr>;
            existing = workers d (sid_of d m);
            d = installWorkerLocked m h d
        in case start of
             Inl e \<Rightarrow>
               let d = fst (deleteWorkerIfCurrentLocked (sid_of d m) h d);
                   d = set_status m StatusRecovering d
               in (d, Some (Errorf (''spawn worker: '' @ e)), existing)
           | Inr pid \<Rightarrow> (upd_handle h (\<lambda>x. x\<lparr>Pid := pid, Process := True\<rparr>) d, None, existing))"

definition spawnWorkerForSession :: "spawn_world \<Rightarrow> mref \<Rightarrow> Daemon \<Rightarrow> Daemon \<times> go_err option" where
  "spawnWorkerForSession w m d =
     (if d_closed d then (d, Some ErrDaemonClosed)
      else case newWorkerInstanceID (sw_rand w) of
        Inl e \<Rightarrow> (d, Some (Errorf (''generate worker instance ID: '' @ e)))
      | Inr instanceID \<Rightarrow>
          if instanceID = [] then (d, Some (Errorf ''generate worker instance ID: empty value''))
          else
            let (d, h) = alloc_handle ((NewWorkerHandle (sw_now w) (sid_of d m))\<lparr>InstanceID := instanceID\<rparr>) d;
                (d, err, existing) = spawn_section m h (sw_start w) d;
                d = stopWorkerHandle existing d
            in case err of
                 Some e \<Rightarrow> (d, Some e)
               | None \<Rightarrow>
                   (persistCurrentSession m
                      (\<lambda>s. UpdateWorkerPID (sw_io w) s (sid_of d m) (Pid (handles d h))) d, None))"

text \<open>
  The goroutine \<open>monitorReady\<close>, when its ten seconds have passed before \<open>Ready\<close>. (Its other
  two cases do nothing.)
\<close>

definition monitorReady_timeout :: "time \<Rightarrow> href \<Rightarrow> mref \<Rightarrow> Daemon \<Rightarrow> Daemon" where
  "monitorReady_timeout now h m d =
     (if \<not> isCurrentWorker d h then d
      else if \<not> Closed (metas d m) \<and> Status (metas d m) \<noteq> StatusReady then
        let d = set_status m StatusRecovering d;
            first = snd (markStartupFailure (handles d h));
            d = upd_handle h (\<lambda>x. fst (markStartupFailure x)) d
        in if first then fst (recordSpawnFailure now (sid_of d m) d) else d
      else d)"

text \<open>The goroutine \<open>waitWorkerExit\<close>, from the moment \<open>Cmd.Wait\<close> has returned.\<close>

definition exit_section :: "href \<Rightarrow> Daemon \<Rightarrow> Daemon \<times> mref option \<times> bool" where
  "exit_section h d =
     (let sid = wh_SessionID (handles d h);
          owner = workerOwnerLocked d h;
          isOwnedCurrent = (workers d sid = Some h \<and> owner \<noteq> None \<and> isCurrentSessionLocked d (the owner));
          d = (if isOwnedCurrent then fst (deleteWorkerIfCurrentLocked sid h d)
               else if workerOwners d h = owner
                    then d\<lparr>workerOwners := (workerOwners d)(h := None)\<rparr> else d);
          shouldRecover = (isOwnedCurrent \<and> \<not> Closed (metas d (the owner)));
          d = (if shouldRecover then set_status (the owner) StatusRecovering d else d)
      in (d, if isOwnedCurrent then owner else None, shouldRecover))"

definition waitWorkerExit :: "time \<Rightarrow> href \<Rightarrow> Daemon \<Rightarrow> Daemon" where
  "waitWorkerExit now h d =
     (let (d, owned, shouldRecover) = exit_section h d;
          d = (if shouldRecover then
                 let first = snd (markStartupFailure (handles d h));
                     d = upd_handle h (\<lambda>x. fst (markStartupFailure x)) d
                 in if first then fst (recordSpawnFailure now (wh_SessionID (handles d h)) d) else d
               else d);
          d = close_handle h d;
          d = (case owned of None \<Rightarrow> d | Some m \<Rightarrow> run_on_close m d)
      in upd_handle h (\<lambda>x. x\<lparr>ExitDone := True\<rparr>) d)"

section \<open>Creating sessions\<close>

record NewSessionOpts =
  no_SessionID :: string
  no_BotID :: string
  no_CliType :: string
  no_CliPath :: string
  no_WorkingDir :: string
  no_CodexProfile :: string

definition or_default :: "string \<Rightarrow> string \<Rightarrow> string" where
  "or_default a b = (if a = [] then b else a)"

text \<open>
  The checks of \<open>NewSession\<close> and the record it registers. \<open>validate\<close> is
  \<open>config.ValidateCodexProfile\<close>, with the text of its error.
\<close>

definition new_session_meta :: "(string \<Rightarrow> string + string) \<Rightarrow> time \<Rightarrow> DaemonConfig \<Rightarrow> NewSessionOpts \<Rightarrow> string + SessionMeta" where
  "new_session_meta validate now c opts =
     (if no_SessionID opts = [] then Inl ''session_id required''
      else case (case FindBot c (no_BotID opts) of
                   Some b \<Rightarrow> Some b
                 | None \<Rightarrow> (case Bots c of [] \<Rightarrow> None | b # _ \<Rightarrow> Some b)) of
        None \<Rightarrow> Inl ''no bots configured''
      | Some bt \<Rightarrow>
          let cliType = or_default (no_CliType opts) (bot_CliType bt);
              cliPath = or_default (no_CliPath opts) (bot_CliPath bt);
              workingDir = or_default (no_WorkingDir opts) (bot_WorkingDir bt);
              profile = (if no_CodexProfile opts = [] \<and> cliType = CliCodex
                         then bot_CodexProfile bt else no_CodexProfile opts)
          in case (if cliType = CliCodex then validate profile else Inr profile) of
               Inl e \<Rightarrow> Inl (''invalid Codex profile: '' @ e)
             | Inr profile \<Rightarrow>
                 Inr (zero_meta\<lparr>SessionID := no_SessionID opts, BotID := bot_BotID bt,
                   CliType := cliType, CliPath := cliPath, Model := bot_Model bt,
                   CodexProfile := profile, WorkingDir := workingDir, LastOutput := [],
                   CreatedAt := now, Status := StatusCreated, lastActive := now,
                   outputNotifyCh := Some 0\<rparr>))"

definition alloc_meta :: "SessionMeta \<Rightarrow> Daemon \<Rightarrow> Daemon \<times> mref" where
  "alloc_meta x d = (d\<lparr>metas := (metas d)(nextMeta d := x), nextMeta := Suc (nextMeta d)\<rparr>, nextMeta d)"

text \<open>Lines 275 to 288, under the session's file lock: register the record, persist it.\<close>

definition register_session :: "save_io \<Rightarrow> mref \<Rightarrow> Daemon \<Rightarrow> Daemon \<times> string option" where
  "register_session io m d =
     (if sessions d (sid_of d m) \<noteq> None
      then (d, Some (''session '' @ sid_of d m @ '' already exists''))
      else
        let d = d\<lparr>sessions := (sessions d)(sid_of d m \<mapsto> m)\<rparr>
        in (upd_store (\<lambda>s. save io s (ToPersisted (metas d m))) d, None))"

definition rollbackNewSession :: "string option \<Rightarrow> mref \<Rightarrow> Daemon \<Rightarrow> Daemon" where
  "rollbackNewSession rm m d =
     (if \<not> isCurrentSessionLocked d m then d
      else let sid = sid_of d m; d = d\<lparr>sessions := (sessions d)(sid := None)\<rparr>
           in upd_store (\<lambda>s. remove rm s sid) d)"

text \<open>
  \<open>NewSession\<close>. \<open>env\<close> is what other goroutines do between the registration and the spawn.
  The result is the registered record, or the error. (\<open>OnReady\<close> is the caller's: it waits for
  the worker's \<open>Ready\<close>.)
\<close>

definition NewSession ::
  "(string \<Rightarrow> string + string) \<Rightarrow> spawn_world \<Rightarrow> save_io \<Rightarrow> string option \<Rightarrow> (Daemon \<Rightarrow> Daemon)
     \<Rightarrow> NewSessionOpts \<Rightarrow> Daemon \<Rightarrow> Daemon \<times> (go_err + mref)" where
  "NewSession validate w io rm env opts d =
     (if isClosed d then (d, Inl ErrDaemonClosed)
      else case new_session_meta validate (sw_now w) (cfg d) opts of
        Inl e \<Rightarrow> (d, Inl (Errorf e))
      | Inr meta \<Rightarrow>
          let (d, m) = alloc_meta meta d in
          case register_session io m d of
            (d, Some e) \<Rightarrow> (d, Inl (Errorf e))
          | (d, None) \<Rightarrow>
              (case spawnWorkerForSession w m (env d) of
                 (d, Some e) \<Rightarrow>
                   (if e = ErrDaemonClosed then rollbackNewSession rm m d else d, Inl e)
               | (d, None) \<Rightarrow> (d, Inr m)))"

text \<open>\<open>restoreSessions\<close>, at start: every open persisted session is registered again.\<close>

definition restore_one :: "time \<Rightarrow> Daemon \<Rightarrow> PersistedSession \<Rightarrow> Daemon" where
  "restore_one now d ps =
     (let (d, m) = alloc_meta (SessionMetaFromPersisted now ps) d
      in d\<lparr>sessions := (sessions d)(ps_SessionID ps \<mapsto> m)\<rparr>)"

definition restoreSessions :: "time \<Rightarrow> readdir \<Rightarrow> Daemon \<Rightarrow> Daemon" where
  "restoreSessions now rd d =
     (case store_list (store d) rd of
        Inl e \<Rightarrow> d
      | Inr stored \<Rightarrow> foldl (restore_one now) d stored)"

section \<open>Closing, removing and purging sessions\<close>

text \<open>The two map locks of \<open>markSessionMetaClosed\<close>, then the store, all under the file lock.\<close>

definition markSessionMetaClosed :: "save_io \<Rightarrow> time \<Rightarrow> mref \<Rightarrow> bool \<Rightarrow> Daemon \<Rightarrow> Daemon \<times> href option \<times> bool" where
  "markSessionMetaClosed io now m removeWorker d =
     (if \<not> isCurrentSessionLocked d m then (d, None, False)
      else
        let d = upd_meta m (\<lambda>x. x\<lparr>Closed := True, Status := StatusClosed\<rparr>) d;
            h = (case workers d (sid_of d m) of
                   None \<Rightarrow> None
                 | Some h \<Rightarrow> if \<not> workerOwnedByMetaLocked d h m then None else Some h);
            d = (case h of
                   None \<Rightarrow> d
                 | Some h \<Rightarrow> if removeWorker then fst (deleteWorkerIfCurrentLocked (sid_of d m) h d) else d)
        in (upd_store (\<lambda>s. MarkClosed io now s (sid_of d m)) d, h, True))"

definition removeSessionMeta :: "save_io \<Rightarrow> time \<Rightarrow> mref \<Rightarrow> Daemon \<Rightarrow> Daemon" where
  "removeSessionMeta io now m d =
     (case markSessionMetaClosed io now m True d of
        (d, h, closed) \<Rightarrow>
          if \<not> closed then d
          else run_on_close m (case h of None \<Rightarrow> d | Some h \<Rightarrow> close_handle h d))"

definition removeSession :: "save_io \<Rightarrow> time \<Rightarrow> string \<Rightarrow> Daemon \<Rightarrow> Daemon" where
  "removeSession io now i d = (case sessions d i of None \<Rightarrow> d | Some m \<Rightarrow> removeSessionMeta io now m d)"

definition PurgeSession :: "string option \<Rightarrow> string \<Rightarrow> Daemon \<Rightarrow> Daemon" where
  "PurgeSession rm i d =
     (let ho = workers d i;
          d = (case ho of None \<Rightarrow> d | Some h \<Rightarrow> fst (deleteWorkerIfCurrentLocked i h d));
          d = d\<lparr>sessions := (sessions d)(i := None)\<rparr>;
          d = upd_store (\<lambda>s. remove rm s i) d
      in case ho of None \<Rightarrow> d | Some h \<Rightarrow> kill_process h (close_handle h d))"

text \<open>
  \<open>closeSessionMeta\<close>: the worker is asked to close and killed two seconds later; the kill
  (\<open>time.AfterFunc\<close>) is \<open>kill_process\<close> at that time.
\<close>

definition closeSessionMeta :: "save_io \<Rightarrow> string option \<Rightarrow> time \<Rightarrow> mref \<Rightarrow> string \<Rightarrow> Daemon \<Rightarrow> Daemon" where
  "closeSessionMeta io wr now m reason d =
     (case markSessionMetaClosed io now m False d of
        (d, h, closed) \<Rightarrow>
          if \<not> closed then d
          else (case h of
                  None \<Rightarrow> d
                | Some h \<Rightarrow> fst (send_handle wr h (NewMessage now MsgClose (sid_of d m) reason) d)))"

definition CloseSession :: "save_io \<Rightarrow> string option \<Rightarrow> time \<Rightarrow> string \<Rightarrow> string \<Rightarrow> Daemon \<Rightarrow> Daemon" where
  "CloseSession io wr now i reason d =
     (case sessions d i of None \<Rightarrow> d | Some m \<Rightarrow> closeSessionMeta io wr now m reason d)"

end
