(* ===== verification/Daemon_Turns.thy ===== *)
theory Daemon_Turns
  imports Daemon_Lifecycle
begin

text \<open>
  Turns in the daemon (\<open>daemon.go\<close>): admitting input, cancelling the turn in progress, the
  watchdog that fails a cancelled turn and restarts its worker, and the restart itself. Where a
  handler blocks (waiting for \<open>Ready\<close>, writing to a worker's socket) other goroutines run: the
  argument \<open>env\<close> is what they do meanwhile, any function on the daemon state; in a loop
  \<open>env\<close>, \<open>wr\<close> and \<open>now\<close> depend on the attempt.
\<close>

definition defaultCancelTurnTimeout :: duration where "defaultCancelTurnTimeout = 10 * Second"
definition defaultRestartWorkerGrace :: duration where "defaultRestartWorkerGrace = 2 * Second"
definition maxCurrentWorkerSendTries :: nat where "maxCurrentWorkerSendTries = 3"
definition workerReadyAckPayload :: string where "workerReadyAckPayload = ''worker_ready''"

definition cancelTurnTimeout :: "duration \<Rightarrow> duration" where
  "cancelTurnTimeout configured = (if configured \<noteq> 0 then configured else defaultCancelTurnTimeout)"

definition workerRestartGrace :: "duration \<Rightarrow> duration" where
  "workerRestartGrace configured = (if configured \<noteq> 0 then configured else defaultRestartWorkerGrace)"

section \<open>Admitting a turn\<close>

definition status_clause :: "SessionStatus \<Rightarrow> string" where
  "status_clause st = '' (status='' @ status_string st @ '')''"

definition beginCodexTurnIfReady :: "mref \<Rightarrow> Daemon \<Rightarrow> Daemon \<times> string option" where
  "beginCodexTurnIfReady m d =
     (let sid = sid_of d m in
      if \<not> isCurrentSessionLocked d m then (d, Some (''session '' @ sid @ '' not found''))
      else if Closed (metas d m) then (d, Some (''session '' @ sid @ '' is closed''))
      else if Status (metas d m) \<noteq> StatusReady
        then (d, Some (''session '' @ sid @ '' is not ready'' @ status_clause (Status (metas d m))))
      else
        let (x, ok) = BeginTurn (metas d m) in
        if \<not> ok then (d, Some (''session '' @ sid @ '' already has an active turn''))
        else (upd_meta m (\<lambda>_. x) d, None))"

text \<open>Lines 706 to 726 of \<open>SendInput\<close>, after the worker is ready.\<close>

definition send_input_ready :: "save_io \<Rightarrow> string option \<Rightarrow> time \<Rightarrow> mref \<Rightarrow> href \<Rightarrow> string \<Rightarrow> string \<Rightarrow> Daemon \<Rightarrow> Daemon \<times> string option" where
  "send_input_ready io wr now m h i input d =
     (case (if CliType (metas d m) = CliCodex then beginCodexTurnIfReady m d else (d, None)) of
        (d, Some e) \<Rightarrow> (d, Some e)
      | (d, None) \<Rightarrow>
          let userLine = ''[user] '' @ input;
              d = upd_meta m (\<lambda>x. touchActive x now) d;
              d = upd_meta m (\<lambda>x. AddOutput x userLine) d;
              d = persistCurrentSession m (\<lambda>s. UpdateOutput io now s (sid_of d m) userLine) d
          in case send_handle wr h (NewMessage now MsgUserInput i input) d of
               (d, Some e) \<Rightarrow> (upd_meta m FinishTurn d, Some e)
             | (d, None) \<Rightarrow> (d, None))"

definition SendInput :: "save_io \<Rightarrow> string option \<Rightarrow> time \<Rightarrow> (Daemon \<Rightarrow> Daemon) \<Rightarrow> string \<Rightarrow> string \<Rightarrow> Daemon \<Rightarrow> Daemon \<times> string option" where
  "SendInput io wr now env i input d =
     (case sessions d i of
        None \<Rightarrow> (d, Some (''session '' @ i @ '' not found''))
      | Some m \<Rightarrow>
          if Closed (metas d m) then (d, Some (''session '' @ i @ '' is closed''))
          else case workers d i of
            None \<Rightarrow> (d, Some (''session '' @ i @ '' has no worker'' @ status_clause (Status (metas d m))))
          | Some h \<Rightarrow>
              let d = env d in
              if \<not> isReady (handles d h)
              then (d, Some (''session '' @ i @ '' worker not connected'' @ status_clause (Status (metas d m))))
              else send_input_ready io wr now m h i input d)"

section \<open>Cancelling a turn\<close>

definition beginTurnCancelIfCurrentLocked :: "mref \<Rightarrow> Daemon \<Rightarrow> Daemon \<times> u64 \<times> bool" where
  "beginTurnCancelIfCurrentLocked m d =
     (if \<not> isCurrentSessionLocked d m \<or> Closed (metas d m) \<or> CliType (metas d m) \<noteq> CliCodex
      then (d, 0, False)
      else let (x, tok, ok) = BeginTurnCancel (metas d m) in (upd_meta m (\<lambda>_. x) d, tok, ok))"

definition beginTurnCancelIfCurrent :: "mref \<Rightarrow> Daemon \<Rightarrow> Daemon \<times> u64 \<times> bool" where
  "beginTurnCancelIfCurrent m d = beginTurnCancelIfCurrentLocked m d"

text \<open>
  \<open>CancelTurnMeta\<close>, which takes its locks three times: for the checks of the record, for those of
  the worker, and to begin the cancellation; \<open>env 0\<close> and \<open>env 1\<close> are what other goroutines do in
  between, \<open>env 2\<close> what they do before a refused begin is explained. On success it returns the
  token it started the two goroutines \<open>watchCancelledTurn\<close> and \<open>sendCancelToCurrentWorker\<close> with.
\<close>

definition CancelTurnMeta :: "(nat \<Rightarrow> Daemon \<Rightarrow> Daemon) \<Rightarrow> mref \<Rightarrow> Daemon \<Rightarrow> Daemon \<times> (string + u64)" where
  "CancelTurnMeta env m d =
     (let sid = sid_of d m in
      if \<not> isCurrentSessionLocked d m then (d, Inl (''session '' @ sid @ '' is no longer current''))
      else if Closed (metas d m) then (d, Inl (''session '' @ sid @ '' is closed''))
      else if CliType (metas d m) \<noteq> CliCodex then (d, Inl (''session '' @ sid @ '' does not use Codex''))
      else
        let d = env 0 d; ready = hasReadyCurrentWorkerForSession d m; d = env 1 d in
        if \<not> ready then
          (if \<not> isCurrentSession d m then (d, Inl (''session '' @ sid @ '' is no longer current''))
           else (d, Inl (''session '' @ sid @ '' has no ready worker'')))
        else case beginTurnCancelIfCurrent m d of
          (d, tok, ok) \<Rightarrow>
            if \<not> ok then
              let d = env 2 d in
              (if \<not> isCurrentSession d m then (d, Inl (''session '' @ sid @ '' is no longer current''))
               else (d, Inl (''session '' @ sid @ '' has no cancellable active turn'')))
            else (d, Inr tok))"

definition CancelTurn :: "(nat \<Rightarrow> Daemon \<Rightarrow> Daemon) \<Rightarrow> string \<Rightarrow> Daemon \<Rightarrow> Daemon \<times> (string + u64)" where
  "CancelTurn env i d =
     (case sessions d i of
        None \<Rightarrow> (d, Inl (''session '' @ i @ '' not found''))
      | Some m \<Rightarrow> CancelTurnMeta (\<lambda>k. env (Suc k)) m (env 0 d))"

definition cancel_timeout_terminal :: TurnTerminal where
  "cancel_timeout_terminal =
     failed_terminal ''codex_cancel_timeout'' ''Codex did not report turn_aborted after cancellation''"

text \<open>
  The critical section of \<open>watchCancelledTurn\<close>, when its timer fires: fail the turn if it is
  still the one being cancelled, and fence the current worker generation against a late READY.
  The result says whether a restart follows.
\<close>

definition watch_section :: "mref \<Rightarrow> u64 \<Rightarrow> Daemon \<Rightarrow> Daemon \<times> bool" where
  "watch_section m token d =
     (let handle = workers d (sid_of d m);
          (x, restart) = (if isCurrentSessionLocked d m \<and> \<not> Closed (metas d m)
                          then FailCancellingTurn (metas d m) token cancel_timeout_terminal
                          else (metas d m, False));
          d = upd_meta m (\<lambda>_. x) d
      in if restart then
           let d = set_status m StatusRecovering d
           in (case handle of
                 None \<Rightarrow> d
               | Some h \<Rightarrow> d\<lparr>pendingRestart := (pendingRestart d)(m \<mapsto> h)\<rparr>, True)
         else (d, False))"

definition finishCancelWithFailure :: "mref \<Rightarrow> u64 \<Rightarrow> string \<Rightarrow> string \<Rightarrow> Daemon \<Rightarrow> Daemon \<times> bool" where
  "finishCancelWithFailure m token errorCode errorDetail d =
     (if \<not> isCurrentSessionLocked d m then (d, False)
      else let (x, ok) = FailCancellingTurn (metas d m) token (failed_terminal errorCode errorDetail)
           in (upd_meta m (\<lambda>_. x) d, ok))"

datatype cancelSendFailureResult =
    cancelSendFailureCommitted | cancelSendFailureRetry | cancelSendFailureStaleSession
  | cancelSendFailureNoLongerCancelling

definition commitCancelSendFailureIfCurrent ::
  "mref \<Rightarrow> u64 \<Rightarrow> href option \<Rightarrow> string \<Rightarrow> Daemon \<Rightarrow> Daemon \<times> cancelSendFailureResult" where
  "commitCancelSendFailureIfCurrent m token handle err d =
     (if workers d (sid_of d m) \<noteq> handle then (d, cancelSendFailureRetry)
      else if \<not> isCurrentSessionLocked d m then (d, cancelSendFailureStaleSession)
      else
        let (x, committed) = FailCancellingTurn (metas d m) token (failed_terminal ''codex_cancel_failed'' err);
            d = upd_meta m (\<lambda>_. x) d
        in if \<not> committed then (d, cancelSendFailureNoLongerCancelling)
           else (d, cancelSendFailureCommitted))"

text \<open>
  The loop of \<open>sendCancelToCurrentWorker\<close>; \<open>n\<close> attempts remain. \<open>env k\<close> runs while attempt
  \<open>k\<close> writes, \<open>wr k\<close> is how that write ends.
\<close>

fun cancel_send_loop ::
  "(nat \<Rightarrow> Daemon \<Rightarrow> Daemon) \<Rightarrow> (nat \<Rightarrow> string option) \<Rightarrow> (nat \<Rightarrow> time) \<Rightarrow> mref \<Rightarrow> u64
     \<Rightarrow> nat \<Rightarrow> string \<Rightarrow> Daemon \<Rightarrow> Daemon \<times> string option" where
  "cancel_send_loop env wr now m token 0 lastErr d =
     (d, Some (''session '' @ sid_of d m @ '' worker changed while sending cancel_turn after 3 attempts: '' @ lastErr))"
| "cancel_send_loop env wr now m token (Suc n) lastErr d =
     (let k = maxCurrentWorkerSendTries - Suc n;
          sid = sid_of d m;
          snapshot = TurnSnapshot_of (metas d m)
      in if \<not> ts_Active snapshot \<or> \<not> ts_Cancelling snapshot \<or> ts_Token snapshot \<noteq> token
         then (d, Some (''session '' @ sid @ '' cancellation is no longer active''))
         else
           let (handle, current) = currentWorkerForSession d m in
           if \<not> current then (d, Some (''session '' @ sid @ '' is no longer current''))
           else
             let (d, err) =
               (case handle of
                  None \<Rightarrow> (d, Some (''session '' @ sid @ '' has no ready worker''))
                | Some h \<Rightarrow>
                    if \<not> IsReady (handles d h) then (d, Some (''session '' @ sid @ '' has no ready worker''))
                    else let (d', e) = send_handle (wr k) h (NewMessage (now k) MsgCancelTurn sid []) d
                         in (env k d', e))
             in case err of
                  Some e \<Rightarrow>
                    (case commitCancelSendFailureIfCurrent m token handle e d of
                       (d, cancelSendFailureCommitted) \<Rightarrow> (d, Some e)
                     | (d, cancelSendFailureRetry) \<Rightarrow> cancel_send_loop env wr now m token n e d
                     | (d, cancelSendFailureStaleSession) \<Rightarrow>
                         (d, Some (''session '' @ sid @ '' is no longer current''))
                     | (d, cancelSendFailureNoLongerCancelling) \<Rightarrow>
                         (d, Some (''session '' @ sid @ '' cancellation is no longer active'')))
                | None \<Rightarrow>
                    if isCurrentWorkerForSession d m handle then (d, None)
                    else if \<not> isCurrentSession d m
                         then (d, Some (''session '' @ sid @ '' is no longer current''))
                    else cancel_send_loop env wr now m token n
                           ''worker generation changed while sending cancel_turn'' d)"

definition sendCancelToCurrentWorker ::
  "(nat \<Rightarrow> Daemon \<Rightarrow> Daemon) \<Rightarrow> (nat \<Rightarrow> string option) \<Rightarrow> (nat \<Rightarrow> time) \<Rightarrow> mref \<Rightarrow> u64 \<Rightarrow> Daemon \<Rightarrow> Daemon \<times> string option" where
  "sendCancelToCurrentWorker env wr now m token d =
     cancel_send_loop env wr now m token maxCurrentWorkerSendTries [] d"

text \<open>The second goroutine of \<open>CancelTurnMeta\<close> (lines 772 to 777).\<close>

definition deliver_cancel ::
  "(nat \<Rightarrow> Daemon \<Rightarrow> Daemon) \<Rightarrow> (nat \<Rightarrow> string option) \<Rightarrow> (nat \<Rightarrow> time) \<Rightarrow> mref \<Rightarrow> u64 \<Rightarrow> Daemon \<Rightarrow> Daemon" where
  "deliver_cancel env wr now m token d =
     (case sendCancelToCurrentWorker env wr now m token d of
        (d, None) \<Rightarrow> d
      | (d, Some e) \<Rightarrow> fst (finishCancelWithFailure m token ''codex_cancel_failed'' e d))"

section \<open>Sending to the current worker generation\<close>

fun send_current_loop ::
  "(nat \<Rightarrow> Daemon \<Rightarrow> Daemon) \<Rightarrow> (nat \<Rightarrow> string option) \<Rightarrow> (nat \<Rightarrow> time) \<Rightarrow> (Daemon \<Rightarrow> bool) option
     \<Rightarrow> mref \<Rightarrow> MessageType \<Rightarrow> string \<Rightarrow> nat \<Rightarrow> string \<Rightarrow> Daemon \<Rightarrow> Daemon \<times> (string + href)" where
  "send_current_loop env wr now stillRelevant m typ payload 0 lastErr d =
     (d, Inl (''session '' @ sid_of d m @ '' worker changed while sending '' @ typ @ '' after 3 attempts: '' @ lastErr))"
| "send_current_loop env wr now stillRelevant m typ payload (Suc n) lastErr d =
     (let k = maxCurrentWorkerSendTries - Suc n; sid = sid_of d m in
      if \<not> isCurrentSession d m then (d, Inl (''session '' @ sid @ '' is no longer current''))
      else if (case stillRelevant of None \<Rightarrow> False | Some f \<Rightarrow> \<not> f d)
        then (d, Inl (''session '' @ sid @ '' operation is no longer active''))
      else
        let (handle, current) = currentWorkerForSession d m in
        if \<not> current then (d, Inl (''session '' @ sid @ '' is no longer current''))
        else case handle of
          None \<Rightarrow> (d, Inl (''session '' @ sid @ '' has no ready worker''))
        | Some h \<Rightarrow>
            if \<not> IsReady (handles d h) then (d, Inl (''session '' @ sid @ '' has no ready worker''))
            else
              let (d, err) = send_handle (wr k) h (NewMessage (now k) typ sid payload) d;
                  d = env k d
              in if isCurrentWorkerForSession d m (Some h)
                 then (case err of Some e \<Rightarrow> (d, Inl e) | None \<Rightarrow> (d, Inr h))
                 else send_current_loop env wr now stillRelevant m typ payload n
                        (case err of Some e \<Rightarrow> e
                         | None \<Rightarrow> ''worker generation changed while sending '' @ typ) d)"

definition sendToCurrentWorker ::
  "(nat \<Rightarrow> Daemon \<Rightarrow> Daemon) \<Rightarrow> (nat \<Rightarrow> string option) \<Rightarrow> (nat \<Rightarrow> time) \<Rightarrow> (Daemon \<Rightarrow> bool) option
     \<Rightarrow> mref \<Rightarrow> MessageType \<Rightarrow> string \<Rightarrow> Daemon \<Rightarrow> Daemon \<times> (string + href)" where
  "sendToCurrentWorker env wr now stillRelevant m typ payload d =
     send_current_loop env wr now stillRelevant m typ payload maxCurrentWorkerSendTries [] d"

section \<open>Restarting the worker of a session\<close>

definition markCurrentWorkerRestartPending :: "mref \<Rightarrow> Daemon \<Rightarrow> Daemon \<times> href option \<times> bool" where
  "markCurrentWorkerRestartPending m d =
     (let handle = workers d (sid_of d m) in
      if \<not> isCurrentSessionLocked d m \<or> Closed (metas d m) then (d, None, False)
      else
        let d = set_status m StatusRecovering d;
            d = (case handle of
                   None \<Rightarrow> d
                 | Some h \<Rightarrow> d\<lparr>pendingRestart := (pendingRestart d)(m \<mapsto> h)\<rparr>)
        in (d, handle, True))"

text \<open>
  The goroutine of \<open>restartWorkerAfterGrace\<close>, when its grace period has passed before the
  worker's exit and before the daemon's.
\<close>

definition restart_grace_over :: "mref \<Rightarrow> href \<Rightarrow> Daemon \<Rightarrow> Daemon" where
  "restart_grace_over m h d =
     (if \<not> isCurrentWorkerForSession d m (Some h) then d else kill_process h d)"

text \<open>
  \<open>restartWorkerForSession\<close>; the result lists the generations whose forced kill it scheduled,
  each once.
\<close>

fun restart_loop ::
  "(nat \<Rightarrow> Daemon \<Rightarrow> Daemon) \<Rightarrow> (nat \<Rightarrow> string option) \<Rightarrow> (nat \<Rightarrow> time) \<Rightarrow> mref \<Rightarrow> nat \<Rightarrow> href list
     \<Rightarrow> Daemon \<Rightarrow> Daemon \<times> href list" where
  "restart_loop env wr now m 0 scheduled d = (d, scheduled)"
| "restart_loop env wr now m (Suc n) scheduled d =
     (let k = maxCurrentWorkerSendTries - Suc n;
          (d, handle, current) = markCurrentWorkerRestartPending m d
      in if \<not> current then (d, scheduled)
         else case handle of
           None \<Rightarrow> (d, scheduled)
         | Some h \<Rightarrow>
             if \<not> IsReady (handles d h) then (d, scheduled)
             else
               let scheduled = (if h \<notin> set scheduled then scheduled @ [h] else scheduled);
                   (d, err) = send_handle (wr k) h (NewMessage (now k) MsgRestartWorker (sid_of d m) []) d;
                   d = env k d
               in if isCurrentWorkerForSession d m (Some h) then (d, scheduled)
                  else restart_loop env wr now m n scheduled d)"

definition restartWorkerForSession ::
  "(nat \<Rightarrow> Daemon \<Rightarrow> Daemon) \<Rightarrow> (nat \<Rightarrow> string option) \<Rightarrow> (nat \<Rightarrow> time) \<Rightarrow> mref \<Rightarrow> Daemon \<Rightarrow> Daemon \<times> href list" where
  "restartWorkerForSession env wr now m d = restart_loop env wr now m maxCurrentWorkerSendTries [] d"

definition watchCancelledTurn ::
  "(nat \<Rightarrow> Daemon \<Rightarrow> Daemon) \<Rightarrow> (nat \<Rightarrow> string option) \<Rightarrow> (nat \<Rightarrow> time) \<Rightarrow> mref \<Rightarrow> u64 \<Rightarrow> Daemon \<Rightarrow> Daemon \<times> href list" where
  "watchCancelledTurn env wr now m token d =
     (case watch_section m token d of
        (d, restart) \<Rightarrow> if restart then restartWorkerForSession env wr now m d else (d, []))"

end
