(* ===== verification/Json.thy ===== *)
theory Json
  imports Go_Strings
begin

text \<open>
  The part of Go's \<open>encoding/json\<close> that the program uses: values, \<open>json.Marshal\<close>'s text of
  them (compact, with the default HTML escaping and \<open>\ufffd\<close> for invalid UTF-8), and
  \<open>json.Unmarshal\<close>'s reading. Numbers stay literals, as in \<open>json.Number\<close>, until a field
  converts them. The parser recurses with fuel; the length of the text is enough. (Go's nesting
  limit of 10000 is not modelled.)
\<close>

datatype json = JNull | JBool bool | JNum string | JStr string | JArr "json list"
  | JObj "(string \<times> json) list"

section \<open>UTF-8 encoding\<close>

definition enc_byte :: "nat \<Rightarrow> char" where "enc_byte n = char_of n"

text \<open>\<open>utf8.EncodeRune\<close>: surrogates and values out of range encode as \<open>RuneError\<close>.\<close>

definition EncodeRune :: "nat \<Rightarrow> string" where
  "EncodeRune r0 =
     (let r = (if (0xD800 \<le> r0 \<and> r0 \<le> 0xDFFF) \<or> 0x10FFFF < r0 then RuneError else r0) in
      if r < 0x80 then [enc_byte r]
      else if r < 0x800 then [enc_byte (0xC0 + r div 64), enc_byte (0x80 + r mod 64)]
      else if r < 0x10000 then
        [enc_byte (0xE0 + r div 4096), enc_byte (0x80 + r div 64 mod 64), enc_byte (0x80 + r mod 64)]
      else [enc_byte (0xF0 + r div 262144), enc_byte (0x80 + r div 4096 mod 64),
            enc_byte (0x80 + r div 64 mod 64), enc_byte (0x80 + r mod 64)])"

section \<open>Strings\<close>

definition hex_char :: "nat \<Rightarrow> char" where
  "hex_char n = (if n < 10 then char_of (48 + n) else char_of (87 + n))"

definition hex_val :: "char \<Rightarrow> nat option" where
  "hex_val c =
     (let b = byte c in
      if 48 \<le> b \<and> b \<le> 57 then Some (b - 48)
      else if 97 \<le> b \<and> b \<le> 102 then Some (b - 87)
      else if 65 \<le> b \<and> b \<le> 70 then Some (b - 55)
      else None)"

definition escape_ascii :: "char \<Rightarrow> string" where
  "escape_ascii c =
     (let b = byte c in
      if b = 0x22 \<or> b = 0x5C then [CHR 0x5C, c]
      else if b = 8 then [CHR 0x5C, CHR ''b'']
      else if b = 12 then [CHR 0x5C, CHR ''f'']
      else if b = 10 then [CHR 0x5C, CHR ''n'']
      else if b = 13 then [CHR 0x5C, CHR ''r'']
      else if b = 9 then [CHR 0x5C, CHR ''t'']
      else if b < 0x20 \<or> b = 0x3C \<or> b = 0x3E \<or> b = 0x26
        then [CHR 0x5C, CHR ''u'', CHR ''0'', CHR ''0'', hex_char (b div 16), hex_char (b mod 16)]
      else [c])"

definition escape_rune :: "nat \<Rightarrow> string \<Rightarrow> string" where
  "escape_rune r bytes =
     (if r = RuneError \<and> length bytes = 1
      then [CHR 0x5C, CHR ''u'', CHR ''f'', CHR ''f'', CHR ''f'', CHR ''d'']
      else if r = 0x2028 \<or> r = 0x2029
      then [CHR 0x5C, CHR ''u'', CHR ''2'', CHR ''0'', CHR ''2'', hex_char (r mod 16)]
      else bytes)"

fun quote_chars :: "string \<Rightarrow> string" where
  "quote_chars [] = []"
| "quote_chars (c # cs) =
     (if byte c < 0x80 then escape_ascii c @ quote_chars cs
      else let (r, n) = DecodeRune (c # cs)
           in escape_rune r (take n (c # cs)) @ quote_chars (drop (n - 1) cs))"

definition json_quote :: "string \<Rightarrow> string" where
  "json_quote s = CHR 0x22 # quote_chars s @ [CHR 0x22]"

text \<open>What a string becomes on its way through JSON: each invalid byte is replaced.\<close>

fun coerce_utf8 :: "string \<Rightarrow> string" where
  "coerce_utf8 [] = []"
| "coerce_utf8 (c # cs) =
     (if byte c < 0x80 then c # coerce_utf8 cs
      else let (r, n) = DecodeRune (c # cs) in EncodeRune r @ coerce_utf8 (drop (n - 1) cs))"

definition hex4 :: "string \<Rightarrow> nat option" where
  "hex4 s =
     (case s of a # b # c # d # _ \<Rightarrow>
        (case (hex_val a, hex_val b, hex_val c, hex_val d) of
           (Some w, Some x, Some y, Some z) \<Rightarrow> Some (((w * 16 + x) * 16 + y) * 16 + z)
         | _ \<Rightarrow> None)
      | _ \<Rightarrow> None)"

definition simple_escape :: "char \<Rightarrow> char option" where
  "simple_escape c =
     (if c = CHR 0x22 \<or> c = CHR 0x5C \<or> c = CHR ''/'' then Some c
      else if c = CHR ''b'' then Some (CHR 0x08) else if c = CHR ''f'' then Some (CHR 0x0C)
      else if c = CHR ''n'' then Some (CHR 0x0A) else if c = CHR ''r'' then Some (CHR 0x0D)
      else if c = CHR ''t'' then Some (CHR 0x09) else None)"

text \<open>
  A \<open>\u\<close> escape whose first code unit is \<open>u\<close>, followed by \<open>rest\<close>: the rune and how many
  further bytes it takes (six when a low surrogate completes a pair).
\<close>

definition unescape_unit :: "nat \<Rightarrow> string \<Rightarrow> nat \<times> nat" where
  "unescape_unit u rest =
     (if 0xD800 \<le> u \<and> u \<le> 0xDFFF then
        (case rest of b # x # more \<Rightarrow>
           (if b = CHR 0x5C \<and> x = CHR ''u'' then
              (case hex4 more of
                 Some v \<Rightarrow> if u < 0xDC00 \<and> 0xDC00 \<le> v \<and> v \<le> 0xDFFF
                           then ((u - 0xD800) * 1024 + (v - 0xDC00) + 0x10000, 6) else (RuneError, 0)
               | None \<Rightarrow> (RuneError, 0))
            else (RuneError, 0))
         | _ \<Rightarrow> (RuneError, 0))
      else (u, 0))"

fun parse_chars :: "string \<Rightarrow> (string \<times> string) option" where
  "parse_chars [] = None"
| "parse_chars (c # cs) =
     (if c = CHR 0x22 then Some ([], cs)
      else if c = CHR 0x5C then
        (case cs of
           [] \<Rightarrow> None
         | e # es \<Rightarrow>
             if e = CHR ''u'' then
               (case hex4 es of
                  None \<Rightarrow> None
                | Some u \<Rightarrow>
                    let (r, k) = unescape_unit u (drop 4 es)
                    in map_option (\<lambda>(a, rest). (EncodeRune r @ a, rest)) (parse_chars (drop (4 + k) es)))
             else
               (case simple_escape e of
                  None \<Rightarrow> None
                | Some x \<Rightarrow> map_option (\<lambda>(a, rest). (x # a, rest)) (parse_chars es)))
      else if byte c < 0x20 then None
      else if byte c < 0x80 then map_option (\<lambda>(a, rest). (c # a, rest)) (parse_chars cs)
      else let (r, n) = DecodeRune (c # cs)
           in map_option (\<lambda>(a, rest). (EncodeRune r @ a, rest)) (parse_chars (drop (n - 1) cs)))"

section \<open>Numbers\<close>

definition num_int :: "string \<Rightarrow> (string \<times> string) option" where
  "num_int s =
     (case s of
        [] \<Rightarrow> None
      | c # cs \<Rightarrow> if c = CHR ''0'' then Some ([c], cs)
                  else if is_digit c then Some (takeWhile is_digit s, dropWhile is_digit s)
                  else None)"

definition num_frac :: "string \<Rightarrow> (string \<times> string) option" where
  "num_frac s =
     (case s of
        [] \<Rightarrow> Some ([], s)
      | c # cs \<Rightarrow> if c \<noteq> CHR ''.'' then Some ([], s)
                  else if takeWhile is_digit cs = [] then None
                  else Some (c # takeWhile is_digit cs, dropWhile is_digit cs))"

definition num_exp :: "string \<Rightarrow> (string \<times> string) option" where
  "num_exp s =
     (case s of
        [] \<Rightarrow> Some ([], s)
      | c # cs \<Rightarrow>
          if c \<noteq> CHR ''e'' \<and> c \<noteq> CHR ''E'' then Some ([], s)
          else let (sign, ds) = (case cs of
                     [] \<Rightarrow> ([], cs)
                   | x # xs \<Rightarrow> if x = CHR ''+'' \<or> x = CHR ''-'' then ([x], xs) else ([], cs))
               in if takeWhile is_digit ds = [] then None
                  else Some (c # sign @ takeWhile is_digit ds, dropWhile is_digit ds))"

definition parse_num :: "string \<Rightarrow> (string \<times> string) option" where
  "parse_num s =
     (let (sign, s1) = (if s \<noteq> [] \<and> hd s = CHR ''-'' then ([CHR ''-''], tl s) else ([], s)) in
      case num_int s1 of None \<Rightarrow> None
      | Some (i, s2) \<Rightarrow>
          (case num_frac s2 of None \<Rightarrow> None
           | Some (f, s3) \<Rightarrow>
               (case num_exp s3 of None \<Rightarrow> None
                | Some (x, s4) \<Rightarrow> Some (sign @ i @ f @ x, s4))))"

section \<open>Values\<close>

definition is_ws :: "char \<Rightarrow> bool" where
  "is_ws c = (c = CHR '' '' \<or> c = CHR 0x09 \<or> c = CHR 0x0A \<or> c = CHR 0x0D)"

definition skip_ws :: "string \<Rightarrow> string" where "skip_ws s = dropWhile is_ws s"

definition parse_lit :: "string \<Rightarrow> json \<Rightarrow> string \<Rightarrow> (json \<times> string) option" where
  "parse_lit lit v s = (if prefix lit s then Some (v, drop (length lit) s) else None)"

fun parse_value :: "nat \<Rightarrow> string \<Rightarrow> (json \<times> string) option"
  and parse_elems :: "nat \<Rightarrow> string \<Rightarrow> (json list \<times> string) option"
  and parse_members :: "nat \<Rightarrow> string \<Rightarrow> ((string \<times> json) list \<times> string) option" where
  "parse_value 0 s = None"
| "parse_value (Suc n) s =
     (case s of
        [] \<Rightarrow> None
      | c # cs \<Rightarrow>
          if c = CHR 0x22 then map_option (\<lambda>(a, rest). (JStr a, rest)) (parse_chars cs)
          else if c = CHR ''{'' then
            (case skip_ws cs of
               [] \<Rightarrow> None
             | d # ds \<Rightarrow> if d = CHR ''}'' then Some (JObj [], ds)
                         else map_option (\<lambda>(a, rest). (JObj a, rest)) (parse_members n (d # ds)))
          else if c = CHR ''['' then
            (case skip_ws cs of
               [] \<Rightarrow> None
             | d # ds \<Rightarrow> if d = CHR '']'' then Some (JArr [], ds)
                         else map_option (\<lambda>(a, rest). (JArr a, rest)) (parse_elems n (d # ds)))
          else if c = CHR ''t'' then parse_lit ''true'' (JBool True) s
          else if c = CHR ''f'' then parse_lit ''false'' (JBool False) s
          else if c = CHR ''n'' then parse_lit ''null'' JNull s
          else map_option (\<lambda>(a, rest). (JNum a, rest)) (parse_num s))"
| "parse_elems 0 s = None"
| "parse_elems (Suc n) s =
     (case parse_value n s of
        None \<Rightarrow> None
      | Some (v, r) \<Rightarrow>
          (case skip_ws r of
             [] \<Rightarrow> None
           | c # cs \<Rightarrow> if c = CHR '']'' then Some ([v], cs)
                       else if c = CHR '','' then
                         map_option (\<lambda>(vs, rest). (v # vs, rest)) (parse_elems n (skip_ws cs))
                       else None))"
| "parse_members 0 s = None"
| "parse_members (Suc n) s =
     (case s of
        [] \<Rightarrow> None
      | q # qs \<Rightarrow>
          if q \<noteq> CHR 0x22 then None
          else case parse_chars qs of
            None \<Rightarrow> None
          | Some (k, r) \<Rightarrow>
              (case skip_ws r of
                 [] \<Rightarrow> None
               | c # cs \<Rightarrow>
                   if c \<noteq> CHR '':'' then None
                   else case parse_value n (skip_ws cs) of
                     None \<Rightarrow> None
                   | Some (v, r') \<Rightarrow>
                       (case skip_ws r' of
                          [] \<Rightarrow> None
                        | d # ds \<Rightarrow>
                            if d = CHR ''}'' then Some ([(k, v)], ds)
                            else if d = CHR '','' then
                              map_option (\<lambda>(ms, rest). ((k, v) # ms, rest)) (parse_members n (skip_ws ds))
                            else None)))"

text \<open>A whole text: one value, white space around it.\<close>

definition json_parse :: "string \<Rightarrow> json option" where
  "json_parse s =
     (case parse_value (Suc (length s)) (skip_ws s) of
        None \<Rightarrow> None
      | Some (v, r) \<Rightarrow> if skip_ws r = [] then Some v else None)"

fun json_encode :: "json \<Rightarrow> string"
  and encode_elems :: "json list \<Rightarrow> string"
  and encode_members :: "(string \<times> json) list \<Rightarrow> string" where
  "json_encode JNull = ''null''"
| "json_encode (JBool b) = (if b then ''true'' else ''false'')"
| "json_encode (JNum l) = l"
| "json_encode (JStr s) = json_quote s"
| "json_encode (JArr vs) = CHR ''['' # encode_elems vs @ '']''"
| "json_encode (JObj ms) = CHR ''{'' # encode_members ms @ ''}''"
| "encode_elems [] = []"
| "encode_elems (v # vs) = json_encode v @ (if vs = [] then [] else CHR '','' # encode_elems vs)"
| "encode_members [] = []"
| "encode_members ((k, v) # ms) =
     json_quote k @ CHR '':'' # json_encode v @ (if ms = [] then [] else CHR '','' # encode_members ms)"

section \<open>Quoting round trip\<close>

lemma byte_char_of [simp]: "n < 256 \<Longrightarrow> byte (char_of n) = n"
  by (simp add: byte_def)

lemma char_of_byte [simp]: "char_of (byte c) = c"
  by (simp add: byte_def)

lemma enc_byte_eq: "n = byte c \<Longrightarrow> enc_byte n = c"
  by (simp add: enc_byte_def)

lemma hex_val_char [simp]: "n < 16 \<Longrightarrow> hex_val (hex_char n) = Some n"
  by (simp add: hex_val_def hex_char_def Let_def)

lemma cont_range: "is_cont c \<Longrightarrow> 0x80 \<le> byte c \<and> byte c \<le> 0xBF"
  by (simp add: is_cont_def)

text \<open>A decoded rune, unless it is an invalid byte, encodes to the bytes it was read from.\<close>

lemma base64:
  fixes a q :: nat
  assumes "q < 64"
  shows "(a * 64 + q) div 64 = a" "(a * 64 + q) mod 64 = q"
  using assms by simp_all

lemma encode2:
  assumes "0xC2 \<le> b" "b \<le> 0xDF" "0x80 \<le> x" "x \<le> 0xBF"
  shows "EncodeRune ((b - 0xC0) * 64 + (x - 0x80)) = [enc_byte b, enc_byte x]"
proof -
  define p q where "p = b - 0xC0" and "q = x - 0x80"
  let ?r = "p * 64 + q"
  have lt: "2 \<le> p" "p < 32" "q < 64" and b: "b = 0xC0 + p" "x = 0x80 + q"
    using assms by (auto simp: p_def q_def)
  have "0x80 \<le> ?r" "?r < 0x800" using lt by auto
  then show ?thesis using base64 [OF lt(3), of p]
    unfolding p_def [symmetric] q_def [symmetric] b by (simp add: EncodeRune_def Let_def)
qed

lemma encode3:
  assumes "0xE0 \<le> b" "b \<le> 0xEF" "0x80 \<le> x" "x \<le> 0xBF" "0x80 \<le> y" "y \<le> 0xBF"
    and "b = 0xE0 \<Longrightarrow> 0xA0 \<le> x" and "b = 0xED \<Longrightarrow> x \<le> 0x9F"
  shows "EncodeRune ((b - 0xE0) * 4096 + (x - 0x80) * 64 + (y - 0x80)) = [enc_byte b, enc_byte x, enc_byte y]"
proof -
  define p q w where "p = b - 0xE0" and "q = x - 0x80" and "w = y - 0x80"
  let ?r = "p * 4096 + q * 64 + w"
  have lt: "p < 16" "q < 64" "w < 64" and b: "b = 0xE0 + p" "x = 0x80 + q" "y = 0x80 + w"
    using assms by (auto simp: p_def q_def w_def)
  have "p = 0 \<Longrightarrow> 32 \<le> q" using assms(7) b by auto
  then have lo: "0x800 \<le> ?r" by (cases "p = 0") auto
  have hi: "?r < 0x10000" using lt by auto
  have "\<not> (0xD800 \<le> ?r \<and> ?r \<le> 0xDFFF)"
  proof (cases "p = 13")
    case True
    then show ?thesis using assms(8) b lt by auto
  next
    case False
    then have "p \<le> 12 \<or> 14 \<le> p" by auto
    then show ?thesis using lt by auto
  qed
  moreover have r: "?r = (p * 64 + q) * 64 + w" by simp
  have "?r mod 64 = w" "?r div 64 = p * 64 + q" unfolding r using base64 [OF lt(3)] by blast+
  moreover from this have "?r div 64 mod 64 = q" using base64 [OF lt(2)] by simp
  moreover have "?r div 4096 = p" using lt by auto
  ultimately show ?thesis using lo hi
    unfolding p_def [symmetric] q_def [symmetric] w_def [symmetric] b by (auto simp: EncodeRune_def Let_def)
qed

lemma encode4:
  assumes "0xF0 \<le> b" "b \<le> 0xF4" "0x80 \<le> x" "x \<le> 0xBF" "0x80 \<le> y" "y \<le> 0xBF" "0x80 \<le> z" "z \<le> 0xBF"
    and "b = 0xF0 \<Longrightarrow> 0x90 \<le> x" and "b = 0xF4 \<Longrightarrow> x \<le> 0x8F"
  shows "EncodeRune ((b - 0xF0) * 262144 + (x - 0x80) * 4096 + (y - 0x80) * 64 + (z - 0x80))
       = [enc_byte b, enc_byte x, enc_byte y, enc_byte z]"
proof -
  define p q w v where "p = b - 0xF0" and "q = x - 0x80" and "w = y - 0x80" and "v = z - 0x80"
  let ?r = "p * 262144 + q * 4096 + w * 64 + v"
  have lt: "p < 5" "q < 64" "w < 64" "v < 64"
    and b: "b = 0xF0 + p" "x = 0x80 + q" "y = 0x80 + w" "z = 0x80 + v"
    using assms by (auto simp: p_def q_def w_def v_def)
  have "p = 0 \<Longrightarrow> 16 \<le> q" using assms(9) b by auto
  then have lo: "0x10000 \<le> ?r" by (cases "p = 0") auto
  have "p = 4 \<Longrightarrow> q < 16" using assms(10) b by auto
  then have hi: "?r \<le> 0x10FFFF" using lt by (cases "p = 4") auto
  have r: "?r = ((p * 64 + q) * 64 + w) * 64 + v" by simp
  have d: "?r mod 64 = v" "?r div 64 = (p * 64 + q) * 64 + w" unfolding r using base64 [OF lt(4)] by blast+
  from d(2) have "?r div 64 div 64 = p * 64 + q" using base64 [OF lt(3), of "p * 64 + q"] by simp
  moreover have "?r div 4096 = ?r div 64 div 64" by (simp add: div_mult2_eq [symmetric])
  ultimately have "?r div 4096 mod 64 = q" using base64 [OF lt(2)] by simp
  moreover have "?r div 64 mod 64 = w" using d(2) base64 [OF lt(3), of "p * 64 + q"] by simp
  moreover have "?r div 262144 = p" using lt by auto
  ultimately show ?thesis using lo hi d(1)
    unfolding p_def [symmetric] q_def [symmetric] w_def [symmetric] v_def [symmetric] b
    by (simp add: EncodeRune_def Let_def)
qed

definition bad_rune :: "nat \<times> nat \<Rightarrow> bool" where
  "bad_rune d = (fst d = RuneError \<and> snd d = 1)"

lemma second_ok_ranges:
  assumes "second_ok c x"
  shows "byte c = 0xE0 \<Longrightarrow> 0xA0 \<le> byte x" "byte c = 0xED \<Longrightarrow> byte x \<le> 0x9F"
    "byte c = 0xF0 \<Longrightarrow> 0x90 \<le> byte x" "byte c = 0xF4 \<Longrightarrow> byte x \<le> 0x8F"
  using assms by (auto simp: second_ok_def second_range_def in_range_def)

lemma rune_len_cases:
  "rune_len b = 1 \<longleftrightarrow> b < 0x80" "rune_len b = 2 \<longleftrightarrow> 0xC2 \<le> b \<and> b \<le> 0xDF"
  "rune_len b = 3 \<longleftrightarrow> 0xE0 \<le> b \<and> b \<le> 0xEF" "rune_len b = 4 \<longleftrightarrow> 0xF0 \<le> b \<and> b \<le> 0xF4"
  by (auto simp: rune_len_def)

text \<open>The shapes of a good multi-byte rune.\<close>

lemma DecodeRune_good:
  assumes "\<not> bad_rune (DecodeRune (c # cs))" and "0x80 \<le> byte c"
  obtains (two) x t where "cs = x # t" "rune_len (byte c) = 2" "second_ok c x"
  | (three) x y t where "cs = x # y # t" "rune_len (byte c) = 3" "second_ok c x" "is_cont y"
  | (four) x y z t where "cs = x # y # z # t" "rune_len (byte c) = 4" "second_ok c x" "is_cont y" "is_cont z"
proof -
  have "rune_len (byte c) = 2 \<or> rune_len (byte c) = 3 \<or> rune_len (byte c) = 4 \<or> rune_len (byte c) = 0"
    using assms(2) by (simp add: rune_len_def)
  then consider "rune_len (byte c) = 2" | "rune_len (byte c) = 3" | "rune_len (byte c) = 4" | "rune_len (byte c) = 0"
    by metis
  then show thesis
  proof cases
    case 1
    with assms(1) two show thesis
      by (auto simp: DecodeRune_def bad_rune_def split: list.splits if_splits)
  next
    case 2
    with assms(1) three show thesis
      by (auto simp: DecodeRune_def bad_rune_def split: list.splits if_splits)
  next
    case 3
    with assms(1) four show thesis
      by (auto simp: DecodeRune_def bad_rune_def split: list.splits if_splits)
  next
    case 4
    with assms(1) show thesis by (simp add: DecodeRune_def bad_rune_def)
  qed
qed

lemma DecodeRune_multi:
  "rune_len (byte c) = 2 \<Longrightarrow> second_ok c x \<Longrightarrow>
     DecodeRune (c # x # t) = ((byte c - 0xC0) * 64 + (byte x - 0x80), 2)"
  "rune_len (byte c) = 3 \<Longrightarrow> second_ok c x \<Longrightarrow> is_cont y \<Longrightarrow>
     DecodeRune (c # x # y # t) = ((byte c - 0xE0) * 4096 + (byte x - 0x80) * 64 + (byte y - 0x80), 3)"
  "rune_len (byte c) = 4 \<Longrightarrow> second_ok c x \<Longrightarrow> is_cont y \<Longrightarrow> is_cont z \<Longrightarrow>
     DecodeRune (c # x # y # z # t) = ((byte c - 0xF0) * 262144 + (byte x - 0x80) * 4096
       + (byte y - 0x80) * 64 + (byte z - 0x80), 4)"
  by (simp_all add: DecodeRune_def)

lemma enc_byte_byte [simp]: "enc_byte (byte c) = c"
  by (simp add: enc_byte_def)

text \<open>Bytes of a good rune: it decodes the same whatever follows, and encodes back to them.\<close>

lemma good_rune:
  assumes "\<not> bad_rune (DecodeRune (c # cs))" and "0x80 \<le> byte c" and "DecodeRune (c # cs) = (r, n)"
  shows "EncodeRune r = take n (c # cs) \<and> DecodeRune (take n (c # cs) @ t) = (r, n)
       \<and> 1 < n \<and> n \<le> length (c # cs)"
  using assms(1,2)
proof (cases rule: DecodeRune_good)
  case (two x t')
  note ok = second_ok_cont [OF two(3)]
  have "EncodeRune r = [c, x] \<and> n = 2"
    using assms(3) two ok encode2 [of "byte c" "byte x"]
    by (auto simp: DecodeRune_multi rune_len_cases is_cont_def)
  with assms(3) two show ?thesis by (auto simp: DecodeRune_multi numeral_2_eq_2)
next
  case (three x y t')
  note ok = second_ok_cont [OF three(3)]
  have "EncodeRune r = [c, x, y] \<and> n = 3"
    using assms(3) three ok encode3 [of "byte c" "byte x" "byte y"] second_ok_ranges [OF three(3)]
    by (auto simp: DecodeRune_multi rune_len_cases is_cont_def)
  with assms(3) three show ?thesis by (auto simp: DecodeRune_multi numeral_3_eq_3)
next
  case (four x y z t')
  note ok = second_ok_cont [OF four(3)]
  have "EncodeRune r = [c, x, y, z] \<and> n = 4"
    using assms(3) four ok encode4 [of "byte c" "byte x" "byte y" "byte z"] second_ok_ranges [OF four(3)]
    by (auto simp: DecodeRune_multi rune_len_cases is_cont_def)
  with assms(3) four show ?thesis by (auto simp: DecodeRune_multi)
qed

lemma char_eq_byte: "c = d \<longleftrightarrow> byte c = byte d"
  by (simp add: byte_inj)

definition push_parsed :: "string \<Rightarrow> (string \<times> string) option \<Rightarrow> (string \<times> string) option" where
  "push_parsed a r = map_option (\<lambda>(b, rest). (a @ b, rest)) r"

lemma parse_plain:
  assumes "byte c < 0x80" "0x20 \<le> byte c" "byte c \<noteq> 0x22" "byte c \<noteq> 0x5C"
  shows "parse_chars (c # t) = push_parsed [c] (parse_chars t)"
proof -
  have "c \<noteq> CHR 0x22" "c \<noteq> CHR 0x5C"
    using assms by (auto simp: byte_def)
  with assms show ?thesis by (simp add: push_parsed_def)
qed

lemma parse_simple_escape:
  "simple_escape e = Some x \<Longrightarrow> e \<noteq> CHR ''u'' \<Longrightarrow>
   parse_chars (CHR 0x5C # e # t) = push_parsed [x] (parse_chars t)"
  by (simp add: push_parsed_def)

lemma hex4_Some:
  "hex_val a = Some w \<Longrightarrow> hex_val b = Some x \<Longrightarrow> hex_val c = Some y \<Longrightarrow> hex_val d = Some z \<Longrightarrow>
   hex4 (a # b # c # d # t) = Some (((w * 16 + x) * 16 + y) * 16 + z)"
  by (simp add: hex4_def)

lemma parse_unicode_escape:
  "hex4 (a # b # c # d # t) = Some u \<Longrightarrow> u < 0xD800 \<or> 0xDFFF < u \<Longrightarrow>
   parse_chars (CHR 0x5C # CHR ''u'' # a # b # c # d # t) = push_parsed (EncodeRune u) (parse_chars t)"
  by (auto simp: push_parsed_def unescape_unit_def)

lemma hex_val_digits [simp]:
  "hex_val (CHR ''0'') = Some 0" "hex_val (CHR ''2'') = Some 2" "hex_val (CHR ''f'') = Some 15"
  "hex_val (CHR ''d'') = Some 13"
  by (simp_all add: hex_val_def byte_def Let_def)

lemma byte_lits: "byte (CHR 0x22) = 0x22" "byte (CHR 0x5C) = 0x5C" "byte (CHR 0x08) = 8"
  "byte (CHR 0x0C) = 12" "byte (CHR 0x0A) = 10" "byte (CHR 0x0D) = 13" "byte (CHR 0x09) = 9"
  by (simp_all add: byte_def)

lemma parse_escape:
  assumes "byte c < 0x80"
  shows "parse_chars (escape_ascii c @ t) = push_parsed [c] (parse_chars t)"
proof -
  consider (esc) "byte c = 0x22 \<or> byte c = 0x5C" | (b) "byte c = 8" | (f) "byte c = 12" | (n) "byte c = 10"
    | (r) "byte c = 13" | (t) "byte c = 9"
    | (u) "byte c < 0x20 \<or> byte c = 0x3C \<or> byte c = 0x3E \<or> byte c = 0x26" "byte c \<notin> {8, 9, 10, 12, 13}"
    | (plain) "0x20 \<le> byte c" "byte c \<notin> {0x22, 0x5C, 0x3C, 0x3E, 0x26}"
    using assms by fastforce
  then show ?thesis
  proof cases
    case esc
    then have "c = CHR 0x22 \<or> c = CHR 0x5C" by (auto simp: char_eq_byte byte_lits)
    then show ?thesis by (auto simp: escape_ascii_def byte_lits simple_escape_def push_parsed_def)
  next
    case b then have "c = CHR 0x08" by (simp add: char_eq_byte byte_lits)
    then show ?thesis by (simp add: escape_ascii_def byte_lits simple_escape_def push_parsed_def)
  next
    case f then have "c = CHR 0x0C" by (simp add: char_eq_byte byte_lits)
    then show ?thesis by (simp add: escape_ascii_def byte_lits simple_escape_def push_parsed_def)
  next
    case n then have "c = CHR 0x0A" by (simp add: char_eq_byte byte_lits)
    then show ?thesis by (simp add: escape_ascii_def byte_lits simple_escape_def push_parsed_def)
  next
    case r then have "c = CHR 0x0D" by (simp add: char_eq_byte byte_lits)
    then show ?thesis by (simp add: escape_ascii_def byte_lits simple_escape_def push_parsed_def)
  next
    case t then have "c = CHR 0x09" by (simp add: char_eq_byte byte_lits)
    then show ?thesis by (simp add: escape_ascii_def byte_lits simple_escape_def push_parsed_def)
  next
    case u
    have "hex4 (CHR ''0'' # CHR ''0'' # hex_char (byte c div 16) # hex_char (byte c mod 16) # t)
        = Some (byte c div 16 * 16 + byte c mod 16)"
      using assms by (subst hex4_Some [of _ 0 _ 0 _ "byte c div 16" _ "byte c mod 16"]) auto
    then have "hex4 (CHR ''0'' # CHR ''0'' # hex_char (byte c div 16) # hex_char (byte c mod 16) # t) = Some (byte c)"
      by simp
    note parsed = parse_unicode_escape [OF this]
    have "escape_ascii c = [CHR 0x5C, CHR ''u'', CHR ''0'', CHR ''0'', hex_char (byte c div 16), hex_char (byte c mod 16)]"
      using u by (auto simp: escape_ascii_def Let_def)
    moreover have "EncodeRune (byte c) = [c]" using assms by (simp add: EncodeRune_def)
    ultimately show ?thesis using parsed assms by (simp del: parse_chars.simps)
  next
    case plain
    then have "escape_ascii c = [c]" by (simp add: escape_ascii_def Let_def)
    with plain parse_plain [OF assms, of t] show ?thesis by (simp del: parse_chars.simps)
  qed
qed

text \<open>Parsing a quoted string gives the string with its invalid bytes replaced.\<close>

lemma parse_multi:
  assumes "0x80 \<le> byte c" and "DecodeRune (c # cs) = (r, n)"
  shows "parse_chars (escape_rune r (take n (c # cs)) @ t) = push_parsed (EncodeRune r) (parse_chars t)"
proof (cases "bad_rune (r, n)")
  case True
  then have rn: "r = RuneError" "n = 1" by (auto simp: bad_rune_def)
  have "hex4 (CHR ''f'' # CHR ''f'' # CHR ''f'' # CHR ''d'' # t) = Some RuneError"
    by (simp add: hex4_def RuneError_def)
  from parse_unicode_escape [OF this] rn show ?thesis
    by (simp add: escape_rune_def RuneError_def)
next
  case False
  with good_rune [of c cs r n] assms
  have g: "EncodeRune r = take n (c # cs)" "1 < n" "n \<le> length (c # cs)"
    and dec: "DecodeRune (take n (c # cs) @ t) = (r, n)" for t by auto
  show ?thesis
  proof (cases "r = 0x2028 \<or> r = 0x2029")
    case True
    have "hex4 (CHR ''2'' # CHR ''0'' # CHR ''2'' # hex_char (r mod 16) # t) = Some r"
      using True by (auto simp: hex4_def)
    from parse_unicode_escape [OF this] True show ?thesis
      by (auto simp: escape_rune_def RuneError_def)
  next
    case plain: False
    obtain m where n: "n = Suc m" using g by (cases n) auto
    have ne: "c \<noteq> CHR 0x22" "c \<noteq> CHR 0x5C" "\<not> byte c < 0x20" "\<not> byte c < 0x80"
      using assms(1) by (auto simp: byte_def)
    have "length (take m cs) = m" using g n by simp
    then have "drop m (take m cs @ t) = t" by simp
    moreover have "escape_rune r (take n (c # cs)) = c # take m cs"
      using plain g n False by (auto simp: escape_rune_def bad_rune_def)
    ultimately show ?thesis
      using ne dec [of t] n by (simp add: push_parsed_def)
  qed
qed

lemma parse_quote_chars:
  "parse_chars (quote_chars s @ CHR 0x22 # t) = Some (coerce_utf8 s, t)"
proof (induction s rule: quote_chars.induct)
  case (2 c cs)
  show ?case
  proof (cases "byte c < 0x80")
    case True
    with 2 show ?thesis by (simp add: parse_escape push_parsed_def)
  next
    case False
    obtain r n where rn: "DecodeRune (c # cs) = (r, n)" by fastforce
    with 2(2) [OF False, of "(r, n)" r n] False
    have "parse_chars (quote_chars (drop (n - 1) cs) @ CHR 0x22 # t) = Some (coerce_utf8 (drop (n - 1) cs), t)"
      by simp
    with False rn parse_multi [OF _ rn] show ?thesis
      by (simp add: push_parsed_def)
  qed
qed simp

text \<open>Valid UTF-8 is unchanged.\<close>

lemma coerce_valid: "ValidString s \<Longrightarrow> coerce_utf8 s = s"
proof (induction s rule: coerce_utf8.induct)
  case (2 c cs)
  obtain r n where rn: "DecodeRune (c # cs) = (r, n)" by fastforce
  have size: "1 \<le> n" "n \<le> Suc (length cs)" using DecodeRune_size [of "c # cs"] rn by auto
  then have segs: "rune_segs (c # cs) = (r, take n (c # cs)) # rune_segs (drop (n - 1) cs)"
    using rn by (cases n) (simp_all add: rune_segs.simps(2) Let_def)
  with 2(3) have tail: "ValidString (drop (n - 1) cs)" and "\<not> (r = RuneError \<and> length (take n (c # cs)) = 1)"
    unfolding ValidString_def segs by auto
  then have good: "\<not> bad_rune (DecodeRune (c # cs))" using rn size by (auto simp: bad_rune_def)
  show ?case
  proof (cases "byte c < 0x80")
    case True
    with rn have "n = 1" by (simp add: DecodeRune_ascii)
    with tail 2 True show ?thesis by simp
  next
    case False
    have "coerce_utf8 (drop (n - 1) cs) = drop (n - 1) cs"
      using 2(2) [OF False, of "(r, n)" r n] tail rn by simp
    moreover have "EncodeRune r = take n (c # cs)" using good_rune [OF good _ rn] False by auto
    ultimately show ?thesis using False rn size by (cases n) auto
  qed
qed simp

section \<open>Value round trip\<close>

text \<open>A literal that reads back as itself, before anything that cannot continue a number.\<close>

definition num_stop :: "string \<Rightarrow> bool" where
  "num_stop t = (case t of [] \<Rightarrow> True
     | c # _ \<Rightarrow> \<not> is_digit c \<and> c \<noteq> CHR ''.'' \<and> c \<noteq> CHR ''e'' \<and> c \<noteq> CHR ''E'')"

definition num_ok :: "string \<Rightarrow> bool" where
  "num_ok l = (l \<noteq> [] \<and> (is_digit (hd l) \<or> hd l = CHR ''-'') \<and> (\<forall>t. num_stop t \<longrightarrow> parse_num (l @ t) = Some (l, t)))"

fun wf_json :: "json \<Rightarrow> bool" where
  "wf_json (JNum l) = num_ok l"
| "wf_json (JArr vs) = (\<forall>v\<in>set vs. wf_json v)"
| "wf_json (JObj ms) = (\<forall>(k, v)\<in>set ms. wf_json v)"
| "wf_json v = True"

fun coerce_json :: "json \<Rightarrow> json" where
  "coerce_json (JStr s) = JStr (coerce_utf8 s)"
| "coerce_json (JArr vs) = JArr (map coerce_json vs)"
| "coerce_json (JObj ms) = JObj (map (\<lambda>(k, v). (coerce_utf8 k, coerce_json v)) ms)"
| "coerce_json v = v"

fun value_fuel :: "json \<Rightarrow> nat" and elems_fuel :: "json list \<Rightarrow> nat"
  and members_fuel :: "(string \<times> json) list \<Rightarrow> nat" where
  "value_fuel (JArr vs) = Suc (elems_fuel vs)"
| "value_fuel (JObj ms) = Suc (members_fuel ms)"
| "value_fuel v = 1"
| "elems_fuel [] = 0"
| "elems_fuel (v # vs) = Suc (max (value_fuel v) (elems_fuel vs))"
| "members_fuel [] = 0"
| "members_fuel ((k, v) # ms) = Suc (max (value_fuel v) (members_fuel ms))"

lemma digit_not_special:
  "is_digit c \<Longrightarrow> c \<noteq> CHR 0x22 \<and> c \<noteq> CHR ''{'' \<and> c \<noteq> CHR ''['' \<and> c \<noteq> CHR ''t'' \<and> c \<noteq> CHR ''f''
     \<and> c \<noteq> CHR ''n'' \<and> c \<noteq> CHR ''}'' \<and> c \<noteq> CHR '']'' \<and> c \<noteq> CHR ''-'' \<and> c \<noteq> CHR ''.'' \<and> \<not> is_ws c"
  by (auto simp: is_digit_def byte_def is_ws_def)

lemma encode_head:
  assumes "wf_json v"
  obtains c r where "json_encode v = c # r" "\<not> is_ws c" "c \<noteq> CHR ''}''" "c \<noteq> CHR '']''"
proof (cases v)
  case (JNum l)
  then have "is_digit (hd l) \<or> hd l = CHR ''-''" "l = hd l # tl l" using assms by (auto simp: num_ok_def)
  with JNum that show thesis by (auto simp: digit_not_special is_ws_def dest: digit_not_special)
next
  case (JBool b)
  with that show thesis by (cases b) (auto simp: is_ws_def)
qed (use that in \<open>auto simp: json_quote_def is_ws_def\<close>)

lemma skip_ws_nonws: "\<not> is_ws c \<Longrightarrow> skip_ws (c # r) = c # r"
  by (simp add: skip_ws_def)

lemma skip_encode: "wf_json v \<Longrightarrow> skip_ws (json_encode v @ t) = json_encode v @ t"
  by (metis append_Cons encode_head skip_ws_nonws)

lemma skip_punct [simp]:
  "skip_ws (CHR '','' # r) = CHR '','' # r" "skip_ws (CHR '':'' # r) = CHR '':'' # r"
  "skip_ws (CHR ''}'' # r) = CHR ''}'' # r" "skip_ws (CHR '']'' # r) = CHR '']'' # r"
  "skip_ws (CHR 0x22 # r) = CHR 0x22 # r"
  by (simp_all add: skip_ws_nonws is_ws_def)

lemma num_stop_punct [simp]:
  "num_stop (CHR '','' # r)" "num_stop (CHR ''}'' # r)" "num_stop (CHR '']'' # r)" "num_stop []"
  by (simp_all add: num_stop_def is_digit_def byte_def)

lemma parse_value_num:
  assumes "num_ok l" and "num_stop t"
  shows "parse_value (Suc n) (l @ t) = Some (JNum l, t)"
proof -
  obtain c r where l: "l = c # r" and c: "is_digit c \<or> c = CHR ''-''"
    using assms(1) by (cases l) (auto simp: num_ok_def)
  have "parse_num (l @ t) = Some (l, t)" using assms by (simp add: num_ok_def)
  moreover have "c \<noteq> CHR 0x22 \<and> c \<noteq> CHR ''{'' \<and> c \<noteq> CHR ''['' \<and> c \<noteq> CHR ''t'' \<and> c \<noteq> CHR ''f'' \<and> c \<noteq> CHR ''n''"
    using c digit_not_special [of c] by (elim disjE) simp_all
  ultimately show ?thesis by (simp add: l)
qed

lemma encode_elems_ne: "vs \<noteq> [] \<Longrightarrow> \<forall>v\<in>set vs. wf_json v \<Longrightarrow>
  \<exists>c r. encode_elems vs @ t = c # r \<and> \<not> is_ws c \<and> c \<noteq> CHR '']''"
  by (cases vs) (simp_all, metis append_Cons encode_head)

lemma encode_members_ne: "ms \<noteq> [] \<Longrightarrow> \<exists>r. encode_members ms @ t = CHR 0x22 # r"
  by (cases ms) (auto simp: json_quote_def)

text \<open>Decoding what was encoded gives the value, with the invalid bytes of its strings replaced.\<close>

lemma parse_encode:
  "wf_json v \<Longrightarrow> value_fuel v \<le> n \<Longrightarrow> num_stop t \<Longrightarrow>
     parse_value n (json_encode v @ t) = Some (coerce_json v, t)"
  "\<forall>v\<in>set vs. wf_json v \<Longrightarrow> vs \<noteq> [] \<Longrightarrow> elems_fuel vs \<le> n \<Longrightarrow>
     parse_elems n (encode_elems vs @ CHR '']'' # t) = Some (map coerce_json vs, t)"
  "\<forall>(k, v)\<in>set ms. wf_json v \<Longrightarrow> ms \<noteq> [] \<Longrightarrow> members_fuel ms \<le> n \<Longrightarrow>
     parse_members n (encode_members ms @ CHR ''}'' # t)
       = Some (map (\<lambda>(k, v). (coerce_utf8 k, coerce_json v)) ms, t)"
proof (induction v and vs and ms arbitrary: n t and n t and n t
    rule: json_encode_encode_elems_encode_members.induct)
  case 1
  then show ?case by (cases n) (auto simp: parse_lit_def)
next
  case (2 b)
  then show ?case by (cases n; cases b) (auto simp: parse_lit_def)
next
  case (3 l)
  then show ?case by (cases n) (auto simp: parse_value_num simp del: parse_value.simps)
next
  case (4 s)
  then show ?case by (cases n) (auto simp: json_quote_def parse_quote_chars)
next
  case (5 vs)
  then obtain m where n: "n = Suc m" and m: "elems_fuel vs \<le> m" by (cases n) auto
  show ?case
  proof (cases "vs = []")
    case True
    with n show ?thesis by simp
  next
    case False
    with encode_elems_ne [of vs "CHR '']'' # t"] 5(2) obtain c r
      where e: "encode_elems vs @ CHR '']'' # t = c # r" "\<not> is_ws c" "c \<noteq> CHR '']''" by auto
    with 5(1) [of m t] 5(2) False m n show ?thesis by (simp add: skip_ws_nonws)
  qed
next
  case (6 ms)
  then obtain m where n: "n = Suc m" and m: "members_fuel ms \<le> m" by (cases n) auto
  show ?case
  proof (cases "ms = []")
    case True
    with n show ?thesis by simp
  next
    case False
    with encode_members_ne [of ms "CHR ''}'' # t"] obtain r
      where e: "encode_members ms @ CHR ''}'' # t = CHR 0x22 # r" by auto
    with 6(1) [of m t] 6(2) False m n show ?thesis by simp
  qed
next
  case 7
  then show ?case by simp
next
  case (8 v vs)
  then obtain m where n: "n = Suc m" "value_fuel v \<le> m" "elems_fuel vs \<le> m" by (cases n) auto
  show ?case
  proof (cases "vs = []")
    case True
    with 8(1) [of m "CHR '']'' # t"] 8(3) n show ?thesis by simp
  next
    case False
    with encode_elems_ne [of vs "CHR '']'' # t"] 8(3) obtain c r
      where e: "encode_elems vs @ CHR '']'' # t = c # r" "\<not> is_ws c" by auto
    have "parse_value m (json_encode v @ CHR '','' # encode_elems vs @ CHR '']'' # t)
        = Some (coerce_json v, CHR '','' # encode_elems vs @ CHR '']'' # t)"
      using 8(1) [of m] 8(3) n by simp
    with 8(2) [of m t] 8(3) False n e show ?thesis by (simp add: skip_ws_nonws)
  qed
next
  case 9
  then show ?case by simp
next
  case (10 k v ms)
  then obtain m where n: "n = Suc m" "value_fuel v \<le> m" "members_fuel ms \<le> m" by (cases n) auto
  have wf: "wf_json v" using 10(3) by simp
  have q: "parse_chars (quote_chars k @ CHR 0x22 # CHR '':'' # x) = Some (coerce_utf8 k, CHR '':'' # x)" for x
    by (rule parse_quote_chars)
  show ?case
  proof (cases "ms = []")
    case True
    with 10(1) [of m "CHR ''}'' # t"] wf n q show ?thesis by (simp add: json_quote_def skip_encode)
  next
    case False
    with encode_members_ne [of ms "CHR ''}'' # t"] obtain r
      where e: "encode_members ms @ CHR ''}'' # t = CHR 0x22 # r" by auto
    have "parse_value m (json_encode v @ CHR '','' # encode_members ms @ CHR ''}'' # t)
        = Some (coerce_json v, CHR '','' # encode_members ms @ CHR ''}'' # t)"
      using 10(1) [of m] wf n by simp
    with 10(2) [of m t] 10(3) False n e q show ?thesis
      by (simp add: json_quote_def skip_encode [OF wf])
  qed
qed

section \<open>Whole texts\<close>

lemma fuel_length:
  "wf_json v \<Longrightarrow> value_fuel v \<le> length (json_encode v)"
  "\<forall>v\<in>set vs. wf_json v \<Longrightarrow> elems_fuel vs \<le> Suc (length (encode_elems vs))"
  "\<forall>(k, v)\<in>set ms. wf_json v \<Longrightarrow> members_fuel ms \<le> Suc (length (encode_members ms))"
proof (induction v and vs and ms rule: json_encode_encode_elems_encode_members.induct)
  case (3 l)
  then show ?case by (cases l) (auto simp: num_ok_def)
next
  case (8 v vs)
  then show ?case by (cases "vs = []") auto
next
  case (10 k v ms)
  then show ?case by (cases "ms = []") (auto simp: json_quote_def)
qed (auto simp: json_quote_def)

theorem json_roundtrip:
  assumes "wf_json v" and "skip_ws t = []"
  shows "json_parse (json_encode v @ t) = Some (coerce_json v)"
proof -
  have "num_stop t"
  proof (cases t)
    case (Cons c r)
    with assms(2) have "is_ws c" by (simp add: skip_ws_def split: if_splits)
    then have "\<not> is_digit c \<and> c \<noteq> CHR ''.'' \<and> c \<noteq> CHR ''e'' \<and> c \<noteq> CHR ''E''"
      using digit_not_special [of c] by (auto simp: is_ws_def)
    with Cons show ?thesis by (simp add: num_stop_def)
  qed simp
  moreover have "value_fuel v \<le> Suc (length (json_encode v @ t))"
    using fuel_length(1) [OF assms(1)] by simp
  ultimately show ?thesis
    using parse_encode(1) [OF assms(1)] assms(2)
    by (simp add: json_parse_def skip_encode [OF assms(1)] del: parse_value.simps)
qed

text \<open>No encoded text holds a line feed: messages can be framed by lines.\<close>

lemma hex_char_nl: "n < 16 \<Longrightarrow> hex_char n \<noteq> CHR 0x0A"
  by (auto simp: hex_char_def char_eq_byte byte_lits)

lemma escape_ascii_nl: "CHR 0x0A \<notin> set (escape_ascii c)" if "byte c < 0x80"
proof -
  have "byte c div 16 < 16" "byte c mod 16 < 16" using that by (simp_all add: less_mult_imp_div_less)
  then have "CHR 0x0A \<noteq> hex_char (byte c div 16)" "CHR 0x0A \<noteq> hex_char (byte c mod 16)"
    using hex_char_nl by metis+
  then show ?thesis by (auto simp: escape_ascii_def Let_def byte_lits)
qed

lemma multi_nl:
  assumes "0x80 \<le> byte c" and "DecodeRune (c # cs) = (r, n)"
  shows "CHR 0x0A \<notin> set (escape_rune r (take n (c # cs)))"
proof -
  have "CHR 0x0A \<notin> set (take n (c # cs))" if "1 < n"
  proof
    assume "CHR 0x0A \<in> set (take n (c # cs))"
    then obtain i where i: "i < n" "i < length (c # cs)" "(c # cs) ! i = CHR 0x0A"
      by (auto simp: in_set_conv_nth)
    have "is_cont ((c # cs) ! i) \<or> i = 0"
      using DecodeRune_tail_cont [of i "c # cs"] assms(2) i(1) by auto
    with i assms(1) show False by (auto simp: is_cont_def byte_lits)
  qed
  moreover have "c \<noteq> CHR 0x0A" using assms(1) by (auto simp: byte_lits)
  moreover have "n \<noteq> 0" using DecodeRune_size [of "c # cs"] assms(2) by auto
  ultimately have "CHR 0x0A \<notin> set (take n (c # cs))"
    by (cases "n = 1") auto
  then show ?thesis using hex_char_nl [of "r mod 16"] by (auto simp: escape_rune_def)
qed

lemma quote_nl: "CHR 0x0A \<notin> set (json_quote s)"
proof -
  have "CHR 0x0A \<notin> set (quote_chars s)"
  proof (induction s rule: quote_chars.induct)
    case (2 c cs)
    obtain r n where rn: "DecodeRune (c # cs) = (r, n)" by fastforce
    with 2 show ?case
      using escape_ascii_nl [of c] multi_nl [OF _ rn] by (cases "byte c < 0x80") auto
  qed simp
  then show ?thesis by (simp add: json_quote_def)
qed

section \<open>Integers\<close>

lemma byte_digit_char: "d < 10 \<Longrightarrow> byte (digit_char d) = 48 + d"
  by (simp add: digit_char_def)

lemma is_digit_char: "d < 10 \<Longrightarrow> is_digit (digit_char d)"
  by (simp add: is_digit_def byte_digit_char)

lemma itoa_nat_digits: "itoa_nat n \<noteq> [] \<and> list_all is_digit (itoa_nat n)"
proof (induction n rule: itoa_nat.induct)
  case (1 n)
  then show ?case by (subst (1 2) itoa_nat.simps) (auto simp: is_digit_char)
qed

lemma itoa_nat_value: "digits_value (itoa_nat n) = n"
proof (induction n rule: itoa_nat.induct)
  case (1 n)
  then show ?case
    by (subst itoa_nat.simps) (auto simp: digits_value_def byte_digit_char)
qed

lemma itoa_nat_head: "0 < n \<Longrightarrow> hd (itoa_nat n) \<noteq> CHR ''0''"
proof (induction n rule: itoa_nat.induct)
  case (1 n)
  show ?case
  proof (cases "n < 10")
    case True
    moreover have "byte (CHR ''0'') = 48" by (simp add: byte_def)
    ultimately show ?thesis using 1(2)
      by (subst itoa_nat.simps) (simp add: char_eq_byte byte_digit_char)
  next
    case False
    with 1 itoa_nat_digits [of "n div 10"] show ?thesis by (subst itoa_nat.simps) (auto simp: hd_append)
  qed
qed

lemma Atoi_itoa: "- (2 ^ 63) \<le> i \<Longrightarrow> i < 2 ^ 63 \<Longrightarrow> Atoi (itoa i) = Some i"
proof -
  assume range: "- (2 ^ 63) \<le> i" "i < 2 ^ 63"
  have d: "itoa_nat n \<noteq> []" "list_all is_digit (itoa_nat n)" for n using itoa_nat_digits by auto
  have "hd (itoa_nat n) \<noteq> CHR ''-'' \<and> hd (itoa_nat n) \<noteq> CHR ''+''" for n
    using d [of n] by (cases "itoa_nat n") (auto simp: is_digit_def byte_def)
  with range d show ?thesis
    by (auto simp: Atoi_def itoa_def itoa_nat_value Let_def)
qed

lemma takeWhile_all_stop:
  "list_all P xs \<Longrightarrow> (t = [] \<or> \<not> P (hd t)) \<Longrightarrow> takeWhile P (xs @ t) = xs \<and> dropWhile P (xs @ t) = t"
  by (induction xs) (auto, (cases t; auto)+)

lemma num_int_itoa:
  assumes "t = [] \<or> \<not> is_digit (hd t)"
  shows "num_int (itoa_nat n @ t) = Some (itoa_nat n, t)"
proof (cases "n = 0")
  case True
  have "digit_char 0 = CHR ''0''" by (simp add: char_eq_byte byte_digit_char) (simp add: byte_def)
  with True have "itoa_nat n = [CHR ''0'']" by (simp add: itoa_nat.simps)
  then show ?thesis by (simp add: num_int_def)
next
  case False
  obtain c cs where c: "itoa_nat n = c # cs" "is_digit c" "c \<noteq> CHR ''0''"
    using itoa_nat_digits [of n] itoa_nat_head [of n] False by (cases "itoa_nat n") auto
  have "takeWhile is_digit (itoa_nat n @ t) = itoa_nat n \<and> dropWhile is_digit (itoa_nat n @ t) = t"
    using itoa_nat_digits [of n] assms by (intro takeWhile_all_stop) auto
  with c show ?thesis by (simp add: num_int_def)
qed

lemma num_ok_itoa: "num_ok (itoa i)"
proof -
  have stop: "num_frac t = Some ([], t)" "num_exp t = Some ([], t)" "t = [] \<or> \<not> is_digit (hd t)"
    if "num_stop t" for t
    using that by (auto simp: num_stop_def num_frac_def num_exp_def split: list.splits)
  have head: "is_digit (hd (itoa_nat n))" for n
    using itoa_nat_digits [of n] by (cases "itoa_nat n") auto
  have "parse_num (itoa i @ t) = Some (itoa i, t)" if t: "num_stop t" for t
  proof (cases "i < 0")
    case True
    then show ?thesis
      using stop [OF t] by (simp add: itoa_def parse_num_def num_int_itoa)
  next
    case False
    have "hd (itoa_nat (nat i) @ t) \<noteq> CHR ''-''"
      using head [of "nat i"] itoa_nat_digits [of "nat i"] digit_not_special by (auto simp: hd_append)
    with False show ?thesis
      using stop [OF t] by (simp add: itoa_def parse_num_def num_int_itoa)
  qed
  then show ?thesis using head itoa_nat_digits by (simp add: num_ok_def itoa_def)
qed

lemma itoa_nl: "CHR 0x0A \<notin> set (itoa i)"
proof -
  have "CHR 0x0A \<notin> set (itoa_nat n)" for n
    using itoa_nat_digits [of n] by (auto simp: list_all_iff is_digit_def byte_lits)
  then show ?thesis by (simp add: itoa_def)
qed

end
