(* ===== verification/Protocol_Codec.thy ===== *)
theory Protocol_Codec
  imports Protocol Json
begin

text \<open>
  \<open>internal/protocol/protocol.go\<close>, the coding: a message is one JSON object on a line of its
  own (\<open>Encode\<close>); a \<open>MessageReader\<close> reads up to the next line feed and unmarshals what it
  read. \<open>json.Unmarshal\<close> into a struct goes over the members in order, finds the field by
  exact name or else by case-insensitive name, ignores unknown members and nulls, and fails on a
  value of another type. A reader's state is the bytes still to come.
\<close>

section \<open>Unmarshalling into a struct\<close>

text \<open>Folding of member names: the two non-ASCII runes that fold to ASCII letters included.\<close>

definition fold_name :: "string \<Rightarrow> string" where
  "fold_name k =
     ToLower (ReplaceAll (ReplaceAll k [CHR 0xE2, CHR 0x84, CHR 0xAA] ''k'') [CHR 0xC5, CHR 0xBF] ''s'')"

type_synonym 'r field = "string \<times> (json \<Rightarrow> 'r \<Rightarrow> 'r option)"

definition find_field :: "'r field list \<Rightarrow> string \<Rightarrow> 'r field option" where
  "find_field fs k =
     (case List.find (\<lambda>f. fst f = k) fs of
        Some f \<Rightarrow> Some f
      | None \<Rightarrow> List.find (\<lambda>f. fold_name (fst f) = fold_name k) fs)"

definition set_member :: "'r field list \<Rightarrow> string \<times> json \<Rightarrow> 'r option \<Rightarrow> 'r option" where
  "set_member fs m acc =
     (case acc of None \<Rightarrow> None
      | Some r \<Rightarrow> (case find_field fs (fst m) of None \<Rightarrow> Some r | Some f \<Rightarrow> snd f (snd m) r))"

definition unmarshal_value :: "'r field list \<Rightarrow> 'r \<Rightarrow> json \<Rightarrow> 'r option" where
  "unmarshal_value fs zero v =
     (case v of JNull \<Rightarrow> Some zero | JObj ms \<Rightarrow> fold (set_member fs) ms (Some zero) | _ \<Rightarrow> None)"

definition unmarshal :: "'r field list \<Rightarrow> 'r \<Rightarrow> string \<Rightarrow> 'r option" where
  "unmarshal fs zero s = (case json_parse s of None \<Rightarrow> None | Some v \<Rightarrow> unmarshal_value fs zero v)"

definition string_field :: "(string \<Rightarrow> 'r \<Rightarrow> 'r) \<Rightarrow> json \<Rightarrow> 'r \<Rightarrow> 'r option" where
  "string_field upd v r = (case v of JStr s \<Rightarrow> Some (upd s r) | JNull \<Rightarrow> Some r | _ \<Rightarrow> None)"

definition int64_field :: "(int \<Rightarrow> 'r \<Rightarrow> 'r) \<Rightarrow> json \<Rightarrow> 'r \<Rightarrow> 'r option" where
  "int64_field upd v r =
     (case v of JNum l \<Rightarrow> map_option (\<lambda>i. upd i r) (Atoi l) | JNull \<Rightarrow> Some r | _ \<Rightarrow> None)"

section \<open>Messages\<close>

definition zero_message :: Message where
  "zero_message = \<lparr>msg_Type = [], msg_SessionID = [], WorkerInstanceID = [], Payload = [], Timestamp = 0\<rparr>"

definition message_fields :: "Message field list" where
  "message_fields =
     [(''type'', string_field (\<lambda>s m. m\<lparr>msg_Type := s\<rparr>)),
      (''session_id'', string_field (\<lambda>s m. m\<lparr>msg_SessionID := s\<rparr>)),
      (''worker_instance_id'', string_field (\<lambda>s m. m\<lparr>WorkerInstanceID := s\<rparr>)),
      (''payload'', string_field (\<lambda>s m. m\<lparr>Payload := s\<rparr>)),
      (''ts'', int64_field (\<lambda>i m. m\<lparr>Timestamp := i\<rparr>))]"

text \<open>A string member that is left out when empty (\<open>omitempty\<close>).\<close>

definition omit_empty :: "string \<Rightarrow> string \<Rightarrow> (string \<times> json) list" where
  "omit_empty k s = (if s = [] then [] else [(k, JStr s)])"

definition message_json :: "Message \<Rightarrow> json" where
  "message_json m = JObj
     ([(''type'', JStr (msg_Type m)), (''session_id'', JStr (msg_SessionID m))]
      @ omit_empty ''worker_instance_id'' (WorkerInstanceID m)
      @ omit_empty ''payload'' (Payload m)
      @ [(''ts'', JNum (itoa (Timestamp m)))])"

definition Encode :: "Message \<Rightarrow> string" where
  "Encode m = json_encode (message_json m) @ [CHR 0x0A]"

text \<open>\<open>br.ReadBytes('\n')\<close>: the line with its line feed, and the bytes after it; an error at the end of the input.\<close>

definition ReadBytes :: "string \<Rightarrow> (string \<times> string) option" where
  "ReadBytes s =
     (let line = takeWhile (\<lambda>c. c \<noteq> CHR 0x0A) s in
      case dropWhile (\<lambda>c. c \<noteq> CHR 0x0A) s of [] \<Rightarrow> None | nl # rest \<Rightarrow> Some (line @ [nl], rest))"

text \<open>
  \<open>Read\<close>: \<open>None\<close> when the input ends before a line feed; otherwise the bytes left, and
  \<open>None\<close> for a line that is no message.
\<close>

definition Read :: "string \<Rightarrow> (Message option \<times> string) option" where
  "Read s = (case ReadBytes s of None \<Rightarrow> None
     | Some (line, rest) \<Rightarrow> Some (unmarshal message_fields zero_message line, rest))"

definition DecodeMessage :: "string \<Rightarrow> (Message option \<times> string) option" where
  "DecodeMessage s = (case ReadBytes s of None \<Rightarrow> None
     | Some (line, rest) \<Rightarrow> Some (unmarshal message_fields zero_message line, rest))"

text \<open>The messages a connection's loop sees until it stops at an error.\<close>

function read_messages :: "string \<Rightarrow> Message list" where
  "read_messages s = (case Read s of Some (Some m, rest) \<Rightarrow> m # read_messages rest | _ \<Rightarrow> [])"
  by pat_completeness auto

lemma ReadBytes_shorter: "ReadBytes s = Some (line, rest) \<Longrightarrow> length rest < length s"
proof -
  assume r: "ReadBytes s = Some (line, rest)"
  then have "dropWhile (\<lambda>c. c \<noteq> CHR 0x0A) s = CHR 0x0A # rest \<or> (\<exists>c. dropWhile (\<lambda>c. c \<noteq> CHR 0x0A) s = c # rest)"
    by (auto simp: ReadBytes_def Let_def split: list.splits)
  then obtain c where "dropWhile (\<lambda>c. c \<noteq> CHR 0x0A) s = c # rest" by blast
  with length_dropWhile_le [of "\<lambda>c. c \<noteq> CHR 0x0A" s] show ?thesis by simp
qed

termination read_messages
  by (relation "measure length") (auto simp: Read_def dest: ReadBytes_shorter split: option.splits)

declare read_messages.simps [simp del]

section \<open>Turn terminals\<close>

definition terminal_fields :: "TurnTerminal field list" where
  "terminal_fields =
     [(''status'', string_field (\<lambda>s t. t\<lparr>tt_Status := s\<rparr>)),
      (''error_code'', string_field (\<lambda>s t. t\<lparr>ErrorCode := s\<rparr>)),
      (''error_detail'', string_field (\<lambda>s t. t\<lparr>ErrorDetail := s\<rparr>))]"

definition terminal_json :: "TurnTerminal \<Rightarrow> json" where
  "terminal_json t = JObj ([(''status'', JStr (tt_Status t))]
     @ omit_empty ''error_code'' (ErrorCode t) @ omit_empty ''error_detail'' (ErrorDetail t))"

definition encode_terminal :: "TurnTerminal \<Rightarrow> string" where
  "encode_terminal t = json_encode (terminal_json t)"

definition decode_terminal :: "string \<Rightarrow> TurnTerminal option" where
  "decode_terminal s = unmarshal terminal_fields zero_terminal s"

section \<open>Round trips\<close>

definition coerce_message :: "Message \<Rightarrow> Message" where
  "coerce_message m = m\<lparr>msg_Type := coerce_utf8 (msg_Type m), msg_SessionID := coerce_utf8 (msg_SessionID m),
     WorkerInstanceID := coerce_utf8 (WorkerInstanceID m), Payload := coerce_utf8 (Payload m)\<rparr>"

definition coerce_terminal :: "TurnTerminal \<Rightarrow> TurnTerminal" where
  "coerce_terminal t = t\<lparr>tt_Status := coerce_utf8 (tt_Status t), ErrorCode := coerce_utf8 (ErrorCode t),
     ErrorDetail := coerce_utf8 (ErrorDetail t)\<rparr>"

definition int64_range :: "int \<Rightarrow> bool" where
  "int64_range i = (- (2 ^ 63) \<le> i \<and> i < 2 ^ 63)"

lemma field_coerce [simp]:
  "coerce_utf8 ''type'' = ''type''" "coerce_utf8 ''session_id'' = ''session_id''"
  "coerce_utf8 ''worker_instance_id'' = ''worker_instance_id''" "coerce_utf8 ''payload'' = ''payload''"
  "coerce_utf8 ''ts'' = ''ts''" "coerce_utf8 ''status'' = ''status''"
  "coerce_utf8 ''error_code'' = ''error_code''" "coerce_utf8 ''error_detail'' = ''error_detail''"
  by (simp_all add: byte_def)

lemma wf_message_json: "wf_json (message_json m)"
  by (auto simp: message_json_def omit_empty_def num_ok_itoa)

lemma wf_terminal_json: "wf_json (terminal_json t)"
  by (auto simp: terminal_json_def omit_empty_def)

lemma find_message_field:
  "find_field message_fields ''type'' = Some (''type'', string_field (\<lambda>s m. m\<lparr>msg_Type := s\<rparr>))"
  "find_field message_fields ''session_id'' = Some (''session_id'', string_field (\<lambda>s m. m\<lparr>msg_SessionID := s\<rparr>))"
  "find_field message_fields ''worker_instance_id''
     = Some (''worker_instance_id'', string_field (\<lambda>s m. m\<lparr>WorkerInstanceID := s\<rparr>))"
  "find_field message_fields ''payload'' = Some (''payload'', string_field (\<lambda>s m. m\<lparr>Payload := s\<rparr>))"
  "find_field message_fields ''ts'' = Some (''ts'', int64_field (\<lambda>i m. m\<lparr>Timestamp := i\<rparr>))"
  by (simp_all add: find_field_def message_fields_def)

lemma find_terminal_field:
  "find_field terminal_fields ''status'' = Some (''status'', string_field (\<lambda>s t. t\<lparr>tt_Status := s\<rparr>))"
  "find_field terminal_fields ''error_code'' = Some (''error_code'', string_field (\<lambda>s t. t\<lparr>ErrorCode := s\<rparr>))"
  "find_field terminal_fields ''error_detail'' = Some (''error_detail'', string_field (\<lambda>s t. t\<lparr>ErrorDetail := s\<rparr>))"
  by (simp_all add: find_field_def terminal_fields_def)

text \<open>The effect of one string member, and of one that may have been left out.\<close>

definition coerce_member :: "string \<times> json \<Rightarrow> string \<times> json" where
  "coerce_member m = (coerce_utf8 (fst m), coerce_json (snd m))"

lemma coerce_obj: "coerce_json (JObj ms) = JObj (map coerce_member ms)"
  by (simp add: coerce_member_def case_prod_unfold)

lemma set_string:
  "find_field fs k = Some (k, string_field upd) \<Longrightarrow> coerce_utf8 k = k \<Longrightarrow>
   set_member fs (coerce_member (k, JStr s)) (Some r) = Some (upd (coerce_utf8 s) r)"
  by (simp add: set_member_def coerce_member_def string_field_def)

lemma set_omitted:
  "find_field fs k = Some (k, string_field upd) \<Longrightarrow> coerce_utf8 k = k \<Longrightarrow> upd [] r = r \<Longrightarrow>
   fold (set_member fs) (map coerce_member (omit_empty k s)) (Some r) = Some (upd (coerce_utf8 s) r)"
  by (cases "s = []") (simp_all add: omit_empty_def set_string)

lemma set_int:
  "find_field fs k = Some (k, int64_field upd) \<Longrightarrow> coerce_utf8 k = k \<Longrightarrow> int64_range i \<Longrightarrow>
   set_member fs (coerce_member (k, JNum (itoa i))) (Some r) = Some (upd i r)"
  by (simp add: set_member_def coerce_member_def int64_field_def Atoi_itoa int64_range_def)

lemma unmarshal_message_json:
  assumes "int64_range (Timestamp m)"
  shows "unmarshal_value message_fields zero_message (coerce_json (message_json m)) = Some (coerce_message m)"
  unfolding message_json_def coerce_obj unmarshal_value_def
  using assms
  by (simp add: set_string [OF find_message_field(1) field_coerce(1)] set_string [OF find_message_field(2) field_coerce(2)]
      set_omitted [OF find_message_field(3) field_coerce(3)] set_omitted [OF find_message_field(4) field_coerce(4)]
      set_int [OF find_message_field(5) field_coerce(5)] coerce_message_def zero_message_def)

lemma unmarshal_terminal_json:
  "unmarshal_value terminal_fields zero_terminal (coerce_json (terminal_json t)) = Some (coerce_terminal t)"
  unfolding terminal_json_def coerce_obj unmarshal_value_def
  by (simp add: set_string [OF find_terminal_field(1) field_coerce(6)] set_omitted [OF find_terminal_field(2) field_coerce(7)]
      set_omitted [OF find_terminal_field(3) field_coerce(8)] coerce_terminal_def zero_terminal_def)

lemma decode_encode_terminal: "decode_terminal (encode_terminal t) = Some (coerce_terminal t)"
  using json_roundtrip [OF wf_terminal_json, of "[]" t]
  by (simp add: decode_terminal_def encode_terminal_def unmarshal_def unmarshal_terminal_json skip_ws_def)

lemma members_nl: "CHR 0x0A \<notin> set (json_encode (message_json m))"
  using quote_nl itoa_nl by (auto simp: message_json_def omit_empty_def)

lemma Read_Encode:
  assumes "int64_range (Timestamp m)"
  shows "Read (Encode m @ rest) = Some (Some (coerce_message m), rest)"
proof -
  let ?e = "json_encode (message_json m)"
  have "takeWhile (\<lambda>c. c \<noteq> CHR 0x0A) (?e @ CHR 0x0A # rest) = ?e"
    "dropWhile (\<lambda>c. c \<noteq> CHR 0x0A) (?e @ CHR 0x0A # rest) = CHR 0x0A # rest"
    using members_nl [of m] by (simp_all add: takeWhile_append dropWhile_append)
  then have "ReadBytes (Encode m @ rest) = Some (?e @ [CHR 0x0A], rest)"
    by (simp add: ReadBytes_def Encode_def)
  moreover have "json_parse (?e @ [CHR 0x0A]) = Some (coerce_json (message_json m))"
    by (rule json_roundtrip [OF wf_message_json]) (simp add: skip_ws_def is_ws_def)
  ultimately show ?thesis
    using unmarshal_message_json [OF assms] by (simp add: Read_def unmarshal_def)
qed

text \<open>
  C12: Messages survive the wire: whatever bytes the strings of a sequence of messages hold
  (line feeds, quotes, invalid UTF-8), the reader of the concatenated encodings gets exactly
  these messages, one for one and in order, then the bytes that follow; the only change is
  that invalid UTF-8 bytes arrive as the replacement character.
\<close>

theorem stream_roundtrip:
  assumes "\<forall>m\<in>set ms. int64_range (Timestamp m)"
  shows "read_messages (concat (map Encode ms) @ rest) = map coerce_message ms @ read_messages rest"
  using assms
proof (induction ms)
  case (Cons m ms)
  then show ?case
    using Read_Encode [of m "concat (map Encode ms) @ rest"] by (subst read_messages.simps) simp
qed simp

theorem stream_roundtrip_witness:
  "read_messages (concat (map Encode [NewMessage 5 MsgUserInput ''s'' [CHR 0x0A, CHR 0xFF]]) @ [])
     = map coerce_message [NewMessage 5 MsgUserInput ''s'' [CHR 0x0A, CHR 0xFF]] @ read_messages []"
  by (rule stream_roundtrip) (simp add: int64_range_def)

text \<open>
  The report a worker makes of a turn's end reaches the daemon as it was made: decoding an
  encoded terminal gives the same status, code and detail when these are valid UTF-8.
\<close>

lemma terminal_roundtrip:
  assumes "ValidString (tt_Status t)" and "ValidString (ErrorCode t)" and "ValidString (ErrorDetail t)"
  shows "decode_terminal (encode_terminal t) = Some t"
  using assms by (simp add: decode_encode_terminal coerce_terminal_def coerce_valid)

lemma terminal_roundtrip_witness:
  "decode_terminal (encode_terminal (failed_terminal ''code'' [CHR 0x22, CHR 0x0A]))
     = Some (failed_terminal ''code'' [CHR 0x22, CHR 0x0A])"
proof (rule terminal_roundtrip)
  show "ValidString (tt_Status (failed_terminal ''code'' [CHR 0x22, CHR 0x0A]))"
    "ValidString (ErrorCode (failed_terminal ''code'' [CHR 0x22, CHR 0x0A]))"
    "ValidString (ErrorDetail (failed_terminal ''code'' [CHR 0x22, CHR 0x0A]))"
    by (rule ValidString_ascii, simp add: byte_def TurnFailed_def)+
qed

end
