(* ===== verification/Daemon_Router.thy ===== *)
theory Daemon_Router
  imports Daemon_Turns Protocol_Codec
begin

text \<open>
  The message handlers of the daemon (\<open>daemon.go\<close>): admission of a connection
  (\<open>handleConn\<close>), messages of a worker (\<open>routeMessage\<close>), requests of a command-line client
  (\<open>handleClientConn\<close> and its helpers) and the loop that forwards a session's output to a
  client. \<open>routeMessage\<close> tests its gate in one critical section and acts in later ones, so it
  is cut there: other goroutines (\<open>env\<close>) run in between.
\<close>

section \<open>Messages of a worker\<close>

definition isCodexSessionID :: "string \<Rightarrow> bool" where
  "isCodexSessionID value =
     (length value = 36 \<and>
      list_all (\<lambda>(i, c). if i = 8 \<or> i = 13 \<or> i = 18 \<or> i = 23 then c = CHR ''-''
          else is_digit c \<or> (97 \<le> byte c \<and> byte c \<le> 102) \<or> (65 \<le> byte c \<and> byte c \<le> 70))
        (List.enumerate 0 value))"

text \<open>The critical section of a READY (lines 1695 to 1708); the result says whether to go on.\<close>

definition ready_section :: "mref \<Rightarrow> href \<Rightarrow> Daemon \<Rightarrow> Daemon \<times> bool" where
  "ready_section m h d =
     (if \<not> isCurrentSessionLocked d m then (d, False)
      else if pendingRestart d m = Some h then (d, False)
      else if \<not> Closed (metas d m) then (set_status m StatusReady d, True)
      else (d, True))"

definition ready_rest :: "save_io \<Rightarrow> time \<Rightarrow> mref \<Rightarrow> href \<Rightarrow> Daemon \<Rightarrow> Daemon" where
  "ready_rest io now m h d =
     (let d = upd_handle h markReady d;
          d = clearSpawnFailure (sid_of d m) d;
          d = upd_meta m (\<lambda>x. touchActive x now) d
      in persistCurrentSession m (\<lambda>s. UpdateLastActive io now s (sid_of d m)) d)"

text \<open>\<open>jerr\<close> is the text of \<open>json.Unmarshal\<close>'s error.\<close>

definition received_terminal :: "string \<Rightarrow> string \<Rightarrow> TurnTerminal" where
  "received_terminal jerr payload =
     (case decode_terminal payload of Some t \<Rightarrow> t | None \<Rightarrow> failed_terminal ''invalid_terminal'' jerr)"

definition route_body ::
  "save_io \<Rightarrow> time \<Rightarrow> string \<Rightarrow> Message \<Rightarrow> mref \<Rightarrow> href \<Rightarrow> Daemon \<Rightarrow> Daemon" where
  "route_body io now jerr msg m h d =
     (let typ = msg_Type msg; payload = Payload msg in
      if typ = MsgReady then
        (case ready_section m h d of (d, go) \<Rightarrow> if go then ready_rest io now m h d else d)
      else if typ = MsgHeartbeat then upd_handle h (\<lambda>x. TouchHb x now) d
      else if typ = MsgOutput then
        let d = upd_meta m (\<lambda>x. AddOutput x payload) d;
            d = upd_meta m (\<lambda>x. touchActive x now) d
        in persistCurrentSession m (\<lambda>s. UpdateOutput io now s (sid_of d m) payload) d
      else if typ = MsgError then d
      else if typ = MsgCliSessionBound then
        if \<not> isCodexSessionID payload then d
        else
          let d = upd_meta m (\<lambda>x. SetCliSessionID x payload) d;
              d = upd_meta m (\<lambda>x. touchActive x now) d
          in persistCurrentSession m (\<lambda>s. UpdateCliSessionID io now s (sid_of d m) payload) d
      else if typ = MsgTurnCompleted then
        upd_meta m (\<lambda>x. fst (CompleteTurn x (received_terminal jerr payload))) d
      else if typ = MsgClose then removeSessionMeta io now m d
      else d)"

definition routeMessage ::
  "save_io \<Rightarrow> time \<Rightarrow> string \<Rightarrow> (Daemon \<Rightarrow> Daemon) \<Rightarrow> Message \<Rightarrow> mref \<Rightarrow> href \<Rightarrow> Daemon \<Rightarrow> Daemon" where
  "routeMessage io now jerr env msg m h d =
     (if \<not> isCurrentSessionWorker d m h then d
      else route_body io now jerr msg m h (env d))"

section \<open>Admitting a connection\<close>

fun isClientFirstMessage :: "Message option \<Rightarrow> bool" where
  "isClientFirstMessage None = False"
| "isClientFirstMessage (Some m) =
     (if msg_Type m \<in> {MsgNewSession, MsgUserInput, MsgClose, MsgAck, MsgListSessions, MsgHistory, MsgCloseSession}
      then True else msg_SessionID m = [])"

datatype admission =
    NoMessage                 \<comment> \<open>the first read failed\<close>
  | ClientConn Message
  | Rejected                  \<comment> \<open>answered with an error and closed\<close>
  | AckFailed
  | WorkerConn mref href

text \<open>
  The first message of a connection (lines 1280 to 1334). For a worker the identity check, the
  acknowledgment and \<open>SetConn\<close> are one critical section under \<open>workersMu\<close> and
  \<open>sessionsMu\<close>; \<open>wr\<close> is the error the acknowledgment's write ends with.
\<close>

definition admit_worker :: "time \<Rightarrow> string option \<Rightarrow> conn \<Rightarrow> Message \<Rightarrow> Daemon \<Rightarrow> Daemon \<times> admission" where
  "admit_worker now wr c first d =
     (let sessionID = msg_SessionID first;
          reject = (\<lambda>text. (write_conn c (NewMessage now MsgError sessionID text) d, Rejected))
      in case (sessions d sessionID, workers d sessionID) of
           (Some m, Some h) \<Rightarrow>
             if Closed (metas d m) \<or> \<not> isCurrentSessionLocked d m \<or> workerOwners d h \<noteq> Some m
             then reject ''worker not expected''
             else if WorkerInstanceID first \<noteq> InstanceID (handles d h)
             then reject ''worker instance ID mismatch''
             else (case wr of
                 Some e \<Rightarrow> (d, AckFailed)
               | None \<Rightarrow>
                   let d = write_conn c (NewMessage now MsgAck sessionID workerReadyAckPayload) d;
                       (x, oldConn) = SetConn (handles d h) c now;
                       d = upd_handle h (\<lambda>_. x) d;
                       d = (case oldConn of
                              None \<Rightarrow> d
                            | Some old \<Rightarrow> if old \<noteq> c then close_conn old d else d)
                   in (d\<lparr>connToSess := (connToSess d)(c \<mapsto> sessionID)\<rparr>, WorkerConn m h))
         | _ \<Rightarrow> reject ''worker not expected'')"

definition admit :: "time \<Rightarrow> string option \<Rightarrow> conn \<Rightarrow> Message option \<Rightarrow> Daemon \<Rightarrow> Daemon \<times> admission" where
  "admit now wr c read d =
     (case read of
        None \<Rightarrow> (d, NoMessage)
      | Some first \<Rightarrow>
          if msg_Type first \<noteq> MsgReady \<and> isClientFirstMessage (Some first) then (d, ClientConn first)
          else if msg_Type first \<noteq> MsgReady \<or> WorkerInstanceID first = [] then
            (write_conn c (NewMessage now MsgError (msg_SessionID first)
               ''worker must send ready with instance ID'') d, Rejected)
          else admit_worker now wr c first d)"

text \<open>The loop over a worker's later messages: an empty session id is filled in.\<close>

definition fill_session :: "string \<Rightarrow> Message \<Rightarrow> Message" where
  "fill_session sid msg = (if msg_SessionID msg = [] then msg\<lparr>msg_SessionID := sid\<rparr> else msg)"

text \<open>
  A worker's connection from admission to its end: \<open>io k\<close>, \<open>now k\<close>, \<open>env k\<close> belong to
  its \<open>k\<close>-th message, the first being the READY itself.
\<close>

fun serve_worker ::
  "(nat \<Rightarrow> save_io) \<Rightarrow> (nat \<Rightarrow> time) \<Rightarrow> string \<Rightarrow> (nat \<Rightarrow> Daemon \<Rightarrow> Daemon) \<Rightarrow> nat \<Rightarrow> string \<Rightarrow> mref \<Rightarrow> href
     \<Rightarrow> Message list \<Rightarrow> Daemon \<Rightarrow> Daemon" where
  "serve_worker io now jerr env k sid m h [] d = d"
| "serve_worker io now jerr env k sid m h (msg # msgs) d =
     serve_worker io now jerr env (Suc k) sid m h msgs
       (routeMessage (io k) (now k) jerr (env k) (fill_session sid msg) m h d)"

definition leave_conn :: "conn \<Rightarrow> Daemon \<Rightarrow> Daemon" where
  "leave_conn c d = close_conn c (d\<lparr>connToSess := (connToSess d)(c := None)\<rparr>)"

definition handle_worker_conn ::
  "(nat \<Rightarrow> save_io) \<Rightarrow> (nat \<Rightarrow> time) \<Rightarrow> string option \<Rightarrow> string \<Rightarrow> (nat \<Rightarrow> Daemon \<Rightarrow> Daemon) \<Rightarrow> conn
     \<Rightarrow> Message list \<Rightarrow> Daemon \<Rightarrow> Daemon" where
  "handle_worker_conn io now wr jerr env c msgs d =
     (case admit (now 0) wr c (case msgs of [] \<Rightarrow> None | m # _ \<Rightarrow> Some m) d of
        (d, WorkerConn m h) \<Rightarrow>
          let sid = msg_SessionID (hd msgs);
              d = routeMessage (io 0) (now 0) jerr (env 0) (hd msgs) m h d
          in leave_conn c (serve_worker io now jerr env 1 sid m h (tl msgs) d)
      | (d, _) \<Rightarrow> close_conn c d)"

section \<open>Requests of a client\<close>

text \<open>
  One entry of the session list. \<open>fmt\<close> formats a time; \<open>order\<close> is the order in which Go's
  range visits the session map.
\<close>

definition session_entry :: "(time \<Rightarrow> string) \<Rightarrow> Daemon \<Rightarrow> mref \<Rightarrow> json" where
  "session_entry fmt d m =
     (let x = metas d m;
          pid = (case workers d (SessionID x) of None \<Rightarrow> 0 | Some h \<Rightarrow> Pid (handles d h))
      in JObj [(''session_id'', JStr (SessionID x)), (''bot_id'', JStr (BotID x)),
               (''cli_type'', JStr (CliType x)), (''status'', JStr (status_string (Status x))),
               (''pid'', JNum (itoa pid)), (''last_active'', JStr (fmt (LastActive x))),
               (''outputs'', JArr (map JStr (SnapshotOutput x)))])"

definition handleListSessions :: "(time \<Rightarrow> string) \<Rightarrow> mref list \<Rightarrow> time \<Rightarrow> conn \<Rightarrow> Daemon \<Rightarrow> Daemon" where
  "handleListSessions fmt order now c d =
     write_conn c (NewMessage now MsgListSessionsRsp [] (json_encode (JArr (map (session_entry fmt d) order)))) d"

definition handleHistory :: "time \<Rightarrow> conn \<Rightarrow> string \<Rightarrow> Daemon \<Rightarrow> Daemon" where
  "handleHistory now c sid d =
     (if sid = [] then write_conn c (NewMessage now MsgError [] ''missing session_id'') d
      else case sessions d sid of
        None \<Rightarrow> write_conn c (NewMessage now MsgError sid ''session not found'') d
      | Some m \<Rightarrow> write_conn c (NewMessage now MsgHistoryRsp sid
                     (json_encode (JArr (map JStr (SnapshotOutput (metas d m)))))) d)"

text \<open>The result is the session to close and the reason, for the goroutine that closes it.\<close>

definition handleCloseSession :: "time \<Rightarrow> conn \<Rightarrow> string \<Rightarrow> string \<Rightarrow> Daemon \<Rightarrow> Daemon \<times> (string \<times> string) option" where
  "handleCloseSession now c sid reason d =
     (if sid = [] then (write_conn c (NewMessage now MsgError [] ''missing session_id'') d, None)
      else
        let reason = (if reason = [] then ''client request'' else reason) in
        if sessions d sid = None then (write_conn c (NewMessage now MsgError sid ''session not found'') d, None)
        else (write_conn c (NewMessage now MsgCloseSessionAck sid ''ok'') d, Some (sid, reason)))"

section \<open>Forwarding a session to a client\<close>

text \<open>
  The state of the goroutine that forwards a session's output to one client. It is woken on a
  log when the log's notification channel is no longer the one it holds, on \<open>fs_stop\<close> by the
  functions registered with \<open>AddOnClose\<close>. A \<open>select\<close> with several ready cases may take any.
\<close>

record forwarder =
  fs_meta :: mref
  fs_conn :: conn
  fs_cursor :: u64
  fs_outputCh :: "chan option"
  fs_terminalCursor :: u64
  fs_terminalCh :: "chan option"
  fs_stop :: chan
  fs_done :: bool

definition output_ready :: "forwarder \<Rightarrow> Daemon \<Rightarrow> bool" where
  "output_ready fs d = (fs_outputCh fs \<noteq> outputNotifyCh (metas d (fs_meta fs)))"

definition terminal_ready :: "forwarder \<Rightarrow> Daemon \<Rightarrow> bool" where
  "terminal_ready fs d = (fs_terminalCh fs \<noteq> terminalNotifyCh (metas d (fs_meta fs)))"

text \<open>Writing a list of messages; \<open>fail_at\<close> is the index of the write that fails, if one does.\<close>

fun write_all_msgs :: "conn \<Rightarrow> nat option \<Rightarrow> Message list \<Rightarrow> Daemon \<Rightarrow> Daemon \<times> bool" where
  "write_all_msgs c fail_at [] d = (d, True)"
| "write_all_msgs c (Some 0) (m # ms) d = (d, False)"
| "write_all_msgs c (Some (Suc k)) (m # ms) d = write_all_msgs c (Some k) ms (write_conn c m d)"
| "write_all_msgs c None (m # ms) d = write_all_msgs c None ms (write_conn c m d)"

definition forward_output :: "time \<Rightarrow> nat option \<Rightarrow> forwarder \<Rightarrow> Daemon \<Rightarrow> forwarder \<times> Daemon" where
  "forward_output now fail_at fs d =
     (let m = fs_meta fs;
          (x, outs, nxt, nextCh) = SnapshotOutputSince (metas d m) (fs_cursor fs);
          d = upd_meta m (\<lambda>_. x) d;
          fs = fs\<lparr>fs_cursor := nxt, fs_outputCh := nextCh\<rparr>;
          (d, ok) = write_all_msgs (fs_conn fs) fail_at (map (NewMessage now MsgOutput (sid_of d m)) outs) d
      in (fs\<lparr>fs_done := \<not> ok\<rparr>, d))"

text \<open>After the first terminal (written or not) the goroutine returns.\<close>

definition forward_terminal :: "time \<Rightarrow> string option \<Rightarrow> forwarder \<Rightarrow> Daemon \<Rightarrow> forwarder \<times> Daemon" where
  "forward_terminal now wr fs d =
     (let m = fs_meta fs;
          (x, ts, nxt, nextCh) = SnapshotTerminalsSince (metas d m) (fs_terminalCursor fs);
          d = upd_meta m (\<lambda>_. x) d;
          fs = fs\<lparr>fs_terminalCursor := nxt, fs_terminalCh := nextCh\<rparr>
      in case ts of
           [] \<Rightarrow> (fs, d)
         | t # _ \<Rightarrow>
             (fs\<lparr>fs_done := True\<rparr>,
              if wr = None then write_conn (fs_conn fs) (NewMessage now MsgTurnCompleted (sid_of d m) (encode_terminal t)) d
              else d))"

text \<open>
  \<open>forwardClientMessage\<close>. \<open>env\<close> runs while it waits for the worker to be ready; \<open>stop\<close> is a
  fresh channel. The result is the forwarding goroutine it started, if it did.
\<close>

definition forward_ready ::
  "string option \<Rightarrow> time \<Rightarrow> chan \<Rightarrow> conn \<Rightarrow> Message \<Rightarrow> mref \<Rightarrow> href \<Rightarrow> Daemon \<Rightarrow> Daemon \<times> forwarder option" where
  "forward_ready wr now stop c msg m h d =
     (let fail = (\<lambda>text d. (write_conn c (NewMessage now MsgError (msg_SessionID msg) text) d, None));
          (x, cursor, outputCh) = OutputSubscription (metas d m);
          d = upd_meta m (\<lambda>_. x) d;
          (x, terminalCursor, terminalCh) = TerminalSubscription (metas d m);
          d = upd_meta m (\<lambda>_. x) d;
          start = (\<lambda>d. (upd_meta m (\<lambda>x. AddOnClose x stop) d,
                     Some \<lparr>fs_meta = m, fs_conn = c, fs_cursor = cursor, fs_outputCh = outputCh,
                           fs_terminalCursor = terminalCursor, fs_terminalCh = terminalCh,
                           fs_stop = stop, fs_done = False\<rparr>))
      in if msg_Type msg = MsgUserInput then
           (case (if CliType (metas d m) = CliCodex then beginCodexTurnIfReady m d else (d, None)) of
              (d, Some e) \<Rightarrow> fail e d
            | (d, None) \<Rightarrow>
                (case send_handle wr h msg d of
                   (d, Some e) \<Rightarrow> fail (''forward: '' @ e) (upd_meta m FinishTurn d)
                 | (d, None) \<Rightarrow> start (upd_meta m (\<lambda>x. touchActive x now) d)))
         else start d)"

definition forwardClientMessage ::
  "save_io \<Rightarrow> string option \<Rightarrow> time \<Rightarrow> (Daemon \<Rightarrow> Daemon) \<Rightarrow> chan \<Rightarrow> conn \<Rightarrow> Message \<Rightarrow> Daemon \<Rightarrow> Daemon \<times> forwarder option" where
  "forwardClientMessage io wr now env stop c msg d =
     (let fail = (\<lambda>text d. (write_conn c (NewMessage now MsgError (msg_SessionID msg) text) d, None)) in
      if msg_Type msg = MsgClose then (CloseSession io wr now (msg_SessionID msg) ''client close'' d, None)
      else if msg_SessionID msg = [] then fail ''missing session_id'' d
      else case sessions d (msg_SessionID msg) of
        None \<Rightarrow> fail ''session not found'' d
      | Some m \<Rightarrow>
          if Closed (metas d m) then fail ''session is closed'' d
          else case workers d (msg_SessionID msg) of
            None \<Rightarrow> fail ''worker not available'' d
          | Some h \<Rightarrow>
              let d = env d in
              if \<not> isReady (handles d h) then fail ''worker not connected'' d
              else forward_ready wr now stop c msg m h d)"

section \<open>A client's first message\<close>

record newSessionPayload =
  np_bot_id :: string
  np_codex_profile :: string

definition payload_fields :: "newSessionPayload field list" where
  "payload_fields =
     [(''bot_id'', string_field (\<lambda>s p. p\<lparr>np_bot_id := s\<rparr>)),
      (''codex_profile'', string_field (\<lambda>s p. p\<lparr>np_codex_profile := s\<rparr>))]"

text \<open>
  A payload that does not decode is the bot id itself. (\<open>partial\<close> is what \<open>json.Unmarshal\<close>
  had already stored in the profile when it failed.)
\<close>

definition decode_new_session :: "(string \<Rightarrow> string) \<Rightarrow> string \<Rightarrow> newSessionPayload" where
  "decode_new_session partial payload =
     (case unmarshal payload_fields \<lparr>np_bot_id = [], np_codex_profile = []\<rparr> payload of
        Some p \<Rightarrow> p
      | None \<Rightarrow> \<lparr>np_bot_id = payload, np_codex_profile = partial payload\<rparr>)"

definition client_session_id :: "time \<Rightarrow> string \<Rightarrow> string" where
  "client_session_id now sid = (if sid = [] then ''s-'' @ itoa now else sid)"

text \<open>
  The \<open>new_session\<close> request (lines 1392 to 1430). \<open>env\<close> runs between the registration and
  the spawn, \<open>wait\<close> while the client waits for the worker's \<open>Ready\<close>; the result says
  whether the connection goes on.
\<close>

definition client_new_session ::
  "(string \<Rightarrow> string + string) \<Rightarrow> (string \<Rightarrow> string) \<Rightarrow> spawn_world \<Rightarrow> save_io \<Rightarrow> string option
     \<Rightarrow> (Daemon \<Rightarrow> Daemon) \<Rightarrow> (Daemon \<Rightarrow> Daemon) \<Rightarrow> time \<Rightarrow> conn \<Rightarrow> Message \<Rightarrow> Daemon \<Rightarrow> Daemon \<times> bool" where
  "client_new_session validate partial w io rm env wait now c first d =
     (let sid = client_session_id now (msg_SessionID first);
          payload = decode_new_session partial (Payload first)
      in case NewSession validate w io rm env
                \<lparr>no_SessionID = sid, no_BotID = np_bot_id payload, no_CliType = [], no_CliPath = [],
                 no_WorkingDir = [], no_CodexProfile = np_codex_profile payload\<rparr> d of
           (d, Inl e) \<Rightarrow> (write_conn c (NewMessage now MsgAck sid (''err:'' @ err_text e)) d, False)
         | (d, Inr m) \<Rightarrow>
             let h = workers d sid;
                 d = wait (write_conn c (NewMessage now MsgAck sid ''ok'') d)
             in (case h of
                   None \<Rightarrow> (d, False)
                 | Some h \<Rightarrow>
                     if isReady (handles d h) then (write_conn c (NewMessage now MsgReady sid []) d, True)
                     else (d, False)))"

text \<open>
  \<open>handleClientConn\<close>: the first message, then every later one to \<open>forwardClientMessage\<close>.
  Each message comes with what the world contributes to it; the result carries the forwarding
  goroutines started, and the session a \<open>close_session\<close> request asks to close.
\<close>

record client_world =
  cw_io :: save_io
  cw_wr :: "string option"
  cw_now :: time
  cw_env :: "Daemon \<Rightarrow> Daemon"
  cw_stop :: chan

fun forward_messages ::
  "conn \<Rightarrow> (client_world \<times> Message) list \<Rightarrow> Daemon \<Rightarrow> Daemon \<times> forwarder list" where
  "forward_messages c [] d = (d, [])"
| "forward_messages c ((w, msg) # msgs) d =
     (let (d, fs) = forwardClientMessage (cw_io w) (cw_wr w) (cw_now w) (cw_env w) (cw_stop w) c msg d;
          (d, rest) = forward_messages c msgs d
      in (d, (case fs of None \<Rightarrow> rest | Some f \<Rightarrow> f # rest)))"

definition handleClientConn ::
  "(time \<Rightarrow> string) \<Rightarrow> mref list \<Rightarrow> (string \<Rightarrow> string + string) \<Rightarrow> (string \<Rightarrow> string) \<Rightarrow> spawn_world
     \<Rightarrow> string option \<Rightarrow> (Daemon \<Rightarrow> Daemon) \<Rightarrow> conn \<Rightarrow> client_world \<times> Message
     \<Rightarrow> (client_world \<times> Message) list \<Rightarrow> Daemon
     \<Rightarrow> Daemon \<times> forwarder list \<times> (string \<times> string) option" where
  "handleClientConn fmt order validate partial w rm wait c first msgs d =
     (let (cw, msg) = first; typ = msg_Type msg; sid = msg_SessionID msg in
      if typ = MsgListSessions then (handleListSessions fmt order (cw_now cw) c d, [], None)
      else if typ = MsgHistory then (handleHistory (cw_now cw) c sid d, [], None)
      else if typ = MsgCloseSession then
        (case handleCloseSession (cw_now cw) c sid (Payload msg) d of (d, act) \<Rightarrow> (d, [], act))
      else if typ = MsgNewSession then
        (case client_new_session validate partial w (cw_io cw) rm (cw_env cw) wait (cw_now cw) c msg d of
           (d, False) \<Rightarrow> (d, [], None)
         | (d, True) \<Rightarrow> (case forward_messages c msgs d of (d, fs) \<Rightarrow> (d, fs, None)))
      else if sid \<noteq> [] then
        (case forward_messages c (first # msgs) d of (d, fs) \<Rightarrow> (d, fs, None))
      else (case forward_messages c msgs d of (d, fs) \<Rightarrow> (d, fs, None)))"

end
