(* ===== verification/Daemon_Monitor.thy ===== *)
theory Daemon_Monitor
  imports Daemon_Lifecycle
begin

text \<open>
  The daemon's background work (\<open>session_monitor.go\<close>, \<open>runGC\<close>, \<open>Start\<close> and \<open>Stop\<close> of
  \<open>daemon.go\<close>): starting workers for sessions that have none, with a budget of failed starts
  and a cool-down; closing idle sessions and sessions whose worker fell silent; shutting down.
\<close>

definition monitorInterval :: duration where "monitorInterval = 1 * Second"
definition workerAliveTimeout :: duration where "workerAliveTimeout = 30 * Second"
definition maxSpawnRetries :: nat where "maxSpawnRetries = 5"
definition spawnRetryCooldown :: duration where "spawnRetryCooldown = 1 * Minute"
definition monitorStartDelay :: duration where "monitorStartDelay = 3 * Second"
definition maxConcurrentSpawns :: nat where "maxConcurrentSpawns = 5"

section \<open>The monitor\<close>

definition startSessionMonitor :: "Daemon \<Rightarrow> Daemon" where
  "startSessionMonitor d = (if monitorStop d then d else d\<lparr>monitorStop := True, spawnFailures := Map.empty\<rparr>)"

definition stopSessionMonitor :: "Daemon \<Rightarrow> Daemon" where
  "stopSessionMonitor d = d\<lparr>monitorStop := False\<rparr>"

text \<open>Whether a session needs a worker: it has none, or one that is dead and not just starting.\<close>

definition needs_spawn :: "time \<Rightarrow> mref \<Rightarrow> Daemon \<Rightarrow> bool" where
  "needs_spawn now m d =
     (case workers d (sid_of d m) of
        None \<Rightarrow> True
      | Some h \<Rightarrow> \<not> IsAlive (handles d h) now \<and> Status (metas d m) \<noteq> StatusSpawning)"

text \<open>The retry budget, under \<open>monitorMu\<close>: whether a start is allowed now.\<close>

definition spawn_gate :: "time \<Rightarrow> string \<Rightarrow> Daemon \<Rightarrow> Daemon \<times> bool" where
  "spawn_gate now sid d =
     (let sf = (case spawnFailures d sid of None \<Rightarrow> zero_failure | Some sf \<Rightarrow> sf) in
      if maxSpawnRetries \<le> sf_count sf \<and> time_sub now (lastRetry sf) < spawnRetryCooldown
      then (d\<lparr>spawnFailures := (spawnFailures d)(sid \<mapsto> sf\<lparr>exhaustedLogged := True\<rparr>)\<rparr>, False)
      else (d\<lparr>spawnFailures := (spawnFailures d)(sid \<mapsto> sf\<lparr>lastRetry := now, exhaustedLogged := False\<rparr>)\<rparr>, True))"

text \<open>One session of a pass: whether a goroutine is started that will spawn.\<close>

definition reconcile_one :: "time \<Rightarrow> mref \<Rightarrow> Daemon \<Rightarrow> Daemon \<times> bool" where
  "reconcile_one now m d =
     (if Closed (metas d m) then (d, False)
      else if needs_spawn now m d then spawn_gate now (sid_of d m) d
      else (d, False))"

text \<open>That goroutine, once it has one of the five spawn slots.\<close>

definition reconcile_spawn :: "spawn_world \<Rightarrow> mref \<Rightarrow> Daemon \<Rightarrow> Daemon" where
  "reconcile_spawn w m d =
     (case spawnWorkerForSession w m d of
        (d, Some e) \<Rightarrow> fst (recordSpawnFailure (sw_now w) (sid_of d m) d)
      | (d, None) \<Rightarrow> d)"

text \<open>
  A pass over the sessions in the order Go's range visits them, each start running before the
  next session is looked at; \<open>env m\<close> is what other goroutines do between the decision for
  \<open>m\<close> and its start.
\<close>

fun reconcileSessions ::
  "(mref \<Rightarrow> spawn_world) \<Rightarrow> (mref \<Rightarrow> Daemon \<Rightarrow> Daemon) \<Rightarrow> time \<Rightarrow> mref list \<Rightarrow> Daemon \<Rightarrow> Daemon" where
  "reconcileSessions w env now [] d = d"
| "reconcileSessions w env now (m # ms) d =
     (case reconcile_one now m d of
        (d, True) \<Rightarrow> reconcileSessions w env now ms (reconcile_spawn (w m) m (env m d))
      | (d, False) \<Rightarrow> reconcileSessions w env now ms d)"

section \<open>Garbage collection\<close>

definition idleLimit :: duration where "idleLimit = 15 * Minute"
definition hbLimit :: duration where "hbLimit = 20 * Second"

text \<open>The reason to close a session now, if there is one.\<close>

definition gc_reason :: "time \<Rightarrow> mref \<Rightarrow> Daemon \<Rightarrow> string option" where
  "gc_reason now m d =
     (if Closed (metas d m) then None
      else
        let stale = (case workers d (sid_of d m) of
                       None \<Rightarrow> False
                     | Some h \<Rightarrow> hbLimit < time_sub now (LastHb (handles d h)) \<and> IsReady (handles d h))
        in if stale then Some ''heartbeat stale''
           else if idleLimit < time_sub now (LastActive (metas d m)) then Some ''idle''
           else None)"

fun runGC ::
  "(mref \<Rightarrow> save_io) \<Rightarrow> (mref \<Rightarrow> string option) \<Rightarrow> time \<Rightarrow> mref list \<Rightarrow> Daemon \<Rightarrow> Daemon" where
  "runGC io wr now [] d = d"
| "runGC io wr now (m # ms) d =
     runGC io wr now ms
       (case gc_reason now m d of
          None \<Rightarrow> d
        | Some reason \<Rightarrow> CloseSession (io m) (wr m) now (sid_of d m) reason d)"

section \<open>Starting and stopping the daemon\<close>

text \<open>\<open>dirs\<close> and \<open>listen\<close> are the errors of \<open>EnsureDirs\<close> and \<open>net.Listen\<close>, if any.\<close>

definition Start :: "string option \<Rightarrow> string option \<Rightarrow> time \<Rightarrow> readdir \<Rightarrow> Daemon \<Rightarrow> Daemon \<times> string option" where
  "Start dirs listen now rd d =
     (case dirs of
        Some e \<Rightarrow> (d, Some e)
      | None \<Rightarrow>
          (case listen of
             Some e \<Rightarrow> (d, Some (''listen '' @ ListenAddr (cfg d) @ '': '' @ e))
           | None \<Rightarrow> (startSessionMonitor (restoreSessions now rd (d\<lparr>startedAt := now\<rparr>)), None)))"

definition restart_for_shutdown :: "time \<Rightarrow> (href \<Rightarrow> string option) \<Rightarrow> Daemon \<Rightarrow> href \<Rightarrow> Daemon" where
  "restart_for_shutdown now wr d h =
     fst (send_handle (wr h) h (NewMessage now MsgRestartWorker (wh_SessionID (handles d h)) ''daemon shutdown'') d)"

definition restartWorkersForShutdown :: "time \<Rightarrow> (href \<Rightarrow> string option) \<Rightarrow> href list \<Rightarrow> Daemon \<Rightarrow> Daemon" where
  "restartWorkersForShutdown now wr hs d = foldl (restart_for_shutdown now wr) d hs"

text \<open>
  \<open>waitForWorkersExit\<close>, as a loop over what it receives: the exit of a worker (each worker's
  goroutine reports it once) and the deadline. Its state is the list of workers that have
  exited and whether the deadline has passed; it returns when \<open>remaining\<close> is zero.
\<close>

datatype exit_event = WorkerExited href | Deadline

record exit_wait =
  ew_exited :: "href list"
  ew_remaining :: nat
  ew_late :: bool

fun wait_event :: "href list \<Rightarrow> exit_wait \<times> Daemon \<Rightarrow> exit_event \<Rightarrow> exit_wait \<times> Daemon" where
  "wait_event hs (w, d) (WorkerExited h) =
     ((if h \<in> set (ew_exited w) then w
       else w\<lparr>ew_exited := h # ew_exited w, ew_remaining := ew_remaining w - 1\<rparr>), d)"
| "wait_event hs (w, d) Deadline =
     (if ew_late w then (w, d)
      else (w\<lparr>ew_late := True\<rparr>,
            foldl (\<lambda>d h. if h \<in> set (ew_exited w) then d else kill_process h d) d hs))"

fun waitForWorkersExit :: "href list \<Rightarrow> exit_event list \<Rightarrow> exit_wait \<times> Daemon \<Rightarrow> exit_wait \<times> Daemon" where
  "waitForWorkersExit hs [] s = s"
| "waitForWorkersExit hs (e # es) s =
     (if ew_remaining (fst s) = 0 then s else waitForWorkersExit hs es (wait_event hs s e))"

definition start_wait :: "href list \<Rightarrow> exit_wait" where
  "start_wait hs = \<lparr>ew_exited = [], ew_remaining = length hs, ew_late = False\<rparr>"

text \<open>
  \<open>Stop\<close> reads the map of workers twice, and asks and waits for what it finds: \<open>hs1\<close> and \<open>hs2\<close> are
  the workers registered then, in the order Go's range visits them; \<open>env\<close> is what other goroutines
  do between the two. While exits are still awaited it has not returned, and the context is not
  cancelled.
\<close>

definition stop_request :: "time \<Rightarrow> (href \<Rightarrow> string option) \<Rightarrow> href list \<Rightarrow> Daemon \<Rightarrow> Daemon" where
  "stop_request now wr hs d = restartWorkersForShutdown now wr hs (stopSessionMonitor (d\<lparr>d_closed := True\<rparr>))"

definition Stop ::
  "time \<Rightarrow> (href \<Rightarrow> string option) \<Rightarrow> href list \<Rightarrow> (Daemon \<Rightarrow> Daemon) \<Rightarrow> href list \<Rightarrow> exit_event list
     \<Rightarrow> Daemon \<Rightarrow> Daemon" where
  "Stop now wr hs1 env hs2 es d =
     (if d_closed d then d
      else
        let d = env (stop_request now wr hs1 d);
            (w, d) = waitForWorkersExit hs2 es (start_wait hs2, d)
        in if ew_remaining w = 0 then d\<lparr>ctxDone := True\<rparr> else d)"

end
