(* ===== verification/Daemon_System.thy ===== *)
theory Daemon_System
  imports Daemon_Router Daemon_Monitor
begin

text \<open>
  The daemon as a whole: every critical section of its goroutines is an action, and any
  sequence of actions is a run. The arguments of an action are what its goroutine carries with
  it (a session record, a worker handle, a message), however stale they have become, so a run is
  an arbitrary interleaving of arbitrarily many goroutines. The handlers of the other theories
  are such runs (\<open>steps_to\<close>), whatever other goroutines do while they block.
\<close>

datatype daemon_act =
    ARegister save_io SessionMeta
  | ARestore time PersistedSession
  | ARollback "string option" mref
  | ASpawn spawn_world mref
  | ACloseHandle href
  | AKill href
  | AStore "SessionStore \<Rightarrow> SessionStore \<times> string option"
  | APersist mref "SessionStore \<Rightarrow> SessionStore \<times> string option"
  | AReadyTimeout mref
  | AStartupFailure href
  | ARecordFailure time string
  | AClearFailure string
  | AExit href
  | AExitDone href
  | ARunOnClose mref
  | AMarkClosed save_io time mref bool
  | APurgeMaps string
  | ABeginTurn mref
  | AFinishTurn mref
  | ABeginCancel mref
  | AWatch mref u64
  | AFailCancel mref u64 string string
  | ACommitCancel mref u64 "href option" string
  | AMarkRestart mref
  | AAdmit time "string option" conn "Message option"
  | ALeave conn
  | AReady mref href
  | AMarkReady href
  | AHeartbeat href time
  | AOutput mref string
  | ATouch mref time
  | ABind mref string
  | AComplete mref TurnTerminal
  | ASend "string option" href Message
  | AWrite conn Message
  | ACloseConn conn
  | AReadOutput mref u64
  | AReadTerminals mref u64
  | AAddOnClose mref chan
  | AGate time string
  | AStartMonitor
  | AStopMonitor
  | AShutdown
  | ACancelContext
  | AStarted time

text \<open>The status section of \<open>monitorReady\<close> (lines 424 to 430).\<close>

definition ready_timeout_section :: "mref \<Rightarrow> Daemon \<Rightarrow> Daemon \<times> bool" where
  "ready_timeout_section m d =
     (if \<not> Closed (metas d m) \<and> Status (metas d m) \<noteq> StatusReady
      then (set_status m StatusRecovering d, True) else (d, False))"

text \<open>The map updates of \<open>PurgeSession\<close>.\<close>

definition purge_maps :: "string \<Rightarrow> Daemon \<Rightarrow> Daemon" where
  "purge_maps i d =
     (let d = (case workers d i of None \<Rightarrow> d | Some h \<Rightarrow> fst (deleteWorkerIfCurrentLocked i h d))
      in d\<lparr>sessions := (sessions d)(i := None)\<rparr>)"

text \<open>The part of \<open>spawnWorkerForSession\<close> under \<open>closeMu\<close> (lines 334 to 399).\<close>

definition spawn_core :: "spawn_world \<Rightarrow> mref \<Rightarrow> Daemon \<Rightarrow> Daemon \<times> go_err option \<times> href option \<times> href" where
  "spawn_core w m d =
     (if d_closed d then (d, Some ErrDaemonClosed, None, 0)
      else case newWorkerInstanceID (sw_rand w) of
        Inl e \<Rightarrow> (d, Some (Errorf (''generate worker instance ID: '' @ e)), None, 0)
      | Inr instanceID \<Rightarrow>
          if instanceID = [] then (d, Some (Errorf ''generate worker instance ID: empty value''), None, 0)
          else
            let (d, h) = alloc_handle ((NewWorkerHandle (sw_now w) (sid_of d m))\<lparr>InstanceID := instanceID\<rparr>) d;
                (d, err, existing) = spawn_section m h (sw_start w) d
            in (d, err, existing, h))"

definition register_new :: "save_io \<Rightarrow> SessionMeta \<Rightarrow> Daemon \<Rightarrow> Daemon \<times> string option \<times> mref" where
  "register_new io x d =
     (let (d, m) = alloc_meta x d; (d, err) = register_session io m d in (d, err, m))"

fun exec :: "Daemon \<Rightarrow> daemon_act \<Rightarrow> Daemon" where
  "exec d (ARegister io x) = fst (register_new io x d)"
| "exec d (ARestore now ps) = restore_one now d ps"
| "exec d (ARollback rm m) = rollbackNewSession rm m d"
| "exec d (ASpawn w m) = fst (spawn_core w m d)"
| "exec d (ACloseHandle h) = close_handle h d"
| "exec d (AKill h) = kill_process h d"
| "exec d (AStore f) = upd_store f d"
| "exec d (APersist m f) = persistCurrentSession m f d"
| "exec d (AReadyTimeout m) = fst (ready_timeout_section m d)"
| "exec d (AStartupFailure h) = upd_handle h (\<lambda>x. fst (markStartupFailure x)) d"
| "exec d (ARecordFailure now sid) = fst (recordSpawnFailure now sid d)"
| "exec d (AClearFailure sid) = clearSpawnFailure sid d"
| "exec d (AExit h) = fst (exit_section h d)"
| "exec d (AExitDone h) = upd_handle h (\<lambda>x. x\<lparr>ExitDone := True\<rparr>) d"
| "exec d (ARunOnClose m) = run_on_close m d"
| "exec d (AMarkClosed io now m b) = fst (markSessionMetaClosed io now m b d)"
| "exec d (APurgeMaps i) = purge_maps i d"
| "exec d (ABeginTurn m) = fst (beginCodexTurnIfReady m d)"
| "exec d (AFinishTurn m) = upd_meta m FinishTurn d"
| "exec d (ABeginCancel m) = fst (beginTurnCancelIfCurrent m d)"
| "exec d (AWatch m tok) = fst (watch_section m tok d)"
| "exec d (AFailCancel m tok c t) = fst (finishCancelWithFailure m tok c t d)"
| "exec d (ACommitCancel m tok ho e) = fst (commitCancelSendFailureIfCurrent m tok ho e d)"
| "exec d (AMarkRestart m) = fst (markCurrentWorkerRestartPending m d)"
| "exec d (AAdmit now wr c msg) = fst (admit now wr c msg d)"
| "exec d (ALeave c) = leave_conn c d"
| "exec d (AReady m h) = fst (ready_section m h d)"
| "exec d (AMarkReady h) = upd_handle h markReady d"
| "exec d (AHeartbeat h now) = upd_handle h (\<lambda>x. TouchHb x now) d"
| "exec d (AOutput m line) = upd_meta m (\<lambda>x. AddOutput x line) d"
| "exec d (ATouch m now) = upd_meta m (\<lambda>x. touchActive x now) d"
| "exec d (ABind m cid) = upd_meta m (\<lambda>x. SetCliSessionID x cid) d"
| "exec d (AComplete m t) = upd_meta m (\<lambda>x. fst (CompleteTurn x t)) d"
| "exec d (ASend wr h msg) = fst (send_handle wr h msg d)"
| "exec d (AWrite c msg) = write_conn c msg d"
| "exec d (ACloseConn c) = close_conn c d"
| "exec d (AReadOutput m c) = upd_meta m (\<lambda>x. fst (SnapshotOutputSince x c)) d"
| "exec d (AReadTerminals m c) = upd_meta m (\<lambda>x. fst (SnapshotTerminalsSince x c)) d"
| "exec d (AAddOnClose m fn) = upd_meta m (\<lambda>x. AddOnClose x fn) d"
| "exec d (AGate now sid) = fst (spawn_gate now sid d)"
| "exec d AStartMonitor = startSessionMonitor d"
| "exec d AStopMonitor = stopSessionMonitor d"
| "exec d AShutdown = d\<lparr>d_closed := True\<rparr>"
| "exec d ACancelContext = d\<lparr>ctxDone := True\<rparr>"
| "exec d (AStarted now) = d\<lparr>startedAt := now\<rparr>"

section \<open>What the actions change\<close>

text \<open>
  Two states agree on the core when they have the same session, worker and restart maps and
  every record and handle kept its session id: most actions leave the core alone.
\<close>

definition same_core :: "Daemon \<Rightarrow> Daemon \<Rightarrow> bool" where
  "same_core d d' \<longleftrightarrow> sessions d' = sessions d \<and> workers d' = workers d
     \<and> workerOwners d' = workerOwners d \<and> pendingRestart d' = pendingRestart d
     \<and> nextMeta d' = nextMeta d \<and> nextHandle d' = nextHandle d
     \<and> (\<forall>m. SessionID (metas d' m) = SessionID (metas d m))
     \<and> (\<forall>h. wh_SessionID (handles d' h) = wh_SessionID (handles d h))"

fun touches_core :: "daemon_act \<Rightarrow> bool" where
  "touches_core (ARegister io x) = True"
| "touches_core (ARestore now ps) = True"
| "touches_core (ARollback rm m) = True"
| "touches_core (ASpawn w m) = True"
| "touches_core (AExit h) = True"
| "touches_core (AMarkClosed io now m b) = True"
| "touches_core (APurgeMaps i) = True"
| "touches_core (AWatch m tok) = True"
| "touches_core (AMarkRestart m) = True"
| "touches_core _ = False"

lemma same_core_meta: "(\<And>x. SessionID (f x) = SessionID x) \<Longrightarrow> same_core d (upd_meta m f d)"
  by (simp add: same_core_def)

lemma same_core_handle: "(\<And>x. wh_SessionID (f x) = wh_SessionID x) \<Longrightarrow> same_core d (upd_handle h f d)"
  by (simp add: same_core_def)

lemma session_id_reads [simp]:
  "SessionID (fst (SnapshotOutputSince x c)) = SessionID x" "Closed (fst (SnapshotOutputSince x c)) = Closed x"
  "Status (fst (SnapshotOutputSince x c)) = Status x"
  "SessionID (fst (SnapshotTerminalsSince x c)) = SessionID x" "Closed (fst (SnapshotTerminalsSince x c)) = Closed x"
  "Status (fst (SnapshotTerminalsSince x c)) = Status x"
  by (simp_all add: SnapshotOutputSince_def SnapshotTerminalsSince_def Let_def)

lemma commit_cases:
  "fst (commitCancelSendFailureIfCurrent m tok ho e d) = d \<or>
   fst (commitCancelSendFailureIfCurrent m tok ho e d) =
     upd_meta m (\<lambda>x. fst (FailCancellingTurn x tok (failed_terminal ''codex_cancel_failed'' e))) d"
  by (auto simp: commitCancelSendFailureIfCurrent_def Let_def upd_meta_def case_prod_unfold)

lemma fail_cancel_cases:
  "fst (finishCancelWithFailure m tok c t d) = d \<or>
   fst (finishCancelWithFailure m tok c t d) =
     upd_meta m (\<lambda>x. fst (FailCancellingTurn x tok (failed_terminal c t))) d"
  by (auto simp: finishCancelWithFailure_def Let_def upd_meta_def case_prod_unfold)

lemma begin_cancel_cases:
  "fst (beginTurnCancelIfCurrent m d) = d \<or>
   fst (beginTurnCancelIfCurrent m d) = upd_meta m (\<lambda>x. fst (BeginTurnCancel x)) d"
  by (auto simp: beginTurnCancelIfCurrent_def beginTurnCancelIfCurrentLocked_def Let_def upd_meta_def
      case_prod_unfold)

lemma begin_turn_cases:
  "fst (beginCodexTurnIfReady m d) = d \<or>
   (\<not> Closed (metas d m) \<and> Status (metas d m) = StatusReady \<and> isCurrentSessionLocked d m \<and>
    fst (beginCodexTurnIfReady m d) = upd_meta m (\<lambda>x. fst (BeginTurn x)) d)"
  by (auto simp: beginCodexTurnIfReady_def Let_def upd_meta_def case_prod_unfold)

text \<open>Admission changes one handle's connection and what is outside the maps.\<close>

lemma io_frames [simp]:
  "metas (write_conn c msg d) = metas d" "handles (write_conn c msg d) = handles d"
  "sessions (write_conn c msg d) = sessions d" "workers (write_conn c msg d) = workers d"
  "workerOwners (write_conn c msg d) = workerOwners d" "pendingRestart (write_conn c msg d) = pendingRestart d"
  "nextMeta (write_conn c msg d) = nextMeta d" "nextHandle (write_conn c msg d) = nextHandle d"
  "store (write_conn c msg d) = store d" "d_closed (write_conn c msg d) = d_closed d"
  "metas (close_conn c d) = metas d" "handles (close_conn c d) = handles d"
  "sessions (close_conn c d) = sessions d" "workers (close_conn c d) = workers d"
  "workerOwners (close_conn c d) = workerOwners d" "pendingRestart (close_conn c d) = pendingRestart d"
  "nextMeta (close_conn c d) = nextMeta d" "nextHandle (close_conn c d) = nextHandle d"
  "store (close_conn c d) = store d" "d_closed (close_conn c d) = d_closed d"
  by (simp_all add: write_conn_def close_conn_def)

lemma admit_worker_frame:
  "metas (fst (admit_worker now wr c msg d)) = metas d"
  "sessions (fst (admit_worker now wr c msg d)) = sessions d"
  "workers (fst (admit_worker now wr c msg d)) = workers d"
  "workerOwners (fst (admit_worker now wr c msg d)) = workerOwners d"
  "pendingRestart (fst (admit_worker now wr c msg d)) = pendingRestart d"
  "nextMeta (fst (admit_worker now wr c msg d)) = nextMeta d"
  "nextHandle (fst (admit_worker now wr c msg d)) = nextHandle d"
  "wh_SessionID (handles (fst (admit_worker now wr c msg d)) h) = wh_SessionID (handles d h)"
  by (simp_all add: admit_worker_def Let_def SetConn_def split: option.splits)

lemma admit_frame [simp]:
  "metas (fst (admit now wr c msg d)) = metas d" "sessions (fst (admit now wr c msg d)) = sessions d"
  "workers (fst (admit now wr c msg d)) = workers d"
  "workerOwners (fst (admit now wr c msg d)) = workerOwners d"
  "pendingRestart (fst (admit now wr c msg d)) = pendingRestart d"
  "nextMeta (fst (admit now wr c msg d)) = nextMeta d"
  "nextHandle (fst (admit now wr c msg d)) = nextHandle d"
  "wh_SessionID (handles (fst (admit now wr c msg d)) h) = wh_SessionID (handles d h)"
  by (simp_all add: admit_def admit_worker_frame split: option.splits)

lemma same_core_refl: "same_core d d"
  by (simp add: same_core_def)

lemma quiet_same_core: "\<not> touches_core act \<Longrightarrow> same_core d (exec d act)"
proof (cases act)
  case (ABeginTurn m)
  then show ?thesis
    using begin_turn_cases [of m d] by (auto simp: same_core_def)
next
  case (ABeginCancel m)
  then show ?thesis
    using begin_cancel_cases [of m d] by (auto simp: same_core_def)
next
  case (AFailCancel m tok c t)
  then show ?thesis
    using fail_cancel_cases [of m tok c t d] by (auto simp: same_core_def)
next
  case (ACommitCancel m tok ho e)
  then show ?thesis
    using commit_cases [of m tok ho e d] by (auto simp: same_core_def)
next
  case (AReady m h)
  then show ?thesis by (simp add: ready_section_def same_core_def)
next
  case (AReadyTimeout m)
  then show ?thesis by (simp add: ready_timeout_section_def same_core_def)
qed (simp_all add: same_core_def clearSpawnFailure_def recordSpawnFailure_def leave_conn_def spawn_gate_def
      startSessionMonitor_def stopSessionMonitor_def Let_def)

section \<open>The invariant of the maps\<close>

text \<open>
  On the maps alone (\<open>S\<close> sessions, \<open>W\<close> workers, \<open>Ow\<close> owners, \<open>P\<close> pending restarts,
  \<open>nm\<close> and \<open>nh\<close> the next references, \<open>sid\<close> and \<open>wsid\<close> the ids in the objects): what is
  registered under an id has that id and was allocated; owner and worker have the same id; and while a restart is pending for the current session of an id, the
  id's worker slot holds nobody else.
\<close>

definition core_ok :: "(string \<rightharpoonup> mref) \<Rightarrow> (string \<rightharpoonup> href) \<Rightarrow> (href \<rightharpoonup> mref) \<Rightarrow> (mref \<rightharpoonup> href)
    \<Rightarrow> mref \<Rightarrow> href \<Rightarrow> (mref \<Rightarrow> string) \<Rightarrow> (href \<Rightarrow> string) \<Rightarrow> bool" where
  "core_ok S W Ow P nm nh sid wsid \<longleftrightarrow>
     (\<forall>i m. S i = Some m \<longrightarrow> sid m = i \<and> m < nm)
   \<and> (\<forall>i h. W i = Some h \<longrightarrow> wsid h = i \<and> h < nh)
   \<and> (\<forall>h m. Ow h = Some m \<longrightarrow> wsid h = sid m \<and> h < nh \<and> m < nm)
   \<and> (\<forall>m h. P m = Some h \<longrightarrow> m < nm)
   \<and> (\<forall>m h h'. P m = Some h \<longrightarrow> S (sid m) = Some m \<longrightarrow> W (sid m) = Some h' \<longrightarrow> h' = h)"

lemma core_okI:
  assumes "\<And>i m. S i = Some m \<Longrightarrow> sid m = i" and "\<And>i m. S i = Some m \<Longrightarrow> m < nm"
    and "\<And>i h. W i = Some h \<Longrightarrow> wsid h = i" and "\<And>i h. W i = Some h \<Longrightarrow> h < nh"
    and "\<And>h m. Ow h = Some m \<Longrightarrow> wsid h = sid m" and "\<And>h m. Ow h = Some m \<Longrightarrow> h < nh"
    and "\<And>h m. Ow h = Some m \<Longrightarrow> m < nm" and "\<And>m h. P m = Some h \<Longrightarrow> m < nm"
    and "\<And>m h h'. P m = Some h \<Longrightarrow> S (sid m) = Some m \<Longrightarrow> W (sid m) = Some h' \<Longrightarrow> h' = h"
  shows "core_ok S W Ow P nm nh sid wsid"
  using assms unfolding core_ok_def by blast

lemma core_okD:
  assumes "core_ok S W Ow P nm nh sid wsid"
  shows "S i = Some m \<Longrightarrow> sid m = i" and "S i = Some m \<Longrightarrow> m < nm"
    and "W i = Some h \<Longrightarrow> wsid h = i" and "W i = Some h \<Longrightarrow> h < nh"
    and "Ow h = Some m \<Longrightarrow> wsid h = sid m" and "Ow h = Some m \<Longrightarrow> h < nh"
    and "Ow h = Some m \<Longrightarrow> m < nm" and "P m = Some h \<Longrightarrow> m < nm"
    and "P m = Some h \<Longrightarrow> S (sid m) = Some m \<Longrightarrow> W (sid m) = Some h' \<Longrightarrow> h' = h"
  using assms unfolding core_ok_def by blast+

definition core_inv :: "Daemon \<Rightarrow> bool" where
  "core_inv d = core_ok (sessions d) (workers d) (workerOwners d) (pendingRestart d)
     (nextMeta d) (nextHandle d) (\<lambda>m. sid_of d m) (\<lambda>h. wh_SessionID (handles d h))"

lemmas core_invD = core_okD [OF core_inv_def [THEN iffD1]]

lemma core_inv_same: "core_inv d \<Longrightarrow> same_core d d' \<Longrightarrow> core_inv d'"
  by (simp add: core_inv_def same_core_def)

lemma core_inv_New: "core_inv (New c disk)"
  by (simp add: core_inv_def core_ok_def New_def)

text \<open>A fresh record is allocated, and may be registered.\<close>

lemma core_ok_alloc:
  assumes ok: "core_ok S W Ow P nm nh sid wsid"
  shows "core_ok S W Ow P (Suc nm) nh (sid(nm := i)) wsid"
proof (rule core_okI)
  show "(sid(nm := i)) m = j" if "S j = Some m" for j m
    using core_okD(1,2) [OF ok that] by simp
  show "m < Suc nm" if "S j = Some m" for j m using core_okD(2) [OF ok that] by simp
  show "wsid h = (sid(nm := i)) m" if "Ow h = Some m" for h m
    using core_okD(5,7) [OF ok that] by simp
  show "m < Suc nm" if "Ow h = Some m" for h m using core_okD(7) [OF ok that] by simp
  show "m < Suc nm" if "P m = Some h" for h m using core_okD(8) [OF ok that] by simp
  show "h' = h" if p: "P m = Some h" "S ((sid(nm := i)) m) = Some m" "W ((sid(nm := i)) m) = Some h'" for m h h'
  proof -
    have "(sid(nm := i)) m = sid m" using core_okD(8) [OF ok p(1)] by simp
    with p show ?thesis using core_okD(9) [OF ok p(1)] by metis
  qed
qed (fact core_okD [OF ok])+

lemma core_ok_enter:
  assumes ok: "core_ok S W Ow P nm nh sid wsid"
  shows "core_ok (S(i \<mapsto> nm)) W Ow P (Suc nm) nh (sid(nm := i)) wsid"
proof -
  note a = core_ok_alloc [OF ok, of i]
  show ?thesis
  proof (rule core_okI)
    show "(sid(nm := i)) m = j" if s: "(S(i \<mapsto> nm)) j = Some m" for j m
    proof (cases "j = i")
      case False
      with s have "S j = Some m" by simp
      from core_okD(1) [OF a this] show ?thesis .
    qed (use s in simp)
    show "m < Suc nm" if s: "(S(i \<mapsto> nm)) j = Some m" for j m
    proof (cases "j = i")
      case False
      with s have "S j = Some m" by simp
      from core_okD(2) [OF a this] show ?thesis .
    qed (use s in simp)
    show "h' = h" if p: "P m = Some h" "(S(i \<mapsto> nm)) ((sid(nm := i)) m) = Some m"
      "W ((sid(nm := i)) m) = Some h'" for m h h'
    proof -
      have "m < nm" by (rule core_okD(8) [OF ok p(1)])
      with p(2) have "S ((sid(nm := i)) m) = Some m" by (cases "(sid(nm := i)) m = i") simp_all
      from core_okD(9) [OF a p(1) this p(3)] show ?thesis .
    qed
  qed (fact core_okD [OF a])+
qed

lemma core_inv_alloc:
  assumes "core_inv d" and "sessions d' = sessions d" and "workers d' = workers d"
    and "workerOwners d' = workerOwners d" and "pendingRestart d' = pendingRestart d"
    and "nextMeta d' = Suc (nextMeta d)" and "nextHandle d' = nextHandle d" and "handles d' = handles d"
    and "\<And>m. sid_of d' m = (if m = nextMeta d then i else sid_of d m)"
  shows "core_inv d'"
proof -
  have "sid_of d' = (sid_of d)(nextMeta d := i)" using assms(9) by (auto simp: fun_eq_iff)
  with core_ok_alloc [OF assms(1) [unfolded core_inv_def], of i] assms(2-8) show ?thesis
    by (simp add: core_inv_def)
qed

lemma core_inv_enter:
  assumes "core_inv d" and "sessions d' = (sessions d)(i \<mapsto> nextMeta d)" and "workers d' = workers d"
    and "workerOwners d' = workerOwners d" and "pendingRestart d' = pendingRestart d"
    and "nextMeta d' = Suc (nextMeta d)" and "nextHandle d' = nextHandle d" and "handles d' = handles d"
    and "\<And>m. sid_of d' m = (if m = nextMeta d then i else sid_of d m)"
  shows "core_inv d'"
proof -
  have "sid_of d' = (sid_of d)(nextMeta d := i)" using assms(9) by (auto simp: fun_eq_iff)
  with core_ok_enter [OF assms(1) [unfolded core_inv_def], of i] assms(2-8) show ?thesis
    by (simp add: core_inv_def)
qed

lemma core_inv_register: "core_inv d \<Longrightarrow> core_inv (fst (register_new io x d))"
proof (cases "sessions d (SessionID x)")
  case None
  moreover assume "core_inv d"
  ultimately show ?thesis
    by (elim core_inv_enter [where i = "SessionID x"])
       (simp_all add: register_new_def alloc_meta_def register_session_def)
next
  case (Some m)
  moreover assume "core_inv d"
  ultimately show ?thesis
    by (elim core_inv_alloc [where i = "SessionID x"])
       (simp_all add: register_new_def alloc_meta_def register_session_def)
qed

lemma restored_id [simp]: "SessionID (SessionMetaFromPersisted now ps) = ps_SessionID ps"
  by (simp add: SessionMetaFromPersisted_def)

lemma core_inv_restore: "core_inv d \<Longrightarrow> core_inv (restore_one now d ps)"
  by (erule core_inv_enter [where i = "ps_SessionID ps"]) (simp_all add: restore_one_def alloc_meta_def)

text \<open>Entries leave the maps.\<close>

lemma core_ok_sub:
  assumes ok: "core_ok S W Ow P nm nh sid wsid"
    and sub: "\<And>i m. S' i = Some m \<Longrightarrow> S i = Some m" "\<And>i h. W' i = Some h \<Longrightarrow> W i = Some h"
      "\<And>h m. Ow' h = Some m \<Longrightarrow> Ow h = Some m" "\<And>m h. P' m = Some h \<Longrightarrow> P m = Some h"
  shows "core_ok S' W' Ow' P' nm nh sid wsid"
proof (rule core_okI)
  show "sid m = i" "m < nm" if "S' i = Some m" for i m using core_okD(1,2) [OF ok sub(1) [OF that]] .
  show "wsid h = i" "h < nh" if "W' i = Some h" for i h using core_okD(3,4) [OF ok sub(2) [OF that]] .
  show "wsid h = sid m" "h < nh" "m < nm" if "Ow' h = Some m" for h m
    using core_okD(5-7) [OF ok sub(3) [OF that]] .
  show "m < nm" if "P' m = Some h" for m h by (rule core_okD(8) [OF ok sub(4) [OF that]])
  show "h' = h" if "P' m = Some h" "S' (sid m) = Some m" "W' (sid m) = Some h'" for m h h'
    by (rule core_okD(9) [OF ok sub(4) [OF that(1)] sub(1) [OF that(2)] sub(2) [OF that(3)]])
qed

lemma core_inv_sub:
  assumes "core_inv d"
    and "\<And>i m. sessions d' i = Some m \<Longrightarrow> sessions d i = Some m"
    and "\<And>i h. workers d' i = Some h \<Longrightarrow> workers d i = Some h"
    and "\<And>h m. workerOwners d' h = Some m \<Longrightarrow> workerOwners d h = Some m"
    and "\<And>m h. pendingRestart d' m = Some h \<Longrightarrow> pendingRestart d m = Some h"
    and "nextMeta d' = nextMeta d" and "nextHandle d' = nextHandle d"
    and "\<And>m. sid_of d' m = sid_of d m" and "\<And>h. wh_SessionID (handles d' h) = wh_SessionID (handles d h)"
  shows "core_inv d'"
proof -
  have "sid_of d' = sid_of d" "(\<lambda>h. wh_SessionID (handles d' h)) = (\<lambda>h. wh_SessionID (handles d h))"
    using assms(8,9) by (auto simp: fun_eq_iff)
  note eqs = this assms(6,7)
  show ?thesis unfolding core_inv_def eqs
    by (rule core_ok_sub [OF assms(1) [unfolded core_inv_def]]) (fact assms(2-5))+
qed

lemma core_inv_drop_worker: "core_inv d \<Longrightarrow> core_inv (fst (deleteWorkerIfCurrentLocked sid h d))"
  by (erule core_inv_sub) (simp_all add: deleteWorkerIfCurrentLocked_def split: if_splits)

lemma core_inv_drop_owner: "core_inv d \<Longrightarrow> core_inv (d\<lparr>workerOwners := (workerOwners d)(h := None)\<rparr>)"
  by (erule core_inv_sub) (simp_all split: if_splits)

lemma core_inv_drop_session: "core_inv d \<Longrightarrow> core_inv (d\<lparr>sessions := (sessions d)(i := None)\<rparr>)"
  by (erule core_inv_sub) (simp_all split: if_splits)

text \<open>A fresh handle is allocated, and may become the worker of a current session.\<close>

lemma core_ok_handle:
  assumes ok: "core_ok S W Ow P nm nh sid wsid"
  shows "core_ok S W Ow P nm (Suc nh) sid (wsid(nh := i))"
proof (rule core_okI)
  show "(wsid(nh := i)) h = j" if "W j = Some h" for j h using core_okD(3,4) [OF ok that] by simp
  show "h < Suc nh" if "W j = Some h" for j h using core_okD(4) [OF ok that] by simp
  show "(wsid(nh := i)) h = sid m" if "Ow h = Some m" for h m using core_okD(5,6) [OF ok that] by simp
  show "h < Suc nh" if "Ow h = Some m" for h m using core_okD(6) [OF ok that] by simp
qed (fact core_okD [OF ok])+

lemma core_ok_install:
  assumes ok: "core_ok S W Ow P nm nh sid wsid" and cur: "S (sid m) = Some m"
  shows "core_ok S (W(sid m \<mapsto> nh)) (Ow(nh \<mapsto> m)) (P(m := None)) nm (Suc nh) sid (wsid(nh := sid m))"
proof (rule core_okI)
  show "(wsid(nh := sid m)) h = j" "h < Suc nh"
    if w: "(W(sid m \<mapsto> nh)) j = Some h" for j h
  proof -
    have "(j = sid m \<and> h = nh) \<or> (j \<noteq> sid m \<and> W j = Some h)" using w by (auto split: if_splits)
    then have "(wsid(nh := sid m)) h = j \<and> h < Suc nh"
      using core_okD(3,4) [OF ok, of j h] by (elim disjE conjE) simp_all
    then show "(wsid(nh := sid m)) h = j" "h < Suc nh" by auto
  qed
  show "(wsid(nh := sid m)) h = sid m'" "h < Suc nh" "m' < nm"
    if o: "(Ow(nh \<mapsto> m)) h = Some m'" for h m'
  proof -
    have "(h = nh \<and> m' = m) \<or> (h \<noteq> nh \<and> Ow h = Some m')" using o by (auto split: if_splits)
    then have "(wsid(nh := sid m)) h = sid m' \<and> h < Suc nh \<and> m' < nm"
      using core_okD(5-7) [OF ok, of h m'] core_okD(2) [OF ok cur] by (elim disjE conjE) simp_all
    then show "(wsid(nh := sid m)) h = sid m'" "h < Suc nh" "m' < nm" by auto
  qed
  show "m' < nm" if "(P(m := None)) m' = Some h" for m' h
    using that core_okD(8) [OF ok, of m' h] by (simp split: if_splits)
  show "h' = h" if p: "(P(m := None)) m' = Some h" "S (sid m') = Some m'" "(W(sid m \<mapsto> nh)) (sid m') = Some h'"
    for m' h h'
  proof -
    have "m' \<noteq> m" using p(1) by auto
    then have "sid m' \<noteq> sid m" using p(2) cur by auto
    with p \<open>m' \<noteq> m\<close> show ?thesis using core_okD(9) [OF ok, of m' h h'] by simp
  qed
qed (fact core_okD [OF ok])+

lemma core_ok_fence:
  assumes ok: "core_ok S W Ow P nm nh sid wsid" and "S (sid m) = Some m" and "W (sid m) = Some h"
  shows "core_ok S W Ow (P(m \<mapsto> h)) nm nh sid wsid"
proof (rule core_okI)
  show "m' < nm" if "(P(m \<mapsto> h)) m' = Some x" for m' x
    using that core_okD(8) [OF ok, of m' x] core_okD(2) [OF ok assms(2)] by (simp split: if_splits)
  show "h' = x" if "(P(m \<mapsto> h)) m' = Some x" "S (sid m') = Some m'" "W (sid m') = Some h'" for m' x h'
    using that core_okD(9) [OF ok, of m' x h'] assms(3) by (simp split: if_splits)
qed (fact core_okD [OF ok])+

lemma core_inv_spawn_section:
  assumes inv: "core_inv d" and x: "wh_SessionID x = sid_of d m"
  shows "core_inv (fst (spawn_section m (nextHandle d) start
           (d\<lparr>handles := (handles d)(nextHandle d := x), nextHandle := Suc (nextHandle d)\<rparr>)))"
proof -
  note ok = inv [unfolded core_inv_def]
  let ?d = "d\<lparr>handles := (handles d)(nextHandle d := x), nextHandle := Suc (nextHandle d)\<rparr>"
  have ids: "(\<lambda>h. wh_SessionID (handles ?d h)) = (\<lambda>h. wh_SessionID (handles d h))(nextHandle d := sid_of d m)"
    using x by (auto simp: fun_eq_iff)
  show ?thesis
  proof (cases "sessions d (sid_of d m) = Some m")
    case False
    have "core_inv ?d"
      using core_ok_handle [OF ok, of "sid_of d m"] ids by (simp add: core_inv_def)
    with False show ?thesis by (simp add: spawn_section_def isCurrentSessionLocked_def)
  next
    case True
    define d3 where "d3 = installWorkerLocked m (nextHandle d)
        ((set_status m StatusSpawning ?d)\<lparr>pendingRestart := (pendingRestart d)(m := None)\<rparr>)"
    have sid3: "sid_of d3 m' = sid_of d m'" for m' by (simp add: d3_def installWorkerLocked_def)
    have maps: "sessions d3 = sessions d" "workers d3 = (workers d)(sid_of d m \<mapsto> nextHandle d)"
      "workerOwners d3 = (workerOwners d)(nextHandle d \<mapsto> m)"
      "pendingRestart d3 = (pendingRestart d)(m := None)" "nextMeta d3 = nextMeta d"
      "nextHandle d3 = Suc (nextHandle d)" "handles d3 = handles ?d"
      by (simp_all add: d3_def installWorkerLocked_def)
    have "sid_of d3 = sid_of d" using sid3 by (rule ext)
    with core_ok_install [OF ok True] have "core_inv d3"
      unfolding core_inv_def maps ids by simp
    then have out: "core_inv (fst (deleteWorkerIfCurrentLocked (sid_of d m) (nextHandle d) d3))"
      by (rule core_inv_drop_worker)
    show ?thesis
    proof (cases start)
      case (Inl e)
      then have "fst (spawn_section m (nextHandle d) start ?d) =
          set_status m StatusRecovering (fst (deleteWorkerIfCurrentLocked (sid_of d m) (nextHandle d) d3))"
        using True by (simp add: spawn_section_def isCurrentSessionLocked_def Let_def d3_def installWorkerLocked_def)
      with core_inv_same [OF out] show ?thesis by (simp add: same_core_def)
    next
      case (Inr pid)
      then have "fst (spawn_section m (nextHandle d) start ?d) =
          upd_handle (nextHandle d) (\<lambda>x. x\<lparr>Pid := pid, Process := True\<rparr>) d3"
        using True by (simp add: spawn_section_def isCurrentSessionLocked_def Let_def d3_def installWorkerLocked_def)
      with core_inv_same [OF \<open>core_inv d3\<close>] show ?thesis by (simp add: same_core_def)
    qed
  qed
qed

lemma core_inv_fence:
  assumes inv: "core_inv d" and "sessions d (sid_of d m) = Some m" and "workers d (sid_of d m) = Some h"
  shows "core_inv (d\<lparr>pendingRestart := (pendingRestart d)(m \<mapsto> h)\<rparr>)"
  using core_ok_fence [OF inv [unfolded core_inv_def] assms(2,3)] by (simp add: core_inv_def)

lemma core_inv_spawn:
  assumes inv: "core_inv d"
  shows "core_inv (fst (spawn_core w m d))"
proof (cases "d_closed d")
  case False
  show ?thesis
  proof (cases "newWorkerInstanceID (sw_rand w)")
    case (Inr iid)
    with False inv core_inv_spawn_section [OF inv, of "(NewWorkerHandle (sw_now w) (sid_of d m))\<lparr>InstanceID := iid\<rparr>" m "sw_start w"]
    show ?thesis
      by (simp add: spawn_core_def alloc_handle_def case_prod_unfold Let_def NewWorkerHandle_def)
  qed (use False inv in \<open>simp add: spawn_core_def\<close>)
qed (simp add: spawn_core_def inv)

text \<open>The status update after a change of the maps leaves the core alone.\<close>

lemma core_inv_status: "core_inv d \<Longrightarrow> core_inv (set_status m st d)"
  by (erule core_inv_same) (simp add: same_core_def)

lemma core_inv_meta: "core_inv d \<Longrightarrow> SessionID x = sid_of d m \<Longrightarrow> core_inv (upd_meta m (\<lambda>_. x) d)"
  by (erule core_inv_same) (simp add: same_core_def)

lemma core_inv_exit: "core_inv d \<Longrightarrow> core_inv (fst (exit_section h d))"
  unfolding exit_section_def Let_def
  by (auto intro!: core_inv_status core_inv_drop_worker core_inv_drop_owner)

lemma core_inv_mark_closed: "core_inv d \<Longrightarrow> core_inv (fst (markSessionMetaClosed io now m b d))"
proof -
  assume inv: "core_inv d"
  have store: "core_inv d' \<Longrightarrow> core_inv (upd_store f d')" for f d'
    by (erule core_inv_same) (simp add: same_core_def)
  have "core_inv (upd_meta m (\<lambda>x. x\<lparr>Closed := True, Status := StatusClosed\<rparr>) d)"
    by (rule core_inv_same [OF inv]) (simp add: same_core_def)
  then show ?thesis
    unfolding markSessionMetaClosed_def Let_def
    by (auto intro!: store core_inv_drop_worker inv split: option.splits)
qed

lemma core_inv_purge: "core_inv d \<Longrightarrow> core_inv (purge_maps i d)"
  unfolding purge_maps_def Let_def
  by (auto intro!: core_inv_drop_session core_inv_drop_worker split: option.splits)

lemma core_inv_rollback: "core_inv d \<Longrightarrow> core_inv (rollbackNewSession rm m d)"
proof -
  assume inv: "core_inv d"
  have "core_inv (upd_store f (d\<lparr>sessions := (sessions d)(sid_of d m := None)\<rparr>))" for f
    by (rule core_inv_same [OF core_inv_drop_session [OF inv]]) (simp add: same_core_def)
  with inv show ?thesis by (simp add: rollbackNewSession_def Let_def)
qed

lemma core_inv_mark_restart: "core_inv d \<Longrightarrow> core_inv (fst (markCurrentWorkerRestartPending m d))"
proof -
  assume inv: "core_inv d"
  have st: "core_inv (set_status m StatusRecovering d)" by (rule core_inv_status [OF inv])
  have ids: "sid_of (set_status m StatusRecovering d) m = sid_of d m" by simp
  show ?thesis
  proof (cases "isCurrentSessionLocked d m \<and> \<not> Closed (metas d m)")
    case True
    then have cur: "sessions (set_status m StatusRecovering d) (sid_of (set_status m StatusRecovering d) m) = Some m"
      by (simp add: isCurrentSessionLocked_def)
    show ?thesis
      using True st core_inv_fence [OF st cur]
      by (cases "workers d (sid_of d m)") (simp_all add: markCurrentWorkerRestartPending_def Let_def)
  qed (auto simp: markCurrentWorkerRestartPending_def Let_def inv)
qed

lemma core_inv_watch: "core_inv d \<Longrightarrow> core_inv (fst (watch_section m tok d))"
proof -
  assume inv: "core_inv d"
  let ?r = "if isCurrentSessionLocked d m \<and> \<not> Closed (metas d m)
    then FailCancellingTurn (metas d m) tok cancel_timeout_terminal else (metas d m, False)"
  define d1 where "d1 = upd_meta m (\<lambda>_. fst ?r) d"
  have d1: "core_inv d1"
    unfolding d1_def by (rule core_inv_meta [OF inv]) simp
  have st: "core_inv (set_status m StatusRecovering d1)" by (rule core_inv_status [OF d1])
  have maps: "sessions d1 = sessions d" "workers d1 = workers d" "sid_of d1 m = sid_of d m"
    "pendingRestart d1 = pendingRestart d"
    by (simp_all add: d1_def)
  have form: "watch_section m tok d =
     (if snd ?r then
        (case workers d (sid_of d m) of None \<Rightarrow> set_status m StatusRecovering d1
         | Some h \<Rightarrow> (set_status m StatusRecovering d1)\<lparr>pendingRestart := (pendingRestart d)(m \<mapsto> h)\<rparr>, True)
      else (d1, False))"
    unfolding watch_section_def Let_def d1_def by (simp add: case_prod_unfold split: option.splits)
  show ?thesis
  proof (cases "snd ?r")
    case True
    then have "isCurrentSessionLocked d m" by (auto split: if_splits)
    then have cur: "sessions (set_status m StatusRecovering d1) (sid_of (set_status m StatusRecovering d1) m) = Some m"
      using maps by (simp add: isCurrentSessionLocked_def)
    with True st core_inv_fence [OF st cur] maps show ?thesis
      unfolding form by (cases "workers d (sid_of d m)") simp_all
  qed (use d1 in \<open>simp add: form\<close>)
qed

theorem core_inv_exec: "core_inv d \<Longrightarrow> core_inv (exec d act)"
proof (cases "touches_core act")
  case False
  then show "core_inv d \<Longrightarrow> core_inv (exec d act)" by (blast intro: core_inv_same quiet_same_core)
next
  case True
  then show "core_inv d \<Longrightarrow> core_inv (exec d act)"
    by (cases act) (simp_all add: core_inv_register core_inv_restore core_inv_rollback core_inv_spawn
        core_inv_exit core_inv_mark_closed core_inv_purge core_inv_watch core_inv_mark_restart)
qed

interpretation core: machine exec core_inv
  by unfold_locales (rule core_inv_exec)

lemmas core_inv_run = core.inv_run

section \<open>References only go out of use\<close>

text \<open>
  Between two states of a run the maps can lose old references and gain fresh ones, nothing
  else: a record or handle that left a map never returns to it.
\<close>

definition only_fresh :: "Daemon \<Rightarrow> Daemon \<Rightarrow> bool" where
  "only_fresh d d' \<longleftrightarrow> nextMeta d \<le> nextMeta d' \<and> nextHandle d \<le> nextHandle d'
     \<and> (\<forall>m < nextMeta d. sid_of d' m = sid_of d m)
     \<and> (\<forall>h < nextHandle d. wh_SessionID (handles d' h) = wh_SessionID (handles d h))
     \<and> (\<forall>i m. m < nextMeta d \<longrightarrow> sessions d' i = Some m \<longrightarrow> sessions d i = Some m)
     \<and> (\<forall>i h. h < nextHandle d \<longrightarrow> workers d' i = Some h \<longrightarrow> workers d i = Some h)
     \<and> (\<forall>h m. h < nextHandle d \<longrightarrow> workerOwners d' h = Some m \<longrightarrow> workerOwners d h = Some m)"

lemma only_freshD:
  assumes "only_fresh d d'"
  shows "nextMeta d \<le> nextMeta d'" and "nextHandle d \<le> nextHandle d'"
    and "m < nextMeta d \<Longrightarrow> sid_of d' m = sid_of d m"
    and "h < nextHandle d \<Longrightarrow> wh_SessionID (handles d' h) = wh_SessionID (handles d h)"
    and "m < nextMeta d \<Longrightarrow> sessions d' i = Some m \<Longrightarrow> sessions d i = Some m"
    and "h < nextHandle d \<Longrightarrow> workers d' i = Some h \<Longrightarrow> workers d i = Some h"
    and "h < nextHandle d \<Longrightarrow> workerOwners d' h = Some m \<Longrightarrow> workerOwners d h = Some m"
  using assms unfolding only_fresh_def by blast+

lemma only_fresh_same: "same_core d d' \<Longrightarrow> only_fresh d d'"
  by (simp add: same_core_def only_fresh_def)

lemma only_fresh_trans:
  assumes a: "only_fresh d d'" and b: "only_fresh d' d''"
  shows "only_fresh d d''"
  unfolding only_fresh_def
proof (intro conjI allI impI)
  fix m i assume m: "m < nextMeta d"
  then have m': "m < nextMeta d'" using only_freshD(1) [OF a] by simp
  show "sid_of d'' m = sid_of d m" using only_freshD(3) [OF a m] only_freshD(3) [OF b m'] by simp
  show "sessions d'' i = Some m \<Longrightarrow> sessions d i = Some m"
    using only_freshD(5) [OF a m] only_freshD(5) [OF b m'] by blast
next
  fix h i m assume h: "h < nextHandle d"
  then have h': "h < nextHandle d'" using only_freshD(2) [OF a] by simp
  show "wh_SessionID (handles d'' h) = wh_SessionID (handles d h)"
    using only_freshD(4) [OF a h] only_freshD(4) [OF b h'] by simp
  show "workers d'' i = Some h \<Longrightarrow> workers d i = Some h"
    using only_freshD(6) [OF a h] only_freshD(6) [OF b h'] by blast
  show "workerOwners d'' h = Some m \<Longrightarrow> workerOwners d h = Some m"
    using only_freshD(7) [OF a h] only_freshD(7) [OF b h'] by blast
qed (use only_freshD(1,2) [OF a] only_freshD(1,2) [OF b] in linarith)+

text \<open>The core after each action that touches it, as far as the maps go.\<close>

lemma fresh_drop_worker: "only_fresh d (fst (deleteWorkerIfCurrentLocked sid h d))"
  by (simp add: deleteWorkerIfCurrentLocked_def only_fresh_def)

lemma fresh_status: "only_fresh d (set_status m st d)"
  by (simp add: only_fresh_def)

lemma fresh_exit: "only_fresh d (fst (exit_section h d))"
proof -
  have "only_fresh d (d\<lparr>workerOwners := (workerOwners d)(h := None)\<rparr>)" by (simp add: only_fresh_def)
  moreover have "only_fresh d d" by (simp add: only_fresh_def)
  ultimately show ?thesis
    unfolding exit_section_def Let_def
    by (auto intro: fresh_drop_worker only_fresh_trans [OF _ fresh_status])
qed

lemma fresh_mark_closed: "only_fresh d (fst (markSessionMetaClosed io now m b d))"
proof -
  let ?d1 = "upd_meta m (\<lambda>x. x\<lparr>Closed := True, Status := StatusClosed\<rparr>) d"
  have a: "only_fresh d ?d1" by (rule only_fresh_same) (simp add: same_core_def)
  have "only_fresh d' (upd_store f d')" for f d' by (rule only_fresh_same) (simp add: same_core_def)
  note st = only_fresh_trans [OF _ this]
  have "only_fresh d d" by (simp add: only_fresh_def)
  with a show ?thesis
    unfolding markSessionMetaClosed_def Let_def
    by (auto intro!: st only_fresh_trans [OF a fresh_drop_worker] split: option.splits)
qed

lemma fresh_watch: "only_fresh d (fst (watch_section m tok d))"
  unfolding watch_section_def Let_def
  by (auto simp: only_fresh_def case_prod_unfold split: option.splits)

lemma fresh_mark_restart: "only_fresh d (fst (markCurrentWorkerRestartPending m d))"
  unfolding markCurrentWorkerRestartPending_def Let_def
  by (auto simp: only_fresh_def split: option.splits)

lemma fresh_register: "only_fresh d (fst (register_new io x d))"
  by (simp add: only_fresh_def register_new_def alloc_meta_def register_session_def)

lemma fresh_restore: "only_fresh d (restore_one now d ps)"
  by (simp add: only_fresh_def restore_one_def alloc_meta_def)

lemma fresh_rollback: "only_fresh d (rollbackNewSession rm m d)"
  by (simp add: only_fresh_def rollbackNewSession_def Let_def)

lemma fresh_purge: "only_fresh d (purge_maps i d)"
proof -
  have "only_fresh d' (d'\<lparr>sessions := (sessions d')(i := None)\<rparr>)" for d' by (simp add: only_fresh_def)
  then show ?thesis
    unfolding purge_maps_def Let_def
    by (auto intro: only_fresh_trans [OF fresh_drop_worker] split: option.splits)
qed

lemma spawn_section_frames:
  "sessions (fst (spawn_section m h start d)) = sessions d"
  "nextMeta (fst (spawn_section m h start d)) = nextMeta d"
  "nextHandle (fst (spawn_section m h start d)) = nextHandle d"
  "sid_of (fst (spawn_section m h start d)) m' = sid_of d m'"
  "wh_SessionID (handles (fst (spawn_section m h start d)) h') = wh_SessionID (handles d h')"
  "h' \<noteq> h \<Longrightarrow> workers (fst (spawn_section m h start d)) i = Some h' \<Longrightarrow> workers d i = Some h'"
  "h' \<noteq> h \<Longrightarrow> workerOwners (fst (spawn_section m h start d)) h' = workerOwners d h'"
  by (auto simp: spawn_section_def installWorkerLocked_def deleteWorkerIfCurrentLocked_def Let_def
      split: sum.splits if_splits)

lemma fresh_spawn: "only_fresh d (fst (spawn_core w m d))"
proof -
  have "only_fresh d (fst (spawn_section m (nextHandle d) start
      (d\<lparr>handles := (handles d)(nextHandle d := x), nextHandle := Suc (nextHandle d)\<rparr>)))" for start x
    unfolding only_fresh_def
    by (auto simp: spawn_section_frames(1-5,7) dest: spawn_section_frames(6) [rotated])
  moreover have "only_fresh d d" by (simp add: only_fresh_def)
  ultimately show ?thesis
    by (simp add: spawn_core_def alloc_handle_def case_prod_unfold Let_def split: sum.split)
qed

lemma only_fresh_exec: "only_fresh d (exec d act)"
proof (cases "touches_core act")
  case False
  then show ?thesis by (blast intro: only_fresh_same quiet_same_core)
next
  case True
  then show ?thesis
    by (cases act) (simp_all add: fresh_register fresh_restore fresh_rollback fresh_spawn fresh_exit
        fresh_mark_closed fresh_purge fresh_watch fresh_mark_restart)
qed

lemma only_fresh_run: "only_fresh d (foldl exec d acts)"
proof (induction acts arbitrary: d)
  case Nil
  then show ?case by (simp add: only_fresh_def)
next
  case (Cons act acts)
  show ?case unfolding foldl.simps by (rule only_fresh_trans [OF only_fresh_exec Cons.IH])
qed

section \<open>Closed sessions\<close>

text \<open>A closed record stays closed, and no turn begins on it any more.\<close>

definition closed_stays :: "Daemon \<Rightarrow> Daemon \<Rightarrow> bool" where
  "closed_stays d d' \<longleftrightarrow> (\<forall>m < nextMeta d. Closed (metas d m) \<longrightarrow>
     Closed (metas d' m) \<and> (turnActive (metas d' m) \<longrightarrow> turnActive (metas d m)))"

lemma turn_frames [simp]:
  "turnActive (AddOutput x l) = turnActive x" "turnActive (touchActive x t) = turnActive x"
  "turnActive (SetCliSessionID x c) = turnActive x" "turnActive (AddOnClose x fn) = turnActive x"
  "turnActive (fst (SnapshotOutputSince x cur)) = turnActive x"
  "turnActive (fst (SnapshotTerminalsSince x cur)) = turnActive x"
  "turnActive (fst (BeginTurnCancel x)) = turnActive x"
  "\<not> turnActive (FinishTurn x)"
  by (simp_all add: AddOutput_def touchActive_def SetCliSessionID_def AddOnClose_def turn_op_defs
      SnapshotOutputSince_def SnapshotTerminalsSince_def ensureOutputStateLocked_def Let_def)

lemma turn_ends: "turnActive (fst (CompleteTurn x t)) \<Longrightarrow> turnActive x"
  "turnActive (fst (FailCancellingTurn x tok t)) \<Longrightarrow> turnActive x"
  by (auto simp: turn_op_defs split: if_splits)

lemma closed_stays_meta:
  "(\<And>x. Closed x \<Longrightarrow> Closed (f x) \<and> (turnActive (f x) \<longrightarrow> turnActive x)) \<Longrightarrow> closed_stays d (upd_meta m f d)"
  by (simp add: closed_stays_def)

lemma closed_stays_metas: "metas d' = metas d \<Longrightarrow> closed_stays d d'"
  by (simp add: closed_stays_def)

lemma closed_stays_status: "closed_stays d d' \<Longrightarrow> closed_stays d (set_status m st d')"
  by (auto simp: closed_stays_def)

lemma spawn_section_closed: "closed_stays d (fst (spawn_section m h start d))"
  by (simp add: closed_stays_def spawn_section_def installWorkerLocked_def deleteWorkerIfCurrentLocked_def Let_def
      split: sum.splits)

lemma closed_spawn: "closed_stays d (fst (spawn_core w m d))"
proof -
  have "closed_stays d (fst (spawn_section m h start (d\<lparr>handles := x, nextHandle := n\<rparr>)))" for h start x n
    using spawn_section_closed [of "d\<lparr>handles := x, nextHandle := n\<rparr>" m h start] by (simp add: closed_stays_def)
  then show ?thesis
    by (simp add: spawn_core_def alloc_handle_def case_prod_unfold Let_def closed_stays_metas split: sum.split)
qed

lemma metas_drop_worker [simp]: "metas (fst (deleteWorkerIfCurrentLocked i h d)) = metas d"
  by (simp add: deleteWorkerIfCurrentLocked_def)

lemma closed_exit: "closed_stays d (fst (exit_section h d))"
  unfolding exit_section_def Let_def by (simp add: closed_stays_status closed_stays_metas)

lemma closed_mark: "closed_stays d (fst (markSessionMetaClosed io now m b d))"
  unfolding markSessionMetaClosed_def Let_def by (simp add: closed_stays_def split: option.splits)

lemma closed_watch: "closed_stays d (fst (watch_section m tok d))"
  unfolding watch_section_def Let_def
  by (auto simp: closed_stays_def case_prod_unfold dest: turn_ends split: option.splits)

lemma closed_mark_restart: "closed_stays d (fst (markCurrentWorkerRestartPending m d))"
  unfolding markCurrentWorkerRestartPending_def Let_def by (simp add: closed_stays_def split: option.splits)

lemma closed_fresh_meta:
  "closed_stays d (fst (register_new io x d))" "closed_stays d (restore_one now d ps)"
  "closed_stays d (rollbackNewSession rm m d)" "closed_stays d (purge_maps i d)"
  by (simp_all add: closed_stays_def register_new_def restore_one_def alloc_meta_def register_session_def
      rollbackNewSession_def purge_maps_def Let_def split: option.splits)

lemma closed_stays_core: "touches_core act \<Longrightarrow> closed_stays d (exec d act)"
  by (cases act) (simp_all add: closed_fresh_meta closed_spawn closed_exit closed_mark closed_watch closed_mark_restart)

lemma closed_stays_quiet: "\<not> touches_core act \<Longrightarrow> closed_stays d (exec d act)"
proof (cases act)
  case (ABeginTurn m)
  then show ?thesis using begin_turn_cases [of m d] by (auto simp: closed_stays_def split: if_splits)
next
  case (ABeginCancel m)
  then show ?thesis using begin_cancel_cases [of m d] by (auto simp: closed_stays_def split: if_splits)
next
  case (AFailCancel m tok c t)
  then show ?thesis using fail_cancel_cases [of m tok c t d] by (auto simp: closed_stays_def dest: turn_ends split: if_splits)
next
  case (ACommitCancel m tok ho e)
  then show ?thesis using commit_cases [of m tok ho e d] by (auto simp: closed_stays_def dest: turn_ends split: if_splits)
next
  case (AReady m h)
  then show ?thesis by (simp add: ready_section_def closed_stays_def)
next
  case (AReadyTimeout m)
  then show ?thesis by (simp add: ready_timeout_section_def closed_stays_def)
next
  case (AComplete m t)
  then show ?thesis by (auto simp: closed_stays_def dest: turn_ends)
qed (simp_all add: closed_stays_def clearSpawnFailure_def recordSpawnFailure_def leave_conn_def spawn_gate_def
    startSessionMonitor_def stopSessionMonitor_def Let_def)

lemma closed_stays_exec: "closed_stays d (exec d act)"
  using closed_stays_core closed_stays_quiet by blast

definition session_record :: "Daemon \<Rightarrow> mref \<Rightarrow> SessionMeta option" where
  "session_record d m = (if m < nextMeta d then Some (metas d m) else None)"

interpretation live: closing exec "\<lambda>_. True" session_record Closed "\<lambda>_ _ _. False"
proof unfold_locales
  fix d m x act
  assume "session_record d m = Some x" "Closed x"
  then have m: "m < nextMeta d" and "Closed (metas d m)" by (auto simp: session_record_def split: if_splits)
  with closed_stays_exec [of d act] only_freshD(1) [OF only_fresh_exec [of d act]]
  show "\<exists>v'. session_record (exec d act) m = Some v' \<and> Closed v'"
    by (auto simp: session_record_def closed_stays_def)
qed simp

lemma closed_idle_run:
  assumes "m < nextMeta d" and "Closed (metas d m)" and "\<not> turnActive (metas d m)"
  shows "\<not> turnActive (metas (foldl exec d acts) m)"
  using assms
proof (induction acts arbitrary: d)
  case (Cons act acts)
  with closed_stays_exec [of d act] only_freshD(1) [OF only_fresh_exec [of d act]]
  show ?case by (auto simp: closed_stays_def)
qed simp

end
