(* ===== verification/Daemon_Runs.thy ===== *)
theory Daemon_Runs
  imports Daemon_System
begin

text \<open>
  The handlers of the daemon are runs of its actions: whatever a handler does, and whatever the
  other goroutines do while it blocks, the state it leaves is reached by actions. What is proved
  of all runs so holds of the handlers as the code composes them.
\<close>

section \<open>The handlers are runs\<close>

abbreviation steps_to :: "Daemon \<Rightarrow> Daemon \<Rightarrow> bool" where
  "steps_to \<equiv> reaches exec"

abbreviation daemon_env :: "(Daemon \<Rightarrow> Daemon) \<Rightarrow> bool" where
  "daemon_env \<equiv> env_of exec"

lemmas steps_refl [simp] = reaches_refl [of exec]
lemmas steps_trans = reaches_trans [of exec]
lemmas steps_exec = reaches_step [of exec]
lemmas steps_then = reaches_then [of exec]
lemmas steps_env = reaches_env [of exec]
lemmas steps_inv = core.inv_reaches

lemma steps_fresh: "steps_to d d' \<Longrightarrow> only_fresh d d'"
  unfolding reaches_def using only_fresh_run by blast

text \<open>One rule per action, for composing.\<close>

lemma steps_acts:
  "steps_to d d' \<Longrightarrow> steps_to d (upd_store f d')"
  "steps_to d d' \<Longrightarrow> steps_to d (persistCurrentSession m f d')"
  "steps_to d d' \<Longrightarrow> steps_to d (close_handle h d')"
  "steps_to d d' \<Longrightarrow> steps_to d (kill_process h d')"
  "steps_to d d' \<Longrightarrow> steps_to d (run_on_close m d')"
  "steps_to d d' \<Longrightarrow> steps_to d (fst (send_handle wr h msg d'))"
  "steps_to d d' \<Longrightarrow> steps_to d (write_conn c msg d')"
  "steps_to d d' \<Longrightarrow> steps_to d (close_conn c d')"
  "steps_to d d' \<Longrightarrow> steps_to d (upd_meta m (\<lambda>x. touchActive x now) d')"
  "steps_to d d' \<Longrightarrow> steps_to d (upd_meta m (\<lambda>x. AddOutput x line) d')"
  "steps_to d d' \<Longrightarrow> steps_to d (upd_meta m (\<lambda>x. SetCliSessionID x cid) d')"
  "steps_to d d' \<Longrightarrow> steps_to d (upd_meta m (\<lambda>x. AddOnClose x fn) d')"
  "steps_to d d' \<Longrightarrow> steps_to d (upd_meta m FinishTurn d')"
  "steps_to d d' \<Longrightarrow> steps_to d (upd_meta m (\<lambda>x. fst (CompleteTurn x t)) d')"
  "steps_to d d' \<Longrightarrow> steps_to d (upd_handle h markReady d')"
  "steps_to d d' \<Longrightarrow> steps_to d (upd_handle h (\<lambda>x. TouchHb x now) d')"
  "steps_to d d' \<Longrightarrow> steps_to d (upd_handle h (\<lambda>x. fst (markStartupFailure x)) d')"
  "steps_to d d' \<Longrightarrow> steps_to d (upd_handle h (\<lambda>x. x\<lparr>ExitDone := True\<rparr>) d')"
  "steps_to d d' \<Longrightarrow> steps_to d (clearSpawnFailure sid d')"
  "steps_to d d' \<Longrightarrow> steps_to d (fst (recordSpawnFailure now sid d'))"
  "steps_to d d' \<Longrightarrow> steps_to d (fst (beginCodexTurnIfReady m d'))"
  "steps_to d d' \<Longrightarrow> steps_to d (fst (beginTurnCancelIfCurrent m d'))"
  "steps_to d d' \<Longrightarrow> steps_to d (fst (finishCancelWithFailure m tok ec ed d'))"
  "steps_to d d' \<Longrightarrow> steps_to d (fst (commitCancelSendFailureIfCurrent m tok ho e d'))"
  "steps_to d d' \<Longrightarrow> steps_to d (fst (watch_section m tok d'))"
  "steps_to d d' \<Longrightarrow> steps_to d (fst (markCurrentWorkerRestartPending m d'))"
  "steps_to d d' \<Longrightarrow> steps_to d (fst (markSessionMetaClosed io now m b d'))"
  "steps_to d d' \<Longrightarrow> steps_to d (fst (exit_section h d'))"
  "steps_to d d' \<Longrightarrow> steps_to d (fst (spawn_core w m d'))"
  "steps_to d d' \<Longrightarrow> steps_to d (fst (ready_section m h d'))"
  "steps_to d d' \<Longrightarrow> steps_to d (fst (admit now wr c r d'))"
  "steps_to d d' \<Longrightarrow> steps_to d (fst (spawn_gate now sid d'))"
  "steps_to d d' \<Longrightarrow> steps_to d (restore_one now d' ps)"
  "steps_to d d' \<Longrightarrow> steps_to d (rollbackNewSession rm m d')"
  "steps_to d d' \<Longrightarrow> steps_to d (purge_maps i d')"
  "steps_to d d' \<Longrightarrow> steps_to d (fst (register_new io x d'))"
  "steps_to d d' \<Longrightarrow> steps_to d (leave_conn c d')"
  "steps_to d d' \<Longrightarrow> steps_to d (d'\<lparr>d_closed := True\<rparr>)"
  "steps_to d d' \<Longrightarrow> steps_to d (d'\<lparr>ctxDone := True\<rparr>)"
  "steps_to d d' \<Longrightarrow> steps_to d (d'\<lparr>startedAt := now\<rparr>)"
  "steps_to d d' \<Longrightarrow> steps_to d (fst (ready_timeout_section m d'))"
  "steps_to d d' \<Longrightarrow> steps_to d (upd_meta m (\<lambda>x. fst (SnapshotOutputSince x cur)) d')"
  "steps_to d d' \<Longrightarrow> steps_to d (upd_meta m (\<lambda>x. fst (SnapshotTerminalsSince x cur)) d')"
  "steps_to d d' \<Longrightarrow> steps_to d (startSessionMonitor d')"
  "steps_to d d' \<Longrightarrow> steps_to d (stopSessionMonitor d')"
  by (erule steps_then, rule exec.simps [symmetric])+

lemma steps_stop: "steps_to d d' \<Longrightarrow> steps_to d (stopWorkerHandle ho d')"
  by (auto simp: stopWorkerHandle_def intro: steps_acts split: option.splits)

lemma steps_if: "steps_to d a \<Longrightarrow> steps_to d b \<Longrightarrow> steps_to d (if c then a else b)"
  by simp

section \<open>Handlers over actions\<close>

lemma spawnWorkerForSession_form:
  "fst (spawnWorkerForSession w m d) =
     (case spawn_core w m d of (d1, err, existing, h) \<Rightarrow>
        let d2 = stopWorkerHandle existing d1
        in if err = None then persistCurrentSession m
             (\<lambda>s. UpdateWorkerPID (sw_io w) s (sid_of d2 m) (Pid (handles d2 h))) d2 else d2)"
proof (cases "d_closed d")
  case True
  then show ?thesis by (simp add: spawnWorkerForSession_def spawn_core_def stopWorkerHandle_def)
next
  case open_daemon: False
  show ?thesis
  proof (cases "newWorkerInstanceID (sw_rand w)")
    case (Inl e)
    with open_daemon show ?thesis by (simp add: spawnWorkerForSession_def spawn_core_def stopWorkerHandle_def)
  next
    case (Inr iid)
    show ?thesis
    proof (cases "iid = []")
      case True
      with open_daemon Inr show ?thesis by (simp add: spawnWorkerForSession_def spawn_core_def stopWorkerHandle_def)
    next
      case False
      define x where "x = (NewWorkerHandle (sw_now w) (sid_of d m))\<lparr>InstanceID := iid\<rparr>"
      define r where "r = spawn_section m (snd (alloc_handle x d)) (sw_start w) (fst (alloc_handle x d))"
      have "spawn_core w m d = (fst r, fst (snd r), snd (snd r), snd (alloc_handle x d))"
        using open_daemon Inr False
        unfolding spawn_core_def Let_def r_def x_def case_prod_unfold by simp
      moreover have "fst (spawnWorkerForSession w m d) =
          (if fst (snd r) = None then persistCurrentSession m (\<lambda>s. UpdateWorkerPID (sw_io w) s
              (sid_of (stopWorkerHandle (snd (snd r)) (fst r)) m)
              (Pid (handles (stopWorkerHandle (snd (snd r)) (fst r)) (snd (alloc_handle x d)))))
              (stopWorkerHandle (snd (snd r)) (fst r))
           else stopWorkerHandle (snd (snd r)) (fst r))"
        using open_daemon Inr False
        unfolding spawnWorkerForSession_def Let_def r_def x_def case_prod_unfold
        by (simp del: frame_effects frame_effects2 handles_stopWorkerHandle split: option.split)
      ultimately show ?thesis by (simp only: prod.case Let_def)
    qed
  qed
qed

lemma steps_spawn: "steps_to d d' \<Longrightarrow> steps_to d (fst (spawnWorkerForSession w m d'))"
proof -
  assume a: "steps_to d d'"
  have "steps_to d (stopWorkerHandle ex (fst (spawn_core w m d')))" for ex
    by (intro steps_stop steps_acts a)
  then show ?thesis
    unfolding spawnWorkerForSession_form Let_def case_prod_unfold by (simp add: steps_acts(2))
qed


lemma upd_meta_const: "upd_meta m (\<lambda>_. f (metas d m)) d = upd_meta m f d"
  by (simp add: upd_meta_def)

lemma upd_handle_const: "upd_handle h (\<lambda>_. f (handles d h)) d = upd_handle h f d"
  by (simp add: upd_handle_def)

lemma steps_ready_timeout: "steps_to d d' \<Longrightarrow> steps_to d (monitorReady_timeout now h m d')"
proof -
  assume a: "steps_to d d'"
  show ?thesis
  proof (cases "isCurrentWorker d' h \<and> \<not> Closed (metas d' m) \<and> Status (metas d' m) \<noteq> StatusReady")
    case True
    define d1 where "d1 = fst (ready_timeout_section m d')"
    have d1: "d1 = set_status m StatusRecovering d'" using True by (simp add: d1_def ready_timeout_section_def)
    have "steps_to d d1" unfolding d1_def by (rule steps_acts) (rule a)
    then have "steps_to d (upd_handle h (\<lambda>x. fst (markStartupFailure x)) d1)" by (rule steps_acts)
    with True show ?thesis
      by (auto simp: monitorReady_timeout_def d1 Let_def intro: steps_acts)
  qed (use a in \<open>auto simp: monitorReady_timeout_def\<close>)
qed

lemma steps_exit: "steps_to d d' \<Longrightarrow> steps_to d (waitWorkerExit now h d')"
proof -
  assume a: "steps_to d d'"
  define d1 where "d1 = fst (exit_section h d')"
  have d1: "steps_to d d1" unfolding d1_def by (rule steps_acts) (rule a)
  define d2 where "d2 = (if snd (snd (exit_section h d')) then
     if snd (markStartupFailure (handles d1 h))
     then fst (recordSpawnFailure now (wh_SessionID (handles (upd_handle h (\<lambda>x. fst (markStartupFailure x)) d1) h))
       (upd_handle h (\<lambda>x. fst (markStartupFailure x)) d1))
     else upd_handle h (\<lambda>x. fst (markStartupFailure x)) d1 else d1)"
  have "steps_to d d2" unfolding d2_def by (intro steps_if steps_acts d1)
  then have "steps_to d (close_handle h d2)" by (rule steps_acts)
  moreover have "waitWorkerExit now h d' =
      upd_handle h (\<lambda>x. x\<lparr>ExitDone := True\<rparr>)
        (case fst (snd (exit_section h d')) of None \<Rightarrow> close_handle h d2 | Some m \<Rightarrow> run_on_close m (close_handle h d2))"
    unfolding waitWorkerExit_def Let_def case_prod_unfold d2_def d1_def by simp
  ultimately show ?thesis by (auto intro: steps_acts split: option.splits)
qed

lemma steps_close: "steps_to d d' \<Longrightarrow> steps_to d (closeSessionMeta io wr now m reason d')"
proof -
  assume a: "steps_to d d'"
  have "steps_to d (fst (markSessionMetaClosed io now m False d'))" by (rule steps_acts) (rule a)
  then show ?thesis
    by (auto simp: closeSessionMeta_def case_prod_unfold intro: steps_acts split: option.splits)
qed

lemma steps_close_id: "steps_to d d' \<Longrightarrow> steps_to d (CloseSession io wr now i reason d')"
  by (simp add: CloseSession_def steps_close split: option.splits)

lemma steps_remove: "steps_to d d' \<Longrightarrow> steps_to d (removeSessionMeta io now m d')"
proof -
  assume a: "steps_to d d'"
  have "steps_to d (fst (markSessionMetaClosed io now m True d'))" by (rule steps_acts) (rule a)
  then show ?thesis
    by (auto simp: removeSessionMeta_def case_prod_unfold intro!: steps_acts split: option.splits)
qed

lemma steps_purge: "steps_to d d' \<Longrightarrow> steps_to d (PurgeSession rm i d')"
proof -
  assume a: "steps_to d d'"
  have "PurgeSession rm i d' = (case workers d' i of
      None \<Rightarrow> upd_store (\<lambda>s. remove rm s i) (purge_maps i d')
    | Some h \<Rightarrow> kill_process h (close_handle h (upd_store (\<lambda>s. remove rm s i) (purge_maps i d'))))"
    by (simp add: PurgeSession_def purge_maps_def Let_def split: option.splits)
  with a show ?thesis by (auto intro!: steps_acts split: option.splits)
qed

lemma steps_new_session:
  assumes "daemon_env env" and a: "steps_to d d'"
  shows "steps_to d (fst (NewSession validate w io rm env opts d'))"
proof (cases "isClosed d'")
  case False
  show ?thesis
  proof (cases "new_session_meta validate (sw_now w) (cfg d') opts")
    case (Inr x)
    define r where "r = register_new io x d'"
    have r: "steps_to d (fst r)" unfolding r_def by (rule steps_acts) (rule a)
    have form: "fst (NewSession validate w io rm env opts d') =
      (case fst (snd r) of Some e \<Rightarrow> fst r
       | None \<Rightarrow> (case snd (spawnWorkerForSession w (snd (snd r)) (env (fst r))) of
            Some e \<Rightarrow> if e = ErrDaemonClosed
              then rollbackNewSession rm (snd (snd r)) (fst (spawnWorkerForSession w (snd (snd r)) (env (fst r))))
              else fst (spawnWorkerForSession w (snd (snd r)) (env (fst r)))
          | None \<Rightarrow> fst (spawnWorkerForSession w (snd (snd r)) (env (fst r)))))"
      using False Inr
      by (simp add: NewSession_def r_def register_new_def case_prod_unfold Let_def split: option.splits)
    have s: "steps_to d (fst (spawnWorkerForSession w (snd (snd r)) (env (fst r))))"
      by (rule steps_spawn [OF steps_env [OF assms(1) r]])
    show ?thesis unfolding form
      by (simp add: r s steps_acts split: option.split)
  qed (use False a in \<open>simp add: NewSession_def\<close>)
qed (simp add: NewSession_def a)

lemma steps_route_body: "steps_to d d' \<Longrightarrow> steps_to d (route_body io now jerr msg m h d')"
proof -
  assume a: "steps_to d d'"
  have ready: "steps_to d (ready_rest io now m h (fst (ready_section m h d')))"
    unfolding ready_rest_def Let_def by (intro steps_acts a)
  show ?thesis
    unfolding route_body_def Let_def case_prod_unfold
    by (intro steps_if steps_acts steps_remove ready a)
qed

lemma steps_route:
  assumes "daemon_env env" and "steps_to d d'"
  shows "steps_to d (routeMessage io now jerr env msg m h d')"
  using assms by (simp add: routeMessage_def steps_route_body steps_env)

lemma steps_serve:
  assumes "\<And>k. daemon_env (env k)"
  shows "steps_to d d' \<Longrightarrow> steps_to d (serve_worker io now jerr env k sid m h msgs d')"
  by (induction msgs arbitrary: k d') (simp_all add: steps_route assms)

lemma steps_worker_conn:
  assumes env: "\<And>k. daemon_env (env k)"
  shows "steps_to d (handle_worker_conn io now wr jerr env c msgs d)"
proof -
  let ?a = "admit (now 0) wr c (case msgs of [] \<Rightarrow> None | m # _ \<Rightarrow> Some m) d"
  have a: "steps_to d (fst ?a)" by (intro steps_acts steps_refl)
  show ?thesis
  proof (cases "snd ?a")
    case (WorkerConn m h)
    have "steps_to d (leave_conn c (serve_worker io now jerr env 1 (msg_SessionID (hd msgs)) m h (tl msgs)
        (routeMessage (io 0) (now 0) jerr (env 0) (hd msgs) m h (fst ?a))))"
      by (intro steps_acts steps_serve steps_route env a)
    with WorkerConn show ?thesis by (simp add: handle_worker_conn_def case_prod_unfold Let_def)
  qed (use a in \<open>simp_all add: handle_worker_conn_def case_prod_unfold steps_acts\<close>)
qed

lemma steps_send_ready: "steps_to d d' \<Longrightarrow> steps_to d (fst (send_input_ready io wr now m h i input d'))"
proof -
  assume a: "steps_to d d'"
  define b where "b = (if CliType (metas d' m) = CliCodex then beginCodexTurnIfReady m d' else (d', None))"
  have b: "steps_to d (fst b)" unfolding b_def using a by (simp add: steps_acts)
  define p where "p = persistCurrentSession m (\<lambda>s. UpdateOutput io now s
      (sid_of (upd_meta m (\<lambda>x. AddOutput x (''[user] '' @ input)) (upd_meta m (\<lambda>x. touchActive x now) (fst b))) m) (''[user] '' @ input))
      (upd_meta m (\<lambda>x. AddOutput x (''[user] '' @ input)) (upd_meta m (\<lambda>x. touchActive x now) (fst b)))"
  have p: "steps_to d p" unfolding p_def by (intro steps_acts b)
  have form: "fst (send_input_ready io wr now m h i input d') =
     (case snd b of Some e \<Rightarrow> fst b
      | None \<Rightarrow> (case snd (send_handle wr h (NewMessage now MsgUserInput i input) p) of
            Some e \<Rightarrow> upd_meta m FinishTurn (fst (send_handle wr h (NewMessage now MsgUserInput i input) p))
          | None \<Rightarrow> fst (send_handle wr h (NewMessage now MsgUserInput i input) p)))"
    unfolding send_input_ready_def b_def [symmetric] Let_def p_def case_prod_unfold
    by (simp split: option.split)
  show ?thesis unfolding form by (simp add: b p steps_acts split: option.split)
qed

lemma steps_send_input:
  assumes "daemon_env env" and "steps_to d d'"
  shows "steps_to d (fst (SendInput io wr now env i input d'))"
  using assms by (simp add: SendInput_def Let_def steps_send_ready steps_env split: option.split)

lemma steps_cancel:
  assumes env: "\<And>k. daemon_env (env k)" and a: "steps_to d d'"
  shows "steps_to d (fst (CancelTurnMeta env m d'))"
proof -
  have e: "steps_to d (env 1 (env 0 d'))" by (rule steps_env [OF env steps_env [OF env a]])
  then have b: "steps_to d (fst (beginTurnCancelIfCurrent m (env 1 (env 0 d'))))" by (intro steps_acts)
  from a e b steps_env [OF env b, of 2] show ?thesis
    by (simp add: CancelTurnMeta_def Let_def case_prod_unfold del: One_nat_def)
qed

lemma steps_cancel_loop:
  assumes env: "\<And>k. daemon_env (env k)"
  shows "steps_to d d' \<Longrightarrow> steps_to d (fst (cancel_send_loop env wr now m token n lastErr d'))"
proof (induction n arbitrary: lastErr d')
  case (Suc n)
  let ?k = "maxCurrentWorkerSendTries - Suc n"
  let ?h = "fst (currentWorkerForSession d' m)"
  define s where "s = (case ?h of None \<Rightarrow> (d', Some (''session '' @ sid_of d' m @ '' has no ready worker''))
    | Some h \<Rightarrow> if \<not> IsReady (handles d' h) then (d', Some (''session '' @ sid_of d' m @ '' has no ready worker''))
        else (env ?k (fst (send_handle (wr ?k) h (NewMessage (now ?k) MsgCancelTurn (sid_of d' m) []) d')),
              snd (send_handle (wr ?k) h (NewMessage (now ?k) MsgCancelTurn (sid_of d' m) []) d')))"
  have s: "steps_to d (fst s)"
    using Suc.prems env by (simp add: s_def steps_acts steps_env split: option.split)
  then have c: "steps_to d (fst (commitCancelSendFailureIfCurrent m token ?h e (fst s)))" for e
    by (intro steps_acts)
  show ?case
    using Suc.prems s c
    unfolding cancel_send_loop.simps Let_def case_prod_unfold s_def [symmetric]
    by (auto simp: Suc.IH case_prod_unfold split: option.split cancelSendFailureResult.split)
qed simp

lemma steps_deliver_cancel:
  assumes env: "\<And>k. daemon_env (env k)" and a: "steps_to d d'"
  shows "steps_to d (deliver_cancel env wr now m token d')"
proof -
  have "steps_to d (fst (sendCancelToCurrentWorker env wr now m token d'))"
    unfolding sendCancelToCurrentWorker_def by (intro steps_cancel_loop env a)
  then show ?thesis
    by (auto simp: deliver_cancel_def case_prod_unfold steps_acts split: option.split)
qed

lemma steps_restart_loop:
  assumes env: "\<And>k. daemon_env (env k)"
  shows "steps_to d d' \<Longrightarrow> steps_to d (fst (restart_loop env wr now m n scheduled d'))"
proof (induction n arbitrary: scheduled d')
  case (Suc n)
  define M where "M = markCurrentWorkerRestartPending m d'"
  have M: "steps_to d (fst M)" unfolding M_def by (intro steps_acts Suc.prems)
  have s: "steps_to d (env k (fst (send_handle x h msg (fst M))))" for k x h msg
  proof -
    have "steps_to d (fst (send_handle x h msg (fst M)))" by (intro steps_acts M)
    then show ?thesis by (rule steps_env [OF env])
  qed
  show ?case
  proof (cases "snd (snd M) \<and> fst (snd M) \<noteq> None \<and> IsReady (handles (fst M) (the (fst (snd M))))")
    case False
    then have "fst (restart_loop env wr now m (Suc n) scheduled d') = fst M"
      unfolding restart_loop.simps M_def [symmetric] Let_def case_prod_unfold by (auto split: option.split)
    with M show ?thesis by simp
  next
    case True
    then obtain h where h: "fst (snd M) = Some h" by auto
    define k where "k = maxCurrentWorkerSendTries - Suc n"
    define e where "e = env k (fst (send_handle (wr k) h (NewMessage (now k) MsgRestartWorker (sid_of (fst M) m) []) (fst M)))"
    have "restart_loop env wr now m (Suc n) scheduled d' =
        (if isCurrentWorkerForSession e m (Some h) then (e, if h \<notin> set scheduled then scheduled @ [h] else scheduled)
         else restart_loop env wr now m n (if h \<notin> set scheduled then scheduled @ [h] else scheduled) e)"
      using True h unfolding restart_loop.simps M_def [symmetric] Let_def case_prod_unfold e_def k_def
      by (simp del: frame_effects frame_effects2)
    moreover have "steps_to d e" unfolding e_def by (rule s)
    ultimately show ?thesis using Suc.IH [of e] by simp
  qed
qed simp

lemma steps_watch:
  assumes env: "\<And>k. daemon_env (env k)" and a: "steps_to d d'"
  shows "steps_to d (fst (watchCancelledTurn env wr now m token d'))"
proof -
  have "steps_to d (fst (watch_section m token d'))" by (intro steps_acts a)
  with steps_restart_loop [of env d, OF env] show ?thesis
    by (simp add: watchCancelledTurn_def restartWorkerForSession_def case_prod_unfold)
qed

end
