(* ===== verification/Daemon_Handlers.thy ===== *)
theory Daemon_Handlers
  imports Daemon_Runs
begin

text \<open>
  The remaining handlers as runs of the daemon's actions (clients, monitor, garbage collection,
  start and shutdown), and the properties that hold of every handler because they hold of every
  run.
\<close>

section \<open>Clients\<close>

lemma steps_subscriptions:
  assumes a: "steps_to d d'"
  shows "steps_to d (upd_meta m (\<lambda>_. fst (OutputSubscription (metas d' m))) d')"
    and "steps_to d (upd_meta m (\<lambda>_. fst (TerminalSubscription (metas d' m))) d')"
proof -
  have "steps_to d (upd_meta m (\<lambda>x. fst (SnapshotOutputSince x 0)) d')"
    "steps_to d (upd_meta m (\<lambda>x. fst (SnapshotTerminalsSince x 0)) d')"
    by (rule steps_acts, rule a)+
  then show "steps_to d (upd_meta m (\<lambda>_. fst (OutputSubscription (metas d' m))) d')"
    "steps_to d (upd_meta m (\<lambda>_. fst (TerminalSubscription (metas d' m))) d')"
    by (simp_all add: upd_meta_def OutputSubscription_def TerminalSubscription_def SnapshotOutputSince_def
        SnapshotTerminalsSince_def Let_def)
qed

lemma steps_forward_ready:
  assumes a: "steps_to d d'"
  shows "steps_to d (fst (forward_ready wr now stop c msg m h d'))"
proof -
  define d1 where "d1 = upd_meta m (\<lambda>_. fst (OutputSubscription (metas d' m))) d'"
  define d2 where "d2 = upd_meta m (\<lambda>_. fst (TerminalSubscription (metas d1 m))) d1"
  have d2: "steps_to d d2" unfolding d2_def d1_def by (intro steps_subscriptions a)
  define b where "b = (if CliType (metas d2 m) = CliCodex then beginCodexTurnIfReady m d2 else (d2, None))"
  have b: "steps_to d (fst b)" unfolding b_def using d2 by (simp add: steps_acts)
  define s where "s = send_handle wr h msg (fst b)"
  have s: "steps_to d (fst s)" unfolding s_def by (intro steps_acts b)
  show ?thesis
    unfolding forward_ready_def Let_def case_prod_unfold
    unfolding d1_def [symmetric] fst_conv snd_conv
    unfolding d2_def [symmetric] fst_conv snd_conv
    unfolding b_def [symmetric] s_def [symmetric]
    by (auto split: option.split intro!: steps_acts b s d2)
qed

lemma steps_forward:
  assumes env: "daemon_env env" and a: "steps_to d d'"
  shows "steps_to d (fst (forwardClientMessage io wr now env stop c msg d'))"
proof -
  have "steps_to d (fst (forward_ready wr now stop c msg m h (env d')))" for m h
    by (rule steps_forward_ready [OF steps_env [OF env a]])
  with a steps_env [OF env a] show ?thesis
    by (simp add: forwardClientMessage_def Let_def steps_close_id steps_acts split: option.split)
qed

lemma steps_forward_messages:
  "(\<And>w msg. (w, msg) \<in> set msgs \<Longrightarrow> daemon_env (cw_env w)) \<Longrightarrow> steps_to d d'
     \<Longrightarrow> steps_to d (fst (forward_messages c msgs d'))"
proof (induction msgs arbitrary: d')
  case (Cons wm msgs)
  obtain w msg where wm: "wm = (w, msg)" by (cases wm)
  have "steps_to d (fst (forwardClientMessage (cw_io w) (cw_wr w) (cw_now w) (cw_env w) (cw_stop w) c msg d'))"
    by (rule steps_forward) (use Cons.prems wm in auto)
  then have "steps_to d (fst (forward_messages c msgs
      (fst (forwardClientMessage (cw_io w) (cw_wr w) (cw_now w) (cw_env w) (cw_stop w) c msg d'))))"
    by (rule Cons.IH [rotated]) (use Cons.prems in auto)
  then show ?case by (simp add: wm case_prod_unfold Let_def)
qed simp

lemma steps_client_new:
  assumes "daemon_env env" and "daemon_env wait" and a: "steps_to d d'"
  shows "steps_to d (fst (client_new_session validate partial w io rm env wait now c first d'))"
proof -
  let ?o = "\<lparr>no_SessionID = client_session_id now (msg_SessionID first),
     no_BotID = np_bot_id (decode_new_session partial (Payload first)), no_CliType = [], no_CliPath = [],
     no_WorkingDir = [], no_CodexProfile = np_codex_profile (decode_new_session partial (Payload first))\<rparr>"
  define r where "r = NewSession validate w io rm env ?o d'"
  have r: "steps_to d (fst r)" unfolding r_def by (rule steps_new_session [OF assms(1) a])
  then have wt: "steps_to d (wait (write_conn c msg (fst r)))" for msg
    by (intro steps_env [OF assms(2)] steps_acts)
  show ?thesis
    unfolding client_new_session_def Let_def r_def [symmetric]
    using r wt by (auto simp: case_prod_unfold steps_acts split: sum.split option.split)
qed

lemma steps_client:
  assumes wait: "daemon_env wait" and first: "daemon_env (cw_env (fst first))"
    and msgs: "\<And>w msg. (w, msg) \<in> set msgs \<Longrightarrow> daemon_env (cw_env w)"
  shows "steps_to d (fst (handleClientConn fmt order validate partial w rm wait c first msgs d))"
proof -
  obtain cw msg where f: "first = (cw, msg)" by (cases first)
  let ?n = "client_new_session validate partial w (cw_io cw) rm (cw_env cw) wait (cw_now cw) c msg d"
  have n: "steps_to d (fst ?n)"
    using first f by (simp add: steps_client_new [OF _ wait steps_refl])
  have fm: "steps_to d d' \<Longrightarrow> steps_to d (fst (forward_messages c msgs d'))" for d'
    by (rule steps_forward_messages) (auto intro: msgs)
  have fm1: "steps_to d (fst (forward_messages c (first # msgs) d))"
    by (rule steps_forward_messages) (use msgs first in auto)
  have simple: "steps_to d (handleListSessions fmt order now c d)" "steps_to d (handleHistory now c sid d)"
    "steps_to d (fst (handleCloseSession now c sid reason d))" for now sid reason
    by (simp_all add: handleListSessions_def handleHistory_def handleCloseSession_def Let_def steps_acts split: option.split)
  show ?thesis
  proof (cases "snd ?n")
    case True
    then show ?thesis
      using f simple fm1 fm [OF n] fm [OF steps_refl]
      by (simp add: handleClientConn_def Let_def case_prod_unfold)
  next
    case False
    then show ?thesis
      using f simple fm1 n fm [OF steps_refl]
      by (simp add: handleClientConn_def Let_def case_prod_unfold)
  qed
qed

section \<open>Background work\<close>

lemma steps_reconcile_spawn: "steps_to d d' \<Longrightarrow> steps_to d (reconcile_spawn w m d')"
proof -
  assume "steps_to d d'"
  then have "steps_to d (fst (spawnWorkerForSession w m d'))" by (rule steps_spawn)
  then show ?thesis unfolding reconcile_spawn_def case_prod_unfold
    by (auto intro: steps_acts split: option.split)
qed

lemma steps_reconcile:
  assumes "\<And>m. daemon_env (env m)"
  shows "steps_to d d' \<Longrightarrow> steps_to d (reconcileSessions w env now ms d')"
proof (induction ms arbitrary: d')
  case (Cons m ms)
  define r where "r = reconcile_one now m d'"
  have one: "steps_to d (fst r)"
    unfolding r_def using Cons.prems by (simp add: reconcile_one_def steps_acts)
  then have "steps_to d (reconcile_spawn (w m) m (env m (fst r)))"
    by (rule steps_reconcile_spawn [OF steps_env [OF assms]])
  then have "steps_to d (reconcileSessions w env now ms (reconcile_spawn (w m) m (env m (fst r))))"
    by (rule Cons.IH)
  moreover have "steps_to d (reconcileSessions w env now ms (fst r))" by (rule Cons.IH [OF one])
  moreover have "reconcileSessions w env now (m # ms) d' =
      (if snd r then reconcileSessions w env now ms (reconcile_spawn (w m) m (env m (fst r)))
       else reconcileSessions w env now ms (fst r))"
    unfolding reconcileSessions.simps(2) r_def [symmetric] by (simp add: case_prod_unfold split: bool.split)
  ultimately show ?case by simp
qed simp

lemma steps_gc: "steps_to d d' \<Longrightarrow> steps_to d (runGC io wr now ms d')"
  by (induction ms arbitrary: d') (simp_all add: steps_close_id split: option.split)

lemma steps_foldl: "(\<And>d' x. x \<in> set xs \<Longrightarrow> steps_to d d' \<Longrightarrow> steps_to d (f d' x)) \<Longrightarrow> steps_to d d' \<Longrightarrow> steps_to d (foldl f d' xs)"
  by (induction xs arbitrary: d') auto

lemma steps_restore: "steps_to d d' \<Longrightarrow> steps_to d (restoreSessions now rd d')"
  by (auto simp: restoreSessions_def intro!: steps_foldl steps_acts split: sum.split)

lemma steps_start: "steps_to d (fst (Start dirs listen now rd d))"
proof -
  have "steps_to d (d\<lparr>startedAt := now\<rparr>)" by (intro steps_acts steps_refl)
  then have "steps_to d (startSessionMonitor (restoreSessions now rd (d\<lparr>startedAt := now\<rparr>)))"
    by (intro steps_acts steps_restore steps_refl)
  moreover have "fst (Start dirs listen now rd d) \<in> {d, startSessionMonitor (restoreSessions now rd (d\<lparr>startedAt := now\<rparr>))}"
    by (simp add: Start_def split: option.split)
  ultimately show ?thesis using steps_refl by auto
qed

lemma steps_wait_event: "steps_to d (snd s) \<Longrightarrow> steps_to d (snd (wait_event hs s e))"
proof -
  assume s: "steps_to d (snd s)"
  obtain w d' where s': "s = (w, d')" by (cases s)
  show ?thesis
  proof (cases e)
    case Deadline
    have "steps_to d (foldl (\<lambda>d h. if h \<in> set (ew_exited w) then d else kill_process h d) d' hs)"
      using s s' by (intro steps_foldl) (auto intro: steps_acts)
    with s s' Deadline show ?thesis by simp
  qed (use s s' in simp)
qed

lemma steps_wait: "steps_to d (snd s) \<Longrightarrow> steps_to d (snd (waitForWorkersExit hs es s))"
  by (induction es arbitrary: s) (simp_all add: steps_wait_event)

lemma steps_stop_request: "steps_to d (stop_request now wr hs d)"
proof -
  have "steps_to d (stopSessionMonitor (d\<lparr>d_closed := True\<rparr>))" by (intro steps_acts steps_refl)
  then show ?thesis
    unfolding stop_request_def restartWorkersForShutdown_def
    by (intro steps_foldl) (simp_all add: restart_for_shutdown_def steps_acts)
qed

lemma steps_shutdown:
  assumes "daemon_env env"
  shows "steps_to d (Stop now wr hs1 env hs2 es d)"
proof (cases "d_closed d")
  case False
  have "steps_to d (snd (waitForWorkersExit hs2 es (start_wait hs2, env (stop_request now wr hs1 d))))"
    by (intro steps_wait) (simp add: steps_env [OF assms steps_stop_request])
  with False show ?thesis
    by (simp add: Stop_def Let_def case_prod_unfold steps_acts)
qed (simp add: Stop_def)

lemma steps_cancel_id:
  assumes "\<And>k. daemon_env (env k)"
  shows "steps_to d (fst (CancelTurn env i d))"
  by (simp add: CancelTurn_def steps_cancel steps_env assms split: option.split)

end
