(* ===== verification/Daemon_Safety.thy ===== *)
theory Daemon_Safety
  imports Daemon_Handlers
begin

text \<open>
  What holds of the daemon under every interleaving of its goroutines: the consistency of its
  maps, the isolation of what was replaced, purged or closed, and the fence that keeps a worker
  being restarted from admitting another turn.
\<close>

section \<open>Frames of a run\<close>

lemma run_not_current_session:
  assumes "m < nextMeta d" and "sessions d (sid_of d m) \<noteq> Some m"
  shows "sessions (foldl exec d acts) (sid_of (foldl exec d acts) m) \<noteq> Some m"
  using only_freshD(3,5) [OF only_fresh_run [of d acts]] assms by metis

lemma run_not_current_worker:
  assumes inv: "core_inv d" and h: "h < nextHandle d" and old: "workers d (wh_SessionID (handles d h)) \<noteq> Some h"
  shows "workers (foldl exec d acts) i \<noteq> Some h"
proof
  assume "workers (foldl exec d acts) i = Some h"
  from only_freshD(6) [OF only_fresh_run h this] have w: "workers d i = Some h" .
  with core_invD(3) [OF inv w] old show False by simp
qed

lemma not_current_ignored:
  "\<not> isCurrentSessionLocked d m \<Longrightarrow> routeMessage io now jerr env msg m h d = d"
  "\<not> isCurrentSessionLocked d m \<Longrightarrow> persistCurrentSession m f d = d"
  "\<not> isCurrentSessionLocked d m \<Longrightarrow> fst (CancelTurnMeta envs m d) = d"
  "\<not> isCurrentSessionLocked d m \<Longrightarrow> fst (beginCodexTurnIfReady m d) = d"
  by (simp_all add: routeMessage_def isCurrentSessionWorker_def isCurrentSessionLocked_def
      persistCurrentSession_def CancelTurnMeta_def beginCodexTurnIfReady_def Let_def)

section \<open>The restart fence\<close>

text \<open>
  A run in which a READY is handled while its worker is still the current one, as when no other
  goroutine comes between the gate of \<open>routeMessage\<close> and the critical section behind it.
\<close>

fun orderly :: "Daemon \<Rightarrow> daemon_act list \<Rightarrow> bool" where
  "orderly d [] = True"
| "orderly d (act # acts) =
     ((case act of AReady m h \<Rightarrow> isCurrentSessionWorker d m h | _ \<Rightarrow> True) \<and> orderly (exec d act) acts)"

fun spawns :: "mref \<Rightarrow> daemon_act \<Rightarrow> bool" where
  "spawns m (ASpawn w m') = (m' = m)"
| "spawns m _ = False"

definition fenced :: "mref \<Rightarrow> Daemon \<Rightarrow> bool" where
  "fenced m d \<longleftrightarrow> (\<exists>h. pendingRestart d m = Some h) \<and> Status (metas d m) \<noteq> StatusReady"

text \<open>Status and fence after the operations that touch neither.\<close>

definition same_fence :: "mref \<Rightarrow> Daemon \<Rightarrow> Daemon \<Rightarrow> bool" where
  "same_fence m d d' \<longleftrightarrow> pendingRestart d' m = pendingRestart d m \<and> Status (metas d' m) = Status (metas d m)"

lemma status_frames [simp]:
  "Status (AddOutput x l) = Status x" "Status (touchActive x t) = Status x"
  "Status (SetCliSessionID x cid) = Status x" "Status (AddOnClose x fn) = Status x"
  "Status (FinishTurn x) = Status x" "Status (fst (CompleteTurn x tm)) = Status x"
  "Status (fst (FailCancellingTurn x tok tm)) = Status x" "Status (fst (BeginTurn x)) = Status x"
  "Status (fst (BeginTurnCancel x)) = Status x" "Status (fst (DrainOnClose x)) = Status x"
  by (simp_all add: AddOutput_def touchActive_def SetCliSessionID_def AddOnClose_def turn_op_defs
      ensureOutputStateLocked_def publishTerminalLocked_def ensureTerminalStateLocked_def DrainOnClose_def Let_def)

lemma fenced_same: "fenced m d \<Longrightarrow> same_fence m d d' \<Longrightarrow> fenced m d'"
  by (simp add: fenced_def same_fence_def)

lemma run_on_close_status [simp]: "Status (metas (run_on_close m d) m') = Status (metas d m')"
  by (simp add: run_on_close_def Let_def case_prod_unfold)

lemma fenced_exit: "fenced m d \<Longrightarrow> fenced m (fst (exit_section h d))"
  by (auto simp: exit_section_def Let_def fenced_def deleteWorkerIfCurrentLocked_def)

lemma fenced_mark_closed: "fenced m d \<Longrightarrow> fenced m (fst (markSessionMetaClosed io now m' b d))"
  by (auto simp: markSessionMetaClosed_def Let_def fenced_def deleteWorkerIfCurrentLocked_def split: option.splits)

lemma fenced_watch: "fenced m d \<Longrightarrow> fenced m (fst (watch_section m' tok d))"
  unfolding watch_section_def Let_def
  by (auto simp: fenced_def case_prod_unfold split: option.splits)

lemma fenced_mark_restart: "fenced m d \<Longrightarrow> fenced m (fst (markCurrentWorkerRestartPending m' d))"
  unfolding markCurrentWorkerRestartPending_def Let_def
  by (auto simp: fenced_def split: option.splits)

lemma fenced_purge: "fenced m d \<Longrightarrow> fenced m (purge_maps i d)"
  by (auto simp: purge_maps_def Let_def fenced_def deleteWorkerIfCurrentLocked_def split: option.splits)

lemma fenced_rollback: "fenced m d \<Longrightarrow> fenced m (rollbackNewSession rm m' d)"
  by (simp add: rollbackNewSession_def Let_def fenced_def)

lemma fenced_alloc:
  "m < nextMeta d \<Longrightarrow> fenced m d \<Longrightarrow> fenced m (fst (register_new io x d))"
  "m < nextMeta d \<Longrightarrow> fenced m d \<Longrightarrow> fenced m (restore_one now d ps)"
  by (simp_all add: fenced_def register_new_def alloc_meta_def register_session_def restore_one_def)

lemma fenced_spawn:
  assumes "m \<noteq> m'" and "fenced m d"
  shows "fenced m (fst (spawn_core w m' d))"
proof -
  have "same_fence m d' (fst (spawn_section m' h start d'))" for h start d'
    using assms(1)
    by (auto simp: same_fence_def spawn_section_def installWorkerLocked_def deleteWorkerIfCurrentLocked_def Let_def
        split: sum.splits)
  from fenced_same [OF _ this] have s: "fenced m d' \<Longrightarrow> fenced m (fst (spawn_section m' h start d'))" for h start d' .
  have "fenced m (d\<lparr>handles := hs, nextHandle := n\<rparr>)" for hs n using assms(2) by (simp add: fenced_def)
  from s [OF this] assms(2) show ?thesis
    by (simp add: spawn_core_def alloc_handle_def case_prod_unfold Let_def split: sum.split)
qed

text \<open>The only update that could set the status back is refused.\<close>

lemma fenced_ready:
  assumes inv: "core_inv d" and f: "fenced m d" and cur: "isCurrentSessionWorker d m' h"
  shows "fenced m (fst (ready_section m' h d))"
proof (cases "m' = m")
  case True
  from f obtain h0 where p: "pendingRestart d m = Some h0" by (auto simp: fenced_def)
  from cur True have s: "sessions d (sid_of d m) = Some m" and w: "workers d (sid_of d m) = Some h"
    by (auto simp: isCurrentSessionWorker_iff)
  from core_invD(9) [OF inv p s w] p True have "pendingRestart d m' = Some h" by simp
  with f show ?thesis by (simp add: ready_section_def)
next
  case False
  with f show ?thesis by (simp add: ready_section_def fenced_def)
qed

lemma fenced_quiet:
  assumes "\<not> touches_core act" and "\<And>m' h. act \<noteq> AReady m' h" and f: "fenced m d"
  shows "fenced m (exec d act)"
proof (cases act)
  case (ABeginTurn m')
  then show ?thesis using begin_turn_cases [of m' d] f by (auto simp: fenced_def split: if_splits)
next
  case (ABeginCancel m')
  then show ?thesis using begin_cancel_cases [of m' d] f by (auto simp: fenced_def split: if_splits)
next
  case (AFailCancel m' tok c t)
  then show ?thesis using fail_cancel_cases [of m' tok c t d] f by (auto simp: fenced_def split: if_splits)
next
  case (ACommitCancel m' tok ho e)
  then show ?thesis using commit_cases [of m' tok ho e d] f by (auto simp: fenced_def split: if_splits)
next
  case (AReadyTimeout m')
  then show ?thesis using f by (simp add: ready_timeout_section_def fenced_def)
qed (use assms in \<open>auto simp: fenced_def clearSpawnFailure_def recordSpawnFailure_def leave_conn_def
      spawn_gate_def startSessionMonitor_def stopSessionMonitor_def Let_def\<close>)

lemma fenced_exec:
  assumes inv: "core_inv d" and m: "m < nextMeta d" and f: "fenced m d"
    and ord: "orderly d [act]" and sp: "\<not> spawns m act"
  shows "fenced m (exec d act)"
proof (cases "\<exists>m' h. act = AReady m' h")
  case True
  with ord f inv show ?thesis by (auto simp: fenced_ready)
next
  case False
  show ?thesis
  proof (cases "touches_core act")
    case True
    then show ?thesis
      using f m sp by (cases act) (simp_all add: fenced_alloc fenced_rollback fenced_spawn fenced_exit
          fenced_mark_closed fenced_purge fenced_watch fenced_mark_restart)
  qed (use fenced_quiet False f in blast)
qed

lemma fenced_run:
  "core_inv d \<Longrightarrow> m < nextMeta d \<Longrightarrow> fenced m d \<Longrightarrow> orderly d acts \<Longrightarrow> \<forall>act\<in>set acts. \<not> spawns m act
     \<Longrightarrow> fenced m (foldl exec d acts)"
proof (induction acts arbitrary: d)
  case (Cons act acts)
  have "fenced m (exec d act)" using Cons.prems by (intro fenced_exec) auto
  moreover have "m < nextMeta (exec d act)"
    using only_freshD(1) [OF only_fresh_exec [of d act]] Cons.prems(2) by simp
  ultimately show ?case using Cons.prems by (auto intro: Cons.IH core_inv_exec)
qed simp

text \<open>What sets the fence.\<close>

lemma watch_fences:
  assumes "snd (watch_section m tok d)" and "workers d (sid_of d m) = Some h"
  shows "fenced m (fst (watch_section m tok d))"
  using assms unfolding watch_section_def Let_def
  by (auto simp: fenced_def case_prod_unfold split: if_splits)

lemma fenced_refuses: "fenced m d \<Longrightarrow> snd (beginCodexTurnIfReady m d) \<noteq> None \<and> fst (beginCodexTurnIfReady m d) = d"
  by (auto simp: beginCodexTurnIfReady_def fenced_def Let_def)

section \<open>A sample run\<close>

definition sample_config :: DaemonConfig where
  "sample_config = \<lparr>ListenAddr = ''127.0.0.1:17890'', DashboardAddr = ''127.0.0.1:17891'', LogLevel = ''info'',
     SessionsDir = ''/s'', Bots = []\<rparr>"

definition sample_world :: spawn_world where
  "sample_world = \<lparr>sw_now = 5, sw_rand = Inr (replicate 16 (CHR ''a'')), sw_start = Inr 7, sw_io = IoOk\<rparr>"

definition sample_acts :: "daemon_act list" where
  "sample_acts =
     [ARegister IoOk (zero_meta\<lparr>SessionID := ''s'', CliType := CliCodex\<rparr>), ASpawn sample_world 0,
      AReady 0 0, AMarkReady 0, ABeginTurn 0]"

definition sample_state :: Daemon where
  "sample_state = foldl exec (New sample_config Map.empty) sample_acts"

lemma sample_reachable: "sample_state = foldl exec (New sample_config Map.empty) sample_acts"
  by (simp add: sample_state_def)

section \<open>Properties of every run\<close>

text \<open>
  C4: in every state the daemon can reach, the maps are consistent: what is registered under a
  session id carries that id and was allocated; a worker's owner has the worker's id; and while a
  restart is pending for the current session of an id, no other worker generation holds that
  session's slot.
\<close>

theorem maps_consistent:
  assumes "d = foldl exec (New c disk) acts"
  shows "(\<forall>i m. sessions d i = Some m \<longrightarrow> sid_of d m = i \<and> m < nextMeta d)
    \<and> (\<forall>i h. workers d i = Some h \<longrightarrow> wh_SessionID (handles d h) = i \<and> h < nextHandle d)
    \<and> (\<forall>h m. workerOwners d h = Some m \<longrightarrow> wh_SessionID (handles d h) = sid_of d m)
    \<and> (\<forall>m h. pendingRestart d m = Some h \<longrightarrow> isCurrentSession d m \<longrightarrow>
         workers d (sid_of d m) \<in> {None, Some h})"
proof -
  have inv: "core_inv d" using core_inv_run [OF core_inv_New] assms by simp
  have "workers d (sid_of d m) \<in> {None, Some h}"
    if "pendingRestart d m = Some h" "isCurrentSession d m" for m h
    using core_invD(9) [OF inv that(1)] that(2)
    by (cases "workers d (sid_of d m)") (auto simp: isCurrentSession_def isCurrentSessionLocked_def)
  then show ?thesis using core_invD(1,2,3,4,5) [OF inv] by blast
qed

theorem maps_consistent_witness:
  "sessions sample_state ''s'' = Some 0 \<and> workers sample_state ''s'' = Some 0
     \<and> sid_of sample_state 0 = ''s'' \<and> wh_SessionID (handles sample_state 0) = ''s''"
proof -
  have "sessions sample_state ''s'' = Some 0" "workers sample_state ''s'' = Some 0" by code_simp+
  with maps_consistent [OF sample_reachable] show ?thesis by blast
qed

text \<open>
  C16: once a session record is no longer the registered one (purged, or its id taken over by a
  new session), it never is again, whatever the goroutines do: messages of its old worker change
  nothing, it is never persisted, and no turn begins on it or is cancelled through it.
\<close>

theorem purged_session_silenced:
  assumes "m < nextMeta d" and "\<not> isCurrentSession d m" and "d' = foldl exec d acts"
  shows "\<not> isCurrentSession d' m \<and> routeMessage io now jerr env msg m h d' = d'
    \<and> persistCurrentSession m f d' = d' \<and> fst (CancelTurnMeta envs m d') = d'
    \<and> fst (beginCodexTurnIfReady m d') = d'"
proof -
  have "\<not> isCurrentSessionLocked d' m"
    using run_not_current_session [OF assms(1), of acts] assms(2,3)
    by (simp add: isCurrentSession_def isCurrentSessionLocked_def)
  then show ?thesis by (simp add: not_current_ignored isCurrentSession_def)
qed

theorem purged_session_silenced_witness:
  "\<not> isCurrentSession (foldl exec (exec sample_state (APurgeMaps ''s'')) sample_acts) 0
     \<and> isCurrentSession (foldl exec (exec sample_state (APurgeMaps ''s'')) sample_acts) 1"
proof -
  have "0 < nextMeta (exec sample_state (APurgeMaps ''s''))"
    "\<not> isCurrentSession (exec sample_state (APurgeMaps ''s'')) 0" by code_simp+
  note purged_session_silenced [OF this refl]
  moreover have "isCurrentSession (foldl exec (exec sample_state (APurgeMaps ''s'')) sample_acts) 1" by code_simp
  ultimately show ?thesis by blast
qed

text \<open>
  C6: once a worker generation has been replaced or has left its session's slot, it never holds
  a slot again in any run: whatever it still sends, for whichever session record its connection
  was admitted, changes nothing, its readiness timeout does nothing, and the forced kill of an
  overdue restart does not hit the generation that took its place.
\<close>

theorem replaced_worker_silenced:
  assumes "d = foldl exec (New c disk) acts" and "h < nextHandle d" and "\<not> isCurrentWorker d h"
    and "d' = foldl exec d acts'"
  shows "workers d' i \<noteq> Some h \<and> routeMessage io now jerr env msg m h d' = d'
    \<and> monitorReady_timeout now h m d' = d' \<and> restart_grace_over m h d' = d'"
proof -
  have "core_inv d" using core_inv_run [OF core_inv_New] assms(1) by simp
  from run_not_current_worker [OF this assms(2)] assms(3,4)
  have w: "workers d' i \<noteq> Some h" for i by (simp add: isCurrentWorker_def)
  then show ?thesis
    by (simp add: routeMessage_def isCurrentSessionWorker_def monitorReady_timeout_def isCurrentWorker_def
        restart_grace_over_def isCurrentWorkerForSession_def)
qed

theorem replaced_worker_silenced_witness:
  "workers (foldl exec (exec sample_state (ASpawn sample_world 0)) [AReady 0 0]) ''s'' = Some 1
    \<and> routeMessage IoOk 0 [] id (NewMessage 0 MsgReady ''s'' []) 0 0
        (foldl exec (exec sample_state (ASpawn sample_world 0)) [AReady 0 0])
      = foldl exec (exec sample_state (ASpawn sample_world 0)) [AReady 0 0]"
proof -
  let ?d = "exec sample_state (ASpawn sample_world 0)"
  have "?d = foldl exec (New sample_config Map.empty) (sample_acts @ [ASpawn sample_world 0])"
    by (simp add: sample_state_def)
  moreover have "0 < nextHandle ?d" "\<not> isCurrentWorker ?d 0" by code_simp+
  ultimately have "routeMessage IoOk 0 [] id (NewMessage 0 MsgReady ''s'' []) 0 0 (foldl exec ?d [AReady 0 0])
      = foldl exec ?d [AReady 0 0]"
    using replaced_worker_silenced by blast
  moreover have "workers (foldl exec ?d [AReady 0 0]) ''s'' = Some 1" by code_simp
  ultimately show ?thesis by blast
qed

text \<open>
  C1: when the watchdog of a cancelled turn fires and asks for a restart, the session admits no
  turn until a new worker generation has been spawned for it: over every run in which each READY
  is handled while its sender is still the current worker, the session does not become READY and
  an input is refused, leaving the state as it was.
\<close>

theorem restart_fences_turns:
  assumes "d = foldl exec (New c disk) acts" and "watch_section m tok d = (d1, True)"
    and "workers d (sid_of d m) = Some h" and "orderly d1 acts'" and "\<forall>act\<in>set acts'. \<not> spawns m act"
    and "d2 = foldl exec d1 acts'"
  shows "Status (metas d2 m) \<noteq> StatusReady \<and> snd (beginCodexTurnIfReady m d2) \<noteq> None
    \<and> fst (beginCodexTurnIfReady m d2) = d2"
proof -
  have inv: "core_inv d" using core_inv_run [OF core_inv_New] assms(1) by simp
  have d1: "d1 = fst (watch_section m tok d)" and t: "snd (watch_section m tok d)" using assms(2) by simp_all
  have "isCurrentSessionLocked d m" using t
    unfolding watch_section_def Let_def by (auto simp: case_prod_unfold split: if_splits)
  then have "m < nextMeta d" using core_invD(2) [OF inv] by (auto simp: isCurrentSessionLocked_def)
  then have "m < nextMeta d1" using only_freshD(1) [OF fresh_watch [of d m tok]] d1 by simp
  from fenced_run [OF _ this _ assms(4,5)] core_inv_watch [OF inv] watch_fences [OF t assms(3)] d1 assms(6)
  have "fenced m d2" by simp
  then show ?thesis using fenced_refuses by (simp add: fenced_def)
qed

theorem restart_fences_turns_witness:
  "snd (beginCodexTurnIfReady 0 (exec (fst (watch_section 0 1 (exec sample_state (ABeginCancel 0)))) (AReady 0 0))) \<noteq> None"
proof -
  let ?d = "exec sample_state (ABeginCancel 0)"
  have "?d = foldl exec (New sample_config Map.empty) (sample_acts @ [ABeginCancel 0])" by (simp add: sample_state_def)
  moreover have "snd (watch_section 0 1 ?d)" by code_simp
  then have "watch_section 0 1 ?d = (fst (watch_section 0 1 ?d), True)" by (simp add: prod_eq_iff)
  moreover have "workers ?d (sid_of ?d 0) = Some 0" "isCurrentSessionWorker (fst (watch_section 0 1 ?d)) 0 0" by code_simp+
  ultimately show ?thesis
    using restart_fences_turns [of ?d sample_config Map.empty "sample_acts @ [ABeginCancel 0]" 0 1
        "fst (watch_section 0 1 ?d)" 0 "[AReady 0 0]" "exec (fst (watch_section 0 1 ?d)) (AReady 0 0)"]
    by simp
qed

end
