(* ===== verification/Daemon_Endings.thy ===== *)
theory Daemon_Endings
  imports Daemon_Safety
begin

text \<open>
  How turns, sessions, workers and the daemon itself come to an end: a cancelled turn ends at the
  latest when its watchdog fires; a closed session stays closed; a worker's exit frees its slot;
  a shutdown waits for every worker and kills those that outlive the grace period.
\<close>

section \<open>A cancelled turn\<close>

text \<open>
  What an action can do to a turn: the token stays, and then the turn does not come back to life
  nor lose its cancellation; or the token moves on by one.
\<close>

definition turn_moves :: "SessionMeta \<Rightarrow> SessionMeta \<Rightarrow> bool" where
  "turn_moves x x' \<longleftrightarrow>
     (turnToken x' = turnToken x \<and> (turnActive x' \<longrightarrow> turnActive x \<and> (turnCancelling x \<longrightarrow> turnCancelling x')))
     \<or> turnToken x' = turnToken x + 1"

lemma turn_moves_refl [simp]: "turn_moves x x"
  by (simp add: turn_moves_def)

lemma turn_moves_ops [simp]:
  "turn_moves x (AddOutput x l)" "turn_moves x (touchActive x tm)" "turn_moves x (SetCliSessionID x cid)"
  "turn_moves x (AddOnClose x fn)" "turn_moves x (FinishTurn x)" "turn_moves x (fst (CompleteTurn x term))"
  "turn_moves x (fst (FailCancellingTurn x tok term))" "turn_moves x (fst (BeginTurn x))"
  "turn_moves x (fst (BeginTurnCancel x))" "turn_moves x (fst (SnapshotOutputSince x cur))"
  "turn_moves x (fst (SnapshotTerminalsSince x cur))" "turn_moves x (x\<lparr>onClose := []\<rparr>)"
  by (simp_all add: turn_moves_def AddOutput_def touchActive_def SetCliSessionID_def AddOnClose_def turn_op_defs
      SnapshotOutputSince_def SnapshotTerminalsSince_def ensureOutputStateLocked_def Let_def)

lemma turn_moves_status [simp]:
  "turn_moves x (x\<lparr>Status := st\<rparr>)" "turn_moves x (x\<lparr>Closed := c, Status := st\<rparr>)"
  by (simp_all add: turn_moves_def)

lemma turn_moves_status_of: "turn_moves x y \<Longrightarrow> turn_moves x (y\<lparr>Status := st\<rparr>)"
  by (simp add: turn_moves_def)

lemma moves_spawn: "turn_moves (metas d m) (metas (fst (spawn_core w m' d)) m)"
proof -
  have "turn_moves (metas d' m) (metas (fst (spawn_section m' h start d')) m)" for h start d'
    by (simp add: spawn_section_def installWorkerLocked_def Let_def split: sum.splits)
  from this [of "d\<lparr>handles := hs, nextHandle := n\<rparr>" for hs n] show ?thesis
    by (simp add: spawn_core_def alloc_handle_def case_prod_unfold Let_def split: sum.split)
qed

lemma moves_sections:
  "turn_moves (metas d m) (metas (fst (watch_section m' tok d)) m)"
  "turn_moves (metas d m) (metas (fst (markCurrentWorkerRestartPending m' d)) m)"
  "turn_moves (metas d m) (metas (fst (markSessionMetaClosed io now m' b d)) m)"
  "turn_moves (metas d m) (metas (fst (exit_section h d)) m)"
  unfolding watch_section_def markCurrentWorkerRestartPending_def markSessionMetaClosed_def exit_section_def Let_def
  by (auto simp: case_prod_unfold turn_moves_status_of split: option.split)

lemma moves_core:
  assumes "m < nextMeta d" and "touches_core act"
  shows "turn_moves (metas d m) (metas (exec d act) m)"
  using assms
  by (cases act) (auto simp: moves_spawn moves_sections register_new_def alloc_meta_def register_session_def
      restore_one_def rollbackNewSession_def purge_maps_def Let_def split: option.split)

lemma moves_quiet:
  assumes "\<not> touches_core act"
  shows "turn_moves (metas d m) (metas (exec d act) m)"
proof (cases act)
  case (ABeginTurn m')
  then show ?thesis using begin_turn_cases [of m' d] by auto
next
  case (ABeginCancel m')
  then show ?thesis using begin_cancel_cases [of m' d] by auto
next
  case (AFailCancel m' tok c tm)
  then show ?thesis using fail_cancel_cases [of m' tok c tm d] by auto
next
  case (ACommitCancel m' tok ho e)
  then show ?thesis using commit_cases [of m' tok ho e d] by auto
next
  case (AReadyTimeout m')
  then show ?thesis by (auto simp: ready_timeout_section_def)
next
  case (AReady m' h)
  then show ?thesis by (auto simp: ready_section_def)
next
  case (ARunOnClose m')
  then show ?thesis by (auto simp: run_on_close_def DrainOnClose_def Let_def)
qed (use assms in \<open>auto simp: clearSpawnFailure_def recordSpawnFailure_def leave_conn_def
      spawn_gate_def startSessionMonitor_def stopSessionMonitor_def Let_def\<close>)

lemma moves_exec: "m < nextMeta d \<Longrightarrow> turn_moves (metas d m) (metas (exec d act) m)"
  using moves_core moves_quiet by blast

text \<open>After \<open>n\<close> actions the token has moved on by at most \<open>n\<close>; if not at all, the turn is over or still being cancelled.\<close>

definition cancel_holds :: "u64 \<Rightarrow> nat \<Rightarrow> SessionMeta \<Rightarrow> bool" where
  "cancel_holds tok n x \<longleftrightarrow>
     (\<exists>k \<le> n. turnToken x = tok + of_nat k \<and> (k = 0 \<longrightarrow> turnActive x \<longrightarrow> turnCancelling x))"

lemma cancel_holds_move: "cancel_holds tok n x \<Longrightarrow> turn_moves x x' \<Longrightarrow> cancel_holds tok (Suc n) x'"
proof -
  assume h: "cancel_holds tok n x" and mv: "turn_moves x x'"
  then obtain k where k: "k \<le> n" "turnToken x = tok + of_nat k" "k = 0 \<longrightarrow> turnActive x \<longrightarrow> turnCancelling x"
    by (auto simp: cancel_holds_def)
  show ?thesis
  proof (cases "turnToken x' = turnToken x + 1")
    case True
    with k show ?thesis unfolding cancel_holds_def by (intro exI [of _ "Suc k"]) (simp add: add_ac)
  next
    case False
    with mv k show ?thesis unfolding cancel_holds_def turn_moves_def by (intro exI [of _ k]) auto
  qed
qed

lemma cancel_holds_run:
  "m < nextMeta d \<Longrightarrow> cancel_holds tok n (metas d m) \<Longrightarrow> cancel_holds tok (n + length acts) (metas (foldl exec d acts) m)"
proof (induction acts arbitrary: d n)
  case (Cons act acts)
  have "m < nextMeta (exec d act)" using only_freshD(1) [OF only_fresh_exec [of d act]] Cons.prems(1) by simp
  from Cons.IH [OF this cancel_holds_move [OF Cons.prems(2) moves_exec [OF Cons.prems(1)]]]
  show ?case by simp
qed simp

lemma cancel_holds_same:
  assumes "cancel_holds tok n x" and "n < 2 ^ 64" and "turnToken x = tok" and "turnActive x"
  shows "turnCancelling x"
proof -
  from assms obtain k where k: "k \<le> n" "(of_nat k :: u64) = 0" "k = 0 \<longrightarrow> turnActive x \<longrightarrow> turnCancelling x"
    by (auto simp: cancel_holds_def)
  have "k < 2 ^ 64" using k(1) assms(2) by simp
  then have "unat (of_nat k :: u64) = k" by (rule unat_of_nat_small)
  with k(2) have "k = 0" by simp
  with k(3) assms(4) show ?thesis by simp
qed

section \<open>What CancelTurn accepts\<close>

definition cancel_open :: "mref \<Rightarrow> Daemon \<Rightarrow> bool" where
  "cancel_open m d \<longleftrightarrow> isCurrentSession d m \<and> \<not> Closed (metas d m) \<and> CliType (metas d m) = CliCodex"

definition cancellable :: "mref \<Rightarrow> Daemon \<Rightarrow> bool" where
  "cancellable m d \<longleftrightarrow> cancel_open m d \<and> turnActive (metas d m) \<and> \<not> turnCancelling (metas d m)"

lemma begin_cancel_ok:
  "beginTurnCancelIfCurrent m d =
     (if cancellable m d then (upd_meta m (\<lambda>x. x\<lparr>turnCancelling := True\<rparr>) d, turnToken (metas d m), True)
      else (d, 0, False))"
  by (simp add: cancellable_def cancel_open_def isCurrentSession_def beginTurnCancelIfCurrent_def
      beginTurnCancelIfCurrentLocked_def BeginTurnCancel_def upd_meta_def Let_def)

lemma cancel_refused_first: "\<not> cancel_open m d \<Longrightarrow> fst (CancelTurnMeta env m d) = d \<and> isl (snd (CancelTurnMeta env m d))"
  by (auto simp: CancelTurnMeta_def cancel_open_def isCurrentSession_def Let_def)

text \<open>
  Cancelling a turn succeeds exactly when the session is the registered one, open and a Codex
  session, its current worker is ready when that is checked, and the session is still the
  registered one, open, and has an active turn that is not being cancelled yet when the
  cancellation begins; it then returns that turn's token and marks the turn. A cancellation that is
  refused changes nothing itself.
\<close>

lemma cancel_turn_spec:
  "(snd (CancelTurnMeta env m d) = Inr tok \<longleftrightarrow>
      cancel_open m d \<and> hasReadyCurrentWorkerForSession (env 0 d) m \<and> cancellable m (env 1 (env 0 d))
      \<and> tok = turnToken (metas (env 1 (env 0 d)) m))
   \<and> (\<not> isl (snd (CancelTurnMeta env m d)) \<longrightarrow>
        fst (CancelTurnMeta env m d) = upd_meta m (\<lambda>x. x\<lparr>turnCancelling := True\<rparr>) (env 1 (env 0 d)))
   \<and> (isl (snd (CancelTurnMeta env m d)) \<longrightarrow>
        fst (CancelTurnMeta env m d) \<in> {d, env 1 (env 0 d), env 2 (env 1 (env 0 d))})"
  by (auto simp: CancelTurnMeta_def cancel_open_def Let_def isCurrentSession_def begin_cancel_ok
      simp del: One_nat_def)

lemma cancel_accepted:
  assumes "CancelTurnMeta env m d = (d1, Inr tok)"
  shows "cancel_open m d" "hasReadyCurrentWorkerForSession (env 0 d) m" "cancellable m (env 1 (env 0 d))"
    "tok = turnToken (metas (env 1 (env 0 d)) m)"
    "d1 = upd_meta m (\<lambda>x. x\<lparr>turnCancelling := True\<rparr>) (env 1 (env 0 d))"
  using cancel_turn_spec [of env m d tok] assms by (simp_all del: One_nat_def)

text \<open>
  C2: an accepted cancellation always ends its turn. Whatever the daemon does while the request is
  checked, and between the request and the expiry of its watchdog (fewer than \<open>2 ^ 64\<close> actions, so
  that turn numbers do not come round), after the watchdog's critical section the cancelled turn is
  not active, unless the session has been closed, purged or replaced meanwhile.
\<close>

theorem cancelled_turn_ends:
  assumes "d = foldl exec (New c disk) acts0" and "\<forall>k. daemon_env (env k)"
    and "CancelTurnMeta env m d = (d1, Inr tok)"
    and "d2 = foldl exec d1 acts" and "length acts < 2 ^ 64"
    and "isCurrentSession d2 m" and "\<not> Closed (metas d2 m)"
    and "d3 = fst (watch_section m tok d2)"
  shows "\<not> (turnActive (metas d3 m) \<and> turnToken (metas d3 m) = tok)"
proof -
  let ?d = "env 1 (env 0 d)"
  note env = assms(2) [THEN spec]
  have "steps_to (New c disk) d" unfolding assms(1) reaches_def by blast
  then obtain acts1 where "?d = foldl exec (New c disk) acts1"
    using steps_env [OF env steps_env [OF env], of "New c disk" d 1 0] unfolding reaches_def by blast
  then have inv: "core_inv ?d" using core_inv_run [OF core_inv_New] by simp
  note acc = cancel_accepted [OF assms(3)]
  have "sessions ?d (sid_of ?d m) = Some m"
    using acc(3) by (simp add: cancellable_def cancel_open_def isCurrentSession_def isCurrentSessionLocked_def)
  then have m: "m < nextMeta d1" using core_invD(2) [OF inv] acc(5) by auto
  have "cancel_holds tok 0 (metas d1 m)" using acc(4,5) by (simp add: cancel_holds_def)
  from cancel_holds_run [OF m this, of acts] have h: "cancel_holds tok (length acts) (metas d2 m)"
    using assms(4) by simp
  let ?f = "FailCancellingTurn (metas d2 m) tok cancel_timeout_terminal"
  have "turnActive (metas d3 m) = turnActive (fst ?f) \<and> turnToken (metas d3 m) = turnToken (fst ?f)"
    using assms(6,7) unfolding assms(8) watch_section_def Let_def
    by (simp add: isCurrentSession_def case_prod_unfold split: option.split)
  with cancel_holds_same [OF h assms(5)] show ?thesis
    by (auto simp: FailCancellingTurn_def finishTurnLocked_def split: if_splits)
qed

theorem cancelled_turn_ends_witness:
  "\<not> turnActive (metas (fst (watch_section 0 1 (exec (fst (CancelTurnMeta (\<lambda>_. id) 0 sample_state)) (AOutput 0 ''x'')))) 0)"
proof -
  let ?d1 = "fst (CancelTurnMeta (\<lambda>_. id) 0 sample_state)"
  let ?d2 = "exec ?d1 (AOutput 0 ''x'')"
  have "snd (CancelTurnMeta (\<lambda>_. id) 0 sample_state) = Inr 1" by code_simp
  then have "CancelTurnMeta (\<lambda>_. id) 0 sample_state = (?d1, Inr 1)" by (simp add: prod_eq_iff)
  moreover have "?d2 = foldl exec ?d1 [AOutput 0 ''x'']" by simp
  moreover have "isCurrentSession ?d2 0" "\<not> Closed (metas ?d2 0)" by code_simp+
  ultimately have "\<not> (turnActive (metas (fst (watch_section 0 1 ?d2)) 0) \<and> turnToken (metas (fst (watch_section 0 1 ?d2)) 0) = 1)"
    using cancelled_turn_ends [OF sample_reachable, of "\<lambda>_. id" 0 ?d1 1 ?d2 "[AOutput 0 ''x'']"] by (simp add: env_of_id)
  moreover have "turnToken (metas (fst (watch_section 0 1 ?d2)) 0) = 1" by code_simp
  ultimately show ?thesis by blast
qed

section \<open>Closed sessions\<close>

lemma live_no_replace: "\<not> live.run_replaces d acts m"
  by (induction acts arbitrary: d) simp_all



section \<open>The exit of a worker\<close>

lemma exit_section_current:
  assumes "isCurrentSessionWorker d m h" and "wh_SessionID (handles d h) = sid_of d m"
  shows "exit_section h d =
     ((if Closed (metas d m) then id else set_status m StatusRecovering)
        (d\<lparr>workers := (workers d)(sid_of d m := None), workerOwners := (workerOwners d)(h := None)\<rparr>),
      Some m, \<not> Closed (metas d m))"
  using assms
  by (simp add: exit_section_def Let_def isCurrentSessionWorker_iff workerOwnerLocked_def
      isCurrentSessionLocked_def deleteWorkerIfCurrentLocked_def)

lemma exit_section_stale:
  assumes "\<forall>m. \<not> isCurrentSessionWorker d m h" and "\<forall>m. workerOwners d h = Some m \<longrightarrow> sid_of d m = wh_SessionID (handles d h)"
  shows "exit_section h d = (d\<lparr>workerOwners := (workerOwners d)(h := None)\<rparr>, None, False)"
proof (cases "workerOwners d h")
  case None
  then have "(workerOwners d)(h := None) = workerOwners d" by (rule fun_upd_idem)
  with None show ?thesis by (simp add: exit_section_def Let_def workerOwnerLocked_def)
next
  case (Some m)
  from assms(2) Some have "sid_of d m = wh_SessionID (handles d h)" by blast
  with assms(1) [THEN spec, of m] Some
  have "\<not> (workers d (wh_SessionID (handles d h)) = Some h \<and> isCurrentSessionLocked d m)"
    by (auto simp: isCurrentSessionLocked_def isCurrentSessionWorker_iff)
  then have c: "(workers d (wh_SessionID (handles d h)) = Some h \<and> Some m \<noteq> None
      \<and> isCurrentSessionLocked d (the (Some m))) = False" by simp
  show ?thesis
    unfolding exit_section_def Let_def workerOwnerLocked_def Some c by simp
qed

text \<open>After the exit section neither the maps nor a status change any more.\<close>

lemma wait_exit_frame:
  "sessions (waitWorkerExit now h d) = sessions (fst (exit_section h d))"
  "workers (waitWorkerExit now h d) = workers (fst (exit_section h d))"
  "workerOwners (waitWorkerExit now h d) = workerOwners (fst (exit_section h d))"
  "Status (metas (waitWorkerExit now h d) m) = Status (metas (fst (exit_section h d)) m)"
  "ExitDone (handles (waitWorkerExit now h d) h)" "Conn (handles (waitWorkerExit now h d) h) = None"
  by (simp_all add: waitWorkerExit_def Let_def case_prod_unfold recordSpawnFailure_def close_handle_def CloseConn_def
      split: option.split)

text \<open>
  C15: when a worker process exits, its connection is closed and its exit reported; it owns nothing
  any more; if it was the current worker of its session it leaves the session's slot, and the
  session is marked RECOVERING unless it is closed. Every other session, worker and status stays
  as it was: the exit of a replaced generation disturbs nothing.
\<close>

theorem worker_exit_spec:
  assumes "d = foldl exec (New c disk) acts" and "d' = waitWorkerExit now h d"
  shows "ExitDone (handles d' h) \<and> Conn (handles d' h) = None \<and> sessions d' = sessions d
    \<and> workerOwners d' = (workerOwners d)(h := None)
    \<and> (\<forall>i. workers d' i = (if workers d i = Some h \<and> (\<exists>m. isCurrentSessionWorker d m h) then None else workers d i))
    \<and> (\<forall>m. Status (metas d' m) = (if isCurrentSessionWorker d m h \<and> \<not> Closed (metas d m)
           then StatusRecovering else Status (metas d m)))"
proof -
  have inv: "core_inv d" using core_inv_run [OF core_inv_New] assms(1) by simp
  have ids: "workerOwners d h = Some m \<Longrightarrow> sid_of d m = wh_SessionID (handles d h)" for m
    using core_invD(5) [OF inv] by metis
  have slot: "workers d i = Some h \<Longrightarrow> i = wh_SessionID (handles d h)" for i
    using core_invD(3) [OF inv] by metis
  show ?thesis
  proof (cases "\<exists>m. isCurrentSessionWorker d m h")
    case True
    then obtain m where m: "isCurrentSessionWorker d m h" by blast
    then have o: "workerOwners d h = Some m" and w: "workers d (sid_of d m) = Some h"
      by (simp_all add: isCurrentSessionWorker_iff)
    have only: "isCurrentSessionWorker d m' h \<longleftrightarrow> m' = m" for m'
      using m o by (auto simp: isCurrentSessionWorker_iff)
    note sec = exit_section_current [OF m ids [OF o, symmetric]]
    have "workers d i = Some h \<longleftrightarrow> i = sid_of d m" for i using slot ids [OF o] w by metis
    with sec show ?thesis
      by (simp add: assms(2) wait_exit_frame only)
  next
    case False
    with exit_section_stale [of d h] ids show ?thesis
      by (simp add: assms(2) wait_exit_frame)
  qed
qed

theorem worker_exit_spec_witness:
  "workers (waitWorkerExit 9 0 sample_state) ''s'' = None
    \<and> Status (metas (waitWorkerExit 9 0 sample_state) 0) = StatusRecovering"
proof -
  have "workers sample_state ''s'' = Some 0" "isCurrentSessionWorker sample_state 0 0" "\<not> Closed (metas sample_state 0)"
    by code_simp+
  with worker_exit_spec [OF sample_reachable refl, of 9 0] show ?thesis by auto
qed

section \<open>Shutdown\<close>

definition exits :: "exit_event list \<Rightarrow> href set" where
  "exits es = {h. WorkerExited h \<in> set es}"

lemma exits_simps [simp]:
  "exits [] = {}" "exits (WorkerExited h # es) = insert h (exits es)" "exits (Deadline # es) = exits es"
  "exits (es @ fs) = exits es \<union> exits fs"
  by (auto simp: exits_def)

definition wait_ok :: "href list \<Rightarrow> exit_wait \<Rightarrow> bool" where
  "wait_ok hs w \<longleftrightarrow> distinct (ew_exited w) \<and> set (ew_exited w) \<subseteq> set hs
     \<and> ew_remaining w = length hs - length (ew_exited w)"

lemma wait_ok_done:
  assumes "distinct hs" and "wait_ok hs w"
  shows "ew_remaining w = 0 \<longleftrightarrow> set (ew_exited w) = set hs"
proof -
  have c: "card (set (ew_exited w)) = length (ew_exited w)" "card (set hs) = length hs"
    using assms by (simp_all add: wait_ok_def distinct_card)
  have sub: "set (ew_exited w) \<subseteq> set hs" and r: "ew_remaining w = length hs - length (ew_exited w)"
    using assms(2) by (simp_all add: wait_ok_def)
  show ?thesis
    using card_subset_eq [OF _ sub] card_mono [OF _ sub] c r by auto
qed

lemma wait_ok_event:
  assumes "distinct hs" and "wait_ok hs w" and "exits [e] \<subseteq> set hs"
  shows "wait_ok hs (fst (wait_event hs (w, d) e))"
  using assms by (cases e) (auto simp: wait_ok_def)

lemma wait_event_exited: "set (ew_exited (fst (wait_event hs (w, d) e))) = set (ew_exited w) \<union> exits [e]"
  by (cases e) auto

text \<open>The wait returns once every worker's exit has been received, and not before.\<close>

lemma wait_run:
  assumes "distinct hs" and "wait_ok hs (fst s)" and "exits es \<subseteq> set hs"
  shows "ew_remaining (fst (waitForWorkersExit hs es s)) = 0 \<longleftrightarrow> set (ew_exited (fst s)) \<union> exits es = set hs"
  using assms
proof (induction es arbitrary: s)
  case Nil
  then show ?case using wait_ok_done [of hs "fst s"] by simp
next
  case (Cons e es)
  obtain w d where s: "s = (w, d)" by (cases s)
  have e: "exits [e] \<subseteq> set hs" "exits es \<subseteq> set hs" "exits (e # es) = exits [e] \<union> exits es"
    using Cons.prems(3) by (auto simp: exits_def)
  show ?case
  proof (cases "ew_remaining w = 0")
    case True
    then show ?thesis using wait_ok_done [of hs w] Cons.prems s by auto
  next
    case False
    have "ew_remaining (fst (waitForWorkersExit hs es (wait_event hs s e))) = 0
        \<longleftrightarrow> set (ew_exited (fst (wait_event hs s e))) \<union> exits es = set hs"
      by (rule Cons.IH) (use Cons.prems e s in \<open>auto simp: wait_ok_event\<close>)
    with False s e(3) show ?thesis by (simp add: wait_event_exited Un_assoc)
  qed
qed

lemma wait_no_more_kills:
  "ew_late (fst s) \<Longrightarrow> killed (snd (waitForWorkersExit hs es s)) = killed (snd s)"
proof (induction es arbitrary: s)
  case (Cons e es)
  obtain w d where s: "s = (w, d)" by (cases s)
  with Cons.prems have "ew_late (fst (wait_event hs s e))" "snd (wait_event hs s e) = d" by (cases e; simp)+
  with Cons.IH [of "wait_event hs s e"] s show ?case by (simp del: wait_event.simps)
qed simp

lemma kill_rest:
  "killed (foldl (\<lambda>d h. if h \<in> X then d else kill_process h d) d hs)
     = killed d @ filter (\<lambda>h. h \<notin> X \<and> Process (handles d h)) hs"
  by (induction hs arbitrary: d) (auto simp: kill_process_def)

lemma restart_for_shutdown_frames [simp]:
  "handles (restartWorkersForShutdown now wr hs d) = handles d"
  "killed (restartWorkersForShutdown now wr hs d) = killed d"
proof -
  have "handles (foldl (restart_for_shutdown now wr) d hs) = handles d
      \<and> killed (foldl (restart_for_shutdown now wr) d hs) = killed d" for d
    by (induction hs arbitrary: d) (simp_all add: restart_for_shutdown_def send_handle_def split: option.split)
  then show "handles (restartWorkersForShutdown now wr hs d) = handles d"
    "killed (restartWorkersForShutdown now wr hs d) = killed d"
    by (simp_all add: restartWorkersForShutdown_def)
qed

lemma start_wait_ok: "wait_ok hs (start_wait hs)" "ew_exited (start_wait hs) = []" "\<not> ew_late (start_wait hs)"
  by (simp_all add: wait_ok_def start_wait_def)

text \<open>The workers a wait kills: those whose exit has not been received when the deadline passes.\<close>

definition outlived :: "href list \<Rightarrow> exit_event list \<Rightarrow> Daemon \<Rightarrow> href list" where
  "outlived hs es d =
     (if Deadline \<in> set es
      then filter (\<lambda>h. h \<notin> exits (takeWhile (\<lambda>e. e \<noteq> Deadline) es) \<and> Process (handles d h)) hs else [])"

lemma outlived_exit:
  "outlived hs (WorkerExited h # es) d = filter (\<lambda>h'. h' \<noteq> h) (outlived hs es d)"
  by (auto simp: outlived_def intro: filter_cong)

lemma wait_kills:
  assumes "distinct hs" and "wait_ok hs (fst s)" and "exits es \<subseteq> set hs" and "\<not> ew_late (fst s)"
  shows "killed (snd (waitForWorkersExit hs es s))
    = killed (snd s) @ filter (\<lambda>h. h \<notin> set (ew_exited (fst s))) (outlived hs es (snd s))"
  using assms
proof (induction es arbitrary: s)
  case (Cons e es)
  obtain w d where s: "s = (w, d)" by (cases s)
  show ?case
  proof (cases "ew_remaining w = 0")
    case True
    then have "filter (\<lambda>h. h \<notin> set (ew_exited w)) (outlived hs (e # es) d) = []"
      using wait_ok_done [of hs w] Cons.prems s by (auto simp: outlived_def filter_empty_conv)
    with True s show ?thesis by simp
  next
    case False
    show ?thesis
    proof (cases e)
      case (WorkerExited h)
      have late: "ew_late (fst (wait_event hs s e)) = ew_late w" by (simp add: s WorkerExited)
      have "killed (snd (waitForWorkersExit hs es (wait_event hs s e)))
          = killed (snd (wait_event hs s e))
            @ filter (\<lambda>h. h \<notin> set (ew_exited (fst (wait_event hs s e)))) (outlived hs es (snd (wait_event hs s e)))"
        by (rule Cons.IH)
          (use Cons.prems WorkerExited s late in \<open>auto simp: wait_ok_event simp del: wait_event.simps\<close>)
      moreover have "snd (wait_event hs s e) = d" "set (ew_exited (fst (wait_event hs s e))) = insert h (set (ew_exited w))"
        by (simp_all add: s WorkerExited insert_absorb)
      ultimately show ?thesis using False by (simp add: s WorkerExited outlived_exit conj_commute del: wait_event.simps)
    next
      case Deadline
      have "ew_late (fst (wait_event hs s e))" "killed (snd (wait_event hs s e))
          = killed d @ filter (\<lambda>h. h \<notin> set (ew_exited w) \<and> Process (handles d h)) hs"
        using Cons.prems(4) by (simp_all add: s Deadline kill_rest)
      with False wait_no_more_kills [of "wait_event hs s e" hs es] show ?thesis
        by (simp add: s Deadline outlived_def conj_commute del: wait_event.simps)
    qed
  qed
qed (simp add: outlived_def)

lemma wait_keeps:
  "d_closed (snd (waitForWorkersExit hs es s)) = d_closed (snd s)"
  "ctxDone (snd (waitForWorkersExit hs es s)) = ctxDone (snd s)"
proof -
  have "d_closed (foldl (\<lambda>d h. if h \<in> X then d else kill_process h d) d' hs) = d_closed d'
      \<and> ctxDone (foldl (\<lambda>d h. if h \<in> X then d else kill_process h d) d' hs) = ctxDone d'" for X d'
    by (induction hs arbitrary: d') (simp_all add: kill_process_def)
  then have e: "d_closed (snd (wait_event hs s e)) = d_closed (snd s)
      \<and> ctxDone (snd (wait_event hs s e)) = ctxDone (snd s)" for e s by (cases s; cases e) simp_all
  have "d_closed (snd (waitForWorkersExit hs es s)) = d_closed (snd s)
      \<and> ctxDone (snd (waitForWorkersExit hs es s)) = ctxDone (snd s)"
    by (induction es arbitrary: s) (simp_all add: e)
  then show "d_closed (snd (waitForWorkersExit hs es s)) = d_closed (snd s)"
    "ctxDone (snd (waitForWorkersExit hs es s)) = ctxDone (snd s)" by blast+
qed

text \<open>The request to exit goes to every worker whose connection takes it, and to no other.\<close>

lemma stop_request_effect:
  "outbox (stop_request now wr hs d) = outbox d
     @ map (\<lambda>h. (the (Conn (handles d h)), NewMessage now MsgRestartWorker (wh_SessionID (handles d h)) ''daemon shutdown''))
         (filter (\<lambda>h. Send (wr h) (handles d h) = None) hs)"
  "d_closed (stop_request now wr hs d)" "monitorStop (stop_request now wr hs d) = False"
  "workers (stop_request now wr hs d) = workers d"
proof -
  define d0 where "d0 = stopSessionMonitor (d\<lparr>d_closed := True\<rparr>)"
  have d0: "handles d0 = handles d" "outbox d0 = outbox d" "d_closed d0" "\<not> monitorStop d0" "workers d0 = workers d"
    by (simp_all add: d0_def stopSessionMonitor_def)
  have "outbox (foldl (restart_for_shutdown now wr) d' hs) = outbox d'
     @ map (\<lambda>h. (the (Conn (handles d' h)), NewMessage now MsgRestartWorker (wh_SessionID (handles d' h)) ''daemon shutdown''))
         (filter (\<lambda>h. Send (wr h) (handles d' h) = None) hs)
      \<and> d_closed (foldl (restart_for_shutdown now wr) d' hs) = d_closed d'
      \<and> monitorStop (foldl (restart_for_shutdown now wr) d' hs) = monitorStop d'
      \<and> workers (foldl (restart_for_shutdown now wr) d' hs) = workers d'" for d'
    by (induction hs arbitrary: d') (simp_all add: restart_for_shutdown_def send_handle_def split: option.split)
  from this [of d0] show "outbox (stop_request now wr hs d) = outbox d
     @ map (\<lambda>h. (the (Conn (handles d h)), NewMessage now MsgRestartWorker (wh_SessionID (handles d h)) ''daemon shutdown''))
         (filter (\<lambda>h. Send (wr h) (handles d h) = None) hs)"
    "d_closed (stop_request now wr hs d)" "monitorStop (stop_request now wr hs d) = False"
    "workers (stop_request now wr hs d) = workers d"
    unfolding stop_request_def restartWorkersForShutdown_def d0_def [symmetric] d0 by (simp_all add: d0)
qed

lemma stays_closed_exec: "d_closed d \<Longrightarrow> d_closed (exec d act)"
  by (cases act) (auto simp: Let_def register_new_def alloc_meta_def register_session_def restore_one_def
      rollbackNewSession_def spawn_core_def alloc_handle_def spawn_section_def installWorkerLocked_def exit_section_def
      markSessionMetaClosed_def purge_maps_def watch_section_def markCurrentWorkerRestartPending_def
      deleteWorkerIfCurrentLocked_def clearSpawnFailure_def recordSpawnFailure_def leave_conn_def ready_section_def
      ready_timeout_section_def beginTurnCancelIfCurrent_def beginTurnCancelIfCurrentLocked_def
      finishCancelWithFailure_def commitCancelSendFailureIfCurrent_def beginCodexTurnIfReady_def
      spawn_gate_def startSessionMonitor_def stopSessionMonitor_def admit_def admit_worker_def
      case_prod_unfold split: option.split sum.split)

lemma stays_closed: "d_closed d \<Longrightarrow> d_closed (foldl exec d acts)"
proof (induction acts arbitrary: d)
  case (Cons act acts)
  have "d_closed (exec d act)" using Cons.prems by (rule stays_closed_exec)
  with Cons.IH show ?case by simp
qed simp

text \<open>
  C21: a shutdown. It closes the daemon and asks every worker that is registered when it begins, and
  whose connection takes the request, to exit. Then it waits for the workers that are registered
  when the wait begins: it cancels the daemon's context (unless that has been done meanwhile) exactly
  if each of them has reported its exit, whether or not the grace period was over first. It kills
  exactly those of them that have a process and had not reported when the grace period ended: nobody
  if all reported within it.
\<close>

theorem shutdown_spec:
  assumes "\<not> d_closed d" and "daemon_env env" and "d1 = env (stop_request now wr hs1 d)"
    and "distinct hs1" "set hs1 = ran (workers d)" and "distinct hs2" "set hs2 = ran (workers d1)"
    and "exits es \<subseteq> ran (workers d1)" and "d' = Stop now wr hs1 env hs2 es d"
  shows "d_closed d' \<and> (ctxDone d' \<longleftrightarrow> ctxDone d1 \<or> exits es = ran (workers d1))
    \<and> outbox (stop_request now wr hs1 d) = outbox d
        @ map (\<lambda>h. (the (Conn (handles d h)), NewMessage now MsgRestartWorker (wh_SessionID (handles d h)) ''daemon shutdown''))
            (filter (\<lambda>h. Send (wr h) (handles d h) = None) hs1)
    \<and> killed d' = killed d1
        @ (if Deadline \<in> set es
           then filter (\<lambda>h. h \<notin> exits (takeWhile (\<lambda>e. e \<noteq> Deadline) es) \<and> Process (handles d1 h)) hs2 else [])"
proof -
  let ?s = "waitForWorkersExit hs2 es (start_wait hs2, d1)"
  have d': "d' = (if ew_remaining (fst ?s) = 0 then (snd ?s)\<lparr>ctxDone := True\<rparr> else snd ?s)"
    using assms(1) unfolding assms(9) Stop_def assms(3) [symmetric] by (simp add: Let_def case_prod_unfold)
  obtain acts where "d1 = foldl exec (stop_request now wr hs1 d) acts"
    using assms(2,3) unfolding env_of_def reaches_def by blast
  then have cl: "d_closed d1" using stays_closed [OF stop_request_effect(2)] by simp
  have w: "ew_remaining (fst ?s) = 0 \<longleftrightarrow> exits es = ran (workers d1)"
    using wait_run [of hs2 "(start_wait hs2, d1)" es] assms(6-8) start_wait_ok by simp
  have k: "killed d' = killed d1 @ outlived hs2 es d1"
    using wait_kills [of hs2 "(start_wait hs2, d1)" es] assms(6-8) start_wait_ok by (simp add: d')
  have c: "d_closed d' \<and> (ctxDone d' \<longleftrightarrow> ctxDone d1 \<or> exits es = ran (workers d1))"
    using cl w by (simp add: d' wait_keeps)
  show ?thesis using c k stop_request_effect(1) unfolding outlived_def by metis
qed

text \<open>A worker that exits in time is not killed; one that does not is.\<close>

theorem shutdown_spec_witness:
  "let d = sample_state\<lparr>workers := [''s'' \<mapsto> 0]\<rparr> in
     killed (Stop 9 (\<lambda>_. None) [0] id [0] [WorkerExited 0] d) = []
     \<and> ctxDone (Stop 9 (\<lambda>_. None) [0] id [0] [WorkerExited 0] d)
     \<and> killed (Stop 9 (\<lambda>_. None) [0] id [0] [Deadline, WorkerExited 0] d) = [0]"
proof -
  let ?d = "sample_state\<lparr>workers := [''s'' \<mapsto> 0]\<rparr>"
  let ?d1 = "id (stop_request 9 (\<lambda>_. None) [0] ?d)"
  have s: "\<not> d_closed ?d" "Process (handles ?d1 0)" "killed ?d1 = []" by code_simp+
  have ran: "ran (workers ?d) = {0}" by simp
  have ran1: "ran (workers ?d1) = {0}" by (simp add: stop_request_effect)
  note spec = shutdown_spec [where ?hs1.0 = "[0]" and ?hs2.0 = "[0]" and now = 9 and wr = "\<lambda>_. None",
      OF s(1) env_of_id refl _ _ _ _ _ refl, unfolded ran ran1 s(3)]
  have "killed (Stop 9 (\<lambda>_. None) [0] id [0] [WorkerExited 0] ?d) = []
      \<and> ctxDone (Stop 9 (\<lambda>_. None) [0] id [0] [WorkerExited 0] ?d)"
    using spec [where es = "[WorkerExited 0]"] by simp
  moreover have "killed (Stop 9 (\<lambda>_. None) [0] id [0] [Deadline, WorkerExited 0] ?d) = [0]"
    using spec [where es = "[Deadline, WorkerExited 0]"] s(2) by simp
  ultimately show ?thesis by (simp add: Let_def)
qed

end
