(* ===== verification/Daemon_Service.thy ===== *)
theory Daemon_Service
  imports Daemon_Endings
begin

text \<open>
  What the daemon does for its clients and its workers: whom it admits, what a client that waits
  for output receives, how often a failing session is started again, what creating a session does,
  and a check of the model: what its handlers do are actions of the system the safety properties are
  proved for.
\<close>

section \<open>Handlers are runs\<close>

text \<open>
  The handlers stay inside the transition system: whatever a handler does, and whatever the
  other goroutines do while it blocks, the state it leaves is reached by a sequence of the
  daemon's actions. So what holds of all runs holds of the handlers as the code composes them.
\<close>

lemma handlers_are_runs:
  assumes "daemon_env env" and "\<forall>k. daemon_env (envs k)"
  shows "steps_to d (routeMessage io now jerr env msg m h d)
    \<and> steps_to d (handle_worker_conn ios nows wr jerr envs c msgs d)
    \<and> steps_to d (fst (NewSession validate w io wr env opts d))
    \<and> steps_to d (fst (spawnWorkerForSession w m d))
    \<and> steps_to d (fst (SendInput io wr now env i input d))
    \<and> steps_to d (fst (forwardClientMessage io wr now env stop c msg d))
    \<and> steps_to d (fst (CancelTurn envs i d))
    \<and> steps_to d (deliver_cancel envs wrs nows m tok d)
    \<and> steps_to d (fst (watchCancelledTurn envs wrs nows m tok d))
    \<and> steps_to d (monitorReady_timeout now h m d) \<and> steps_to d (waitWorkerExit now h d)
    \<and> steps_to d (CloseSession io wr now i reason d) \<and> steps_to d (PurgeSession wr i d)
    \<and> steps_to d (reconcileSessions ws envs now ms d) \<and> steps_to d (runGC gio wrs now ms d)
    \<and> steps_to d (fst (Start dirs listen now rd d)) \<and> steps_to d (Stop now wrs hs env hs' es d)"
proof -
  note env = assms(1) and envs = assms(2) [THEN spec]
  have watch: "steps_to d (fst (watchCancelledTurn envs wrs nows m tok d))"
    by (rule steps_watch [OF envs steps_refl])
  have cancel: "steps_to d (deliver_cancel envs wrs nows m tok d)"
    by (rule steps_deliver_cancel [OF envs steps_refl])
  have rec: "steps_to d (reconcileSessions ws envs now ms d)"
    by (rule steps_reconcile [OF envs steps_refl])
  have cancel_id: "steps_to d (fst (CancelTurn envs i d))" by (rule steps_cancel_id [OF envs])
  have conn: "steps_to d (handle_worker_conn ios nows wr jerr envs c msgs d)"
    by (rule steps_worker_conn [OF envs])
  show ?thesis
    by (intro conjI watch cancel cancel_id rec conn steps_route steps_new_session steps_spawn steps_send_input steps_forward
        steps_ready_timeout steps_exit steps_close_id steps_purge steps_gc steps_start
        steps_shutdown env steps_refl)
qed

lemma handlers_are_runs_witness:
  "steps_to sample_state (PurgeSession None ''s'' sample_state)"
proof -
  have "daemon_env id" by (rule env_of_id)
  from handlers_are_runs [of id "\<lambda>_. id" sample_state, OF this] this show ?thesis by simp
qed

section \<open>Admission of workers\<close>

lemma admit_worker_iff:
  "snd (admit_worker now wr c msg d) = WorkerConn m h \<longleftrightarrow>
     wr = None \<and> sessions d (msg_SessionID msg) = Some m \<and> workers d (msg_SessionID msg) = Some h
     \<and> \<not> Closed (metas d m) \<and> isCurrentSessionLocked d m \<and> workerOwners d h = Some m
     \<and> WorkerInstanceID msg = InstanceID (handles d h)"
  by (auto simp: admit_worker_def Let_def SetConn_def split: option.splits)

lemma admit_worker_effect:
  assumes "snd (admit_worker now wr c msg d) = WorkerConn m h"
  shows "handles (fst (admit_worker now wr c msg d)) = (handles d)(h := (handles d h)\<lparr>Conn := Some c, hbSeen := now\<rparr>)"
    and "outbox (fst (admit_worker now wr c msg d)) = outbox d @ [(c, NewMessage now MsgAck (msg_SessionID msg) workerReadyAckPayload)]"
  using assms unfolding admit_worker_iff
  by (auto simp: admit_worker_def Let_def SetConn_def write_conn_def close_conn_def split: option.splits)

lemma admit_frame_refused:
  "\<forall>m h. snd (admit now wr c read d) \<noteq> WorkerConn m h \<Longrightarrow> handles (fst (admit now wr c read d)) = handles d"
  by (auto simp: admit_def admit_worker_def Let_def SetConn_def split: option.splits)

text \<open>
  C5: a connection is admitted as a worker exactly when its first message is a READY that names an
  open, registered session, carries the instance id of that session's current worker generation,
  which that session owns, and the acknowledgment could be written; then, and only then, the
  generation's connection becomes this one, and the acknowledgment has been sent on it.
\<close>

theorem worker_admission:
  assumes "d = foldl exec (New cf disk) acts"
  shows "(snd (admit now wr c (Some msg) d) = WorkerConn m h \<longleftrightarrow>
      msg_Type msg = MsgReady \<and> WorkerInstanceID msg \<noteq> [] \<and> wr = None
      \<and> isCurrentSession d m \<and> sid_of d m = msg_SessionID msg \<and> \<not> Closed (metas d m)
      \<and> isCurrentSessionWorker d m h \<and> WorkerInstanceID msg = InstanceID (handles d h))
   \<and> (snd (admit now wr c (Some msg) d) = WorkerConn m h \<longrightarrow>
      handles (fst (admit now wr c (Some msg) d)) = (handles d)(h := (handles d h)\<lparr>Conn := Some c, hbSeen := now\<rparr>)
      \<and> outbox (fst (admit now wr c (Some msg) d))
         = outbox d @ [(c, NewMessage now MsgAck (msg_SessionID msg) workerReadyAckPayload)])
   \<and> ((\<forall>m h. snd (admit now wr c (Some msg) d) \<noteq> WorkerConn m h) \<longrightarrow>
      handles (fst (admit now wr c (Some msg) d)) = handles d)"
proof -
  have inv: "core_inv d" using core_inv_run [OF core_inv_New] assms by simp
  have form: "admit now wr c (Some msg) d =
      (if msg_Type msg \<noteq> MsgReady \<and> isClientFirstMessage (Some msg) then (d, ClientConn msg)
       else if msg_Type msg \<noteq> MsgReady \<or> WorkerInstanceID msg = []
         then (write_conn c (NewMessage now MsgError (msg_SessionID msg)
               ''worker must send ready with instance ID'') d, Rejected)
       else admit_worker now wr c msg d)"
    by (simp add: admit_def)
  have through: "snd (admit now wr c (Some msg) d) = WorkerConn m h \<longleftrightarrow>
      msg_Type msg = MsgReady \<and> WorkerInstanceID msg \<noteq> [] \<and> snd (admit_worker now wr c msg d) = WorkerConn m h"
    unfolding form by simp
  have same: "msg_Type msg = MsgReady \<Longrightarrow> WorkerInstanceID msg \<noteq> [] \<Longrightarrow>
      admit now wr c (Some msg) d = admit_worker now wr c msg d"
    unfolding form by simp
  have ids: "sessions d (msg_SessionID msg) = Some m \<Longrightarrow> sid_of d m = msg_SessionID msg"
    using core_invD(1) [OF inv] by blast
  have accept: "snd (admit_worker now wr c msg d) = WorkerConn m h \<longleftrightarrow> wr = None
      \<and> isCurrentSession d m \<and> sid_of d m = msg_SessionID msg \<and> \<not> Closed (metas d m)
      \<and> isCurrentSessionWorker d m h \<and> WorkerInstanceID msg = InstanceID (handles d h)"
    unfolding admit_worker_iff
    by (auto simp: isCurrentSessionWorker_iff isCurrentSession_def isCurrentSessionLocked_def dest: ids)
  show ?thesis
    using accept through same admit_worker_effect [of now wr c msg d m h]
      admit_frame_refused [of now wr c "Some msg" d]
    by auto
qed

text \<open>The message a worker of the sample state introduces itself with.\<close>

definition sample_ready :: Message where
  "sample_ready = (NewMessage 6 MsgReady ''s'' [])\<lparr>WorkerInstanceID := hex_encode (replicate 16 (CHR ''a''))\<rparr>"

theorem worker_admission_witness:
  "snd (admit 6 None 3 (Some sample_ready) sample_state) = WorkerConn 0 0
    \<and> Conn (handles (fst (admit 6 None 3 (Some sample_ready) sample_state)) 0) = Some 3"
proof -
  have "isCurrentSession sample_state 0" "sid_of sample_state 0 = ''s''" "\<not> Closed (metas sample_state 0)"
    "isCurrentSessionWorker sample_state 0 0" "WorkerInstanceID sample_ready = InstanceID (handles sample_state 0)"
    "WorkerInstanceID sample_ready \<noteq> []" "msg_SessionID sample_ready = ''s''" "msg_Type sample_ready = MsgReady"
    by code_simp+
  with worker_admission [OF sample_reachable, of 6 None 3 sample_ready 0 0] show ?thesis by simp
qed

section \<open>The retry budget\<close>

text \<open>
  A sequence of monitor passes over one session whose worker keeps failing to start: each pass
  at time \<open>t\<close> asks for permission, and if it is given the start has failed by time \<open>t'\<close>. The
  result is the times of the attempts.
\<close>

fun failing_passes :: "string \<Rightarrow> (time \<times> time) list \<Rightarrow> Daemon \<Rightarrow> time list" where
  "failing_passes sid [] d = []"
| "failing_passes sid ((t, t') # ps) d =
     (let (d, allowed) = spawn_gate t sid d
      in if allowed then t # failing_passes sid ps (fst (recordSpawnFailure t' sid d))
         else failing_passes sid ps d)"

definition failures_of :: "string \<Rightarrow> Daemon \<Rightarrow> spawnFailure" where
  "failures_of sid d = (case spawnFailures d sid of None \<Rightarrow> zero_failure | Some sf \<Rightarrow> sf)"

lemma gate_failures:
  "snd (spawn_gate t sid d) \<longleftrightarrow> \<not> (maxSpawnRetries \<le> sf_count (failures_of sid d)
     \<and> time_sub t (lastRetry (failures_of sid d)) < spawnRetryCooldown)"
  "sf_count (failures_of sid (fst (spawn_gate t sid d))) = sf_count (failures_of sid d)"
  "\<not> snd (spawn_gate t sid d) \<Longrightarrow> lastRetry (failures_of sid (fst (spawn_gate t sid d))) = lastRetry (failures_of sid d)"
  "sf_count (failures_of sid (fst (recordSpawnFailure t' sid d))) = Suc (sf_count (failures_of sid d))"
  "lastRetry (failures_of sid (fst (recordSpawnFailure t' sid d))) = t'"
  by (auto simp: spawn_gate_def failures_of_def recordSpawnFailure_def Let_def split: option.splits)

lemma failing_passes_spaced:
  assumes "\<forall>(t, t') \<in> set ps. t \<le> t'"
  shows "i < length (failing_passes sid ps d) \<Longrightarrow> maxSpawnRetries \<le> sf_count (failures_of sid d) + i \<Longrightarrow>
     spawnRetryCooldown \<le> failing_passes sid ps d ! i
       - (if i = 0 then lastRetry (failures_of sid d) else failing_passes sid ps d ! (i - 1))"
  using assms
proof (induction ps arbitrary: i d)
  case (Cons p ps)
  obtain t t' where p: "p = (t, t')" by (cases p)
  define g where "g = spawn_gate t sid d"
  show ?case
  proof (cases "snd g")
    case False
    then have "failing_passes sid (p # ps) d = failing_passes sid ps (fst g)"
      by (simp add: p g_def case_prod_unfold)
    moreover from this have "spawnRetryCooldown \<le> failing_passes sid ps (fst g) ! i
        - (if i = 0 then lastRetry (failures_of sid (fst g)) else failing_passes sid ps (fst g) ! (i - 1))"
      by (intro Cons.IH) (use Cons.prems in \<open>auto simp: g_def gate_failures\<close>)
    moreover have "lastRetry (failures_of sid (fst g)) = lastRetry (failures_of sid d)"
      unfolding g_def by (rule gate_failures(3) [OF False [unfolded g_def]])
    ultimately show ?thesis by (cases i) simp_all
  next
    case True
    define d2 where "d2 = fst (recordSpawnFailure t' sid (fst g))"
    have form: "failing_passes sid (p # ps) d = t # failing_passes sid ps d2"
      using True by (simp add: p g_def d2_def case_prod_unfold)
    have n: "sf_count (failures_of sid d2) = Suc (sf_count (failures_of sid d))"
      and l: "lastRetry (failures_of sid d2) = t'"
      by (simp_all add: d2_def g_def gate_failures)
    show ?thesis
    proof (cases i)
      case 0
      with True Cons.prems(2) have "\<not> time_sub t (lastRetry (failures_of sid d)) < spawnRetryCooldown"
        using gate_failures(1) [where t = t and sid = sid and d = d] by (simp add: g_def)
      then have "spawnRetryCooldown \<le> t - lastRetry (failures_of sid d)"
        using time_sub_lt [of spawnRetryCooldown t "lastRetry (failures_of sid d)"]
        by (simp add: spawnRetryCooldown_def duration_defs)
      with 0 form show ?thesis by simp
    next
      case (Suc j)
      have "spawnRetryCooldown \<le> failing_passes sid ps d2 ! j
          - (if j = 0 then lastRetry (failures_of sid d2) else failing_passes sid ps d2 ! (j - 1))"
        by (rule Cons.IH) (use Cons.prems Suc form n in auto)
      moreover have "t \<le> t'" using Cons.prems(3) p by auto
      ultimately show ?thesis using form Suc l by (cases j) simp_all
    qed
  qed
qed simp

text \<open>
  C20: a session whose worker keeps failing to start is retried within bounds: after its first five
  attempts any two consecutive attempts are at least a minute apart, however often the monitor
  passes.
\<close>

theorem failed_starts_bounded:
  assumes "\<forall>(t, t') \<in> set ps. t \<le> t'" and "spawnFailures d sid = None"
    and "maxSpawnRetries \<le> i" and "i < length (failing_passes sid ps d)"
  shows "1 * Minute \<le> failing_passes sid ps d ! i - failing_passes sid ps d ! (i - 1)"
  using failing_passes_spaced [OF assms(1,4)] assms(2,3)
  by (simp add: failures_of_def zero_failure_def spawnRetryCooldown_def maxSpawnRetries_def split: if_splits)

theorem failed_starts_bounded_witness:
  "1 * Minute \<le> failing_passes ''s'' (map (\<lambda>k. (20000000000 * k, 20000000000 * k)) [1..10]) sample_state ! 5
     - failing_passes ''s'' (map (\<lambda>k. (20000000000 * k, 20000000000 * k)) [1..10]) sample_state ! 4"
proof -
  have "spawnFailures sample_state ''s'' = None" by code_simp
  moreover have "5 < length (failing_passes ''s'' (map (\<lambda>k. (20000000000 * k, 20000000000 * k)) [1..10]) sample_state)"
    by code_simp
  ultimately show ?thesis
    using failed_starts_bounded [of "map (\<lambda>k. (20000000000 * k, 20000000000 * k)) [1..10]" sample_state "''s''" 5]
    by (simp add: maxSpawnRetries_def)
qed

section \<open>Creating a session\<close>

lemma stop_keeps_handle [simp]:
  "InstanceID (handles (stopWorkerHandle ho d) h) = InstanceID (handles d h)"
  "isReady (handles (stopWorkerHandle ho d) h) = isReady (handles d h)"
  "Pid (handles (stopWorkerHandle ho d) h) = Pid (handles d h)"
  "metas (stopWorkerHandle ho d) = metas d"
  by (auto simp: stopWorkerHandle_def close_handle_def kill_process_def CloseConn_def Let_def split: option.splits)

lemma spawn_section_success:
  assumes "spawn_section m h start d = (d', None, existing)"
  shows "\<exists>pid. start = Inr pid \<and> isCurrentSessionLocked d m
    \<and> workers d' = (workers d)(sid_of d m \<mapsto> h) \<and> workerOwners d' = (workerOwners d)(h \<mapsto> m)
    \<and> sessions d' = sessions d \<and> metas d' = (metas d)(m := (metas d m)\<lparr>Status := StatusSpawning\<rparr>)
    \<and> handles d' = (handles d)(h := (handles d h)\<lparr>Pid := pid, Process := True\<rparr>)
    \<and> existing = workers d (sid_of d m)"
  using assms
  by (auto simp: spawn_section_def Let_def installWorkerLocked_def split: if_splits sum.splits)

lemma spawn_success:
  assumes "snd (spawnWorkerForSession w m d) = None"
  shows "\<exists>iid pid. newWorkerInstanceID (sw_rand w) = Inr iid \<and> iid \<noteq> [] \<and> sw_start w = Inr pid \<and> isCurrentSessionLocked d m
    \<and> (let d' = fst (spawnWorkerForSession w m d); h = nextHandle d in
        workers d' = (workers d)(sid_of d m \<mapsto> h) \<and> workerOwners d' = (workerOwners d)(h \<mapsto> m)
        \<and> sessions d' = sessions d \<and> metas d' = (metas d)(m := (metas d m)\<lparr>Status := StatusSpawning\<rparr>)
        \<and> InstanceID (handles d' h) = iid \<and> Pid (handles d' h) = pid \<and> \<not> isReady (handles d' h))"
proof -
  from assms obtain iid where cl: "\<not> d_closed d" and iid: "newWorkerInstanceID (sw_rand w) = Inr iid" "iid \<noteq> []"
    by (auto simp: spawnWorkerForSession_def split: if_splits sum.splits)
  define x where "x = (NewWorkerHandle (sw_now w) (sid_of d m))\<lparr>InstanceID := iid\<rparr>"
  define a where "a = d\<lparr>handles := (handles d)(nextHandle d := x), nextHandle := Suc (nextHandle d)\<rparr>"
  obtain d1 err ex where sec: "spawn_section m (nextHandle d) (sw_start w) a = (d1, err, ex)"
    by (cases "spawn_section m (nextHandle d) (sw_start w) a") auto
  have form: "spawnWorkerForSession w m d =
     (case err of Some e \<Rightarrow> (stopWorkerHandle ex d1, Some e)
      | None \<Rightarrow> (persistCurrentSession m (\<lambda>s. UpdateWorkerPID (sw_io w) s (sid_of (stopWorkerHandle ex d1) m)
           (Pid (handles (stopWorkerHandle ex d1) (nextHandle d)))) (stopWorkerHandle ex d1), None))"
    using cl iid sec
    by (simp add: spawnWorkerForSession_def alloc_handle_def x_def a_def Let_def
        del: frame_effects frame_effects2 handles_stopWorkerHandle)
  with assms have err: "err = None" by (cases err) auto
  from spawn_section_success [OF sec [unfolded err]] iid show ?thesis
    unfolding form err by (auto simp: a_def x_def Let_def NewWorkerHandle_def isCurrentSessionLocked_def
        simp del: handles_stopWorkerHandle)
qed

lemma new_session_meta_fields:
  "new_session_meta validate now c opts = Inr x \<Longrightarrow>
     SessionID x = no_SessionID opts \<and> no_SessionID opts \<noteq> [] \<and> \<not> Closed x \<and> \<not> turnActive x"
  by (auto simp: new_session_meta_def Let_def zero_meta_def split: if_splits option.splits sum.splits list.splits)

text \<open>
  Creating a session. If the id is registered already the request is refused, and no map, no
  persisted session and no connection changes. If it succeeds (nothing else happening meanwhile),
  the id was free and is now held by a new open record in state SPAWNING without a turn, and its
  worker slot by a new generation owned by that record, not ready yet, whose instance id is the
  one drawn.
\<close>

lemma new_session_spec:
  assumes "NewSession validate w io rm id opts d = (d', r)" and "sid = no_SessionID opts"
  shows "(sessions d sid \<noteq> None \<longrightarrow> isl r \<and> sessions d' = sessions d \<and> workers d' = workers d
      \<and> workerOwners d' = workerOwners d \<and> store d' = store d \<and> outbox d' = outbox d)
   \<and> (\<forall>m. r = Inr m \<longrightarrow> sessions d sid = None \<and> sessions d' = (sessions d)(sid \<mapsto> m) \<and> m = nextMeta d
      \<and> Status (metas d' m) = StatusSpawning \<and> \<not> Closed (metas d' m) \<and> \<not> turnActive (metas d' m)
      \<and> workers d' = (workers d)(sid \<mapsto> nextHandle d) \<and> workerOwners d' = (workerOwners d)(nextHandle d \<mapsto> m)
      \<and> \<not> isReady (handles d' (nextHandle d))
      \<and> newWorkerInstanceID (sw_rand w) = Inr (InstanceID (handles d' (nextHandle d))))"
proof (cases "isClosed d \<or> isl (new_session_meta validate (sw_now w) (cfg d) opts)")
  case True
  then have "d' = d \<and> isl r" using assms(1) by (auto simp: NewSession_def isl_def split: if_splits)
  then show ?thesis by auto
next
  case False
  then obtain x where x: "new_session_meta validate (sw_now w) (cfg d) opts = Inr x"
    by (cases "new_session_meta validate (sw_now w) (cfg d) opts") auto
  note fx = new_session_meta_fields [OF x]
  define a where "a = fst (alloc_meta x d)"
  have a: "metas a (nextMeta d) = x" "sessions a = sessions d" "workers a = workers d"
    "workerOwners a = workerOwners d" "store a = store d" "outbox a = outbox d" "nextHandle a = nextHandle d"
    by (simp_all add: a_def alloc_meta_def)
  show ?thesis
  proof (cases "sessions d sid")
    case (Some m0)
    then have "d' = a \<and> isl r" using assms False x fx a
      by (auto simp: NewSession_def register_session_def a_def alloc_meta_def Let_def isClosed_def)
    with a Some show ?thesis by auto
  next
    case None
    define b where "b = fst (register_session io (nextMeta d) a)"
    have b: "register_session io (nextMeta d) a = (b, None)" "metas b = metas a" "workers b = workers d"
      "workerOwners b = workerOwners d" "nextHandle b = nextHandle d" "sessions b = (sessions d)(sid \<mapsto> nextMeta d)"
      using None fx a assms(2) by (auto simp: b_def register_session_def Let_def)
    have form: "NewSession validate w io rm id opts d =
       (case spawnWorkerForSession w (nextMeta d) b of
          (d2, Some e) \<Rightarrow> (if e = ErrDaemonClosed then rollbackNewSession rm (nextMeta d) d2 else d2, Inl e)
        | (d2, None) \<Rightarrow> (d2, Inr (nextMeta d)))"
      using False x b(1) by (simp add: NewSession_def a_def alloc_meta_def)
    show ?thesis
    proof (cases "snd (spawnWorkerForSession w (nextMeta d) b)")
      case None
      then have r: "r = Inr (nextMeta d)" "d' = fst (spawnWorkerForSession w (nextMeta d) b)"
        using form assms(1) by (simp_all add: case_prod_unfold)
      have sid: "sid_of b (nextMeta d) = sid" using b a fx assms(2) by simp
      from spawn_success [OF None] show ?thesis
        unfolding r(2) [symmetric] Let_def sid b(3-6) using r(1) b(2) a(1) fx \<open>sessions d sid = None\<close>
        by auto
    next
      case (Some e)
      then have "isl r" using form assms(1) by (auto simp: case_prod_unfold)
      with None show ?thesis by auto
    qed
  qed
qed

text \<open>A configuration with one Codex bot, and a session of it.\<close>

definition codex_config :: DaemonConfig where
  "codex_config = sample_config\<lparr>Bots := [\<lparr>bot_Name = ''b'', bot_BotID = ''b'', bot_CliType = CliCodex,
     bot_CliPath = [], BackendType = BackendPty, bot_WorkingDir = ''/w'', AllowedUsers = [], bot_Model = [],
     bot_CodexProfile = []\<rparr>]\<rparr>"

definition sample_opts :: NewSessionOpts where
  "sample_opts = \<lparr>no_SessionID = ''n'', no_BotID = ''b'', no_CliType = [], no_CliPath = [], no_WorkingDir = [],
     no_CodexProfile = []\<rparr>"

lemma new_session_spec_witness:
  "sessions (fst (NewSession Inr sample_world IoOk None id sample_opts (New codex_config Map.empty))) ''n'' = Some 0
   \<and> isl (snd (NewSession Inr sample_world IoOk None id (sample_opts\<lparr>no_SessionID := ''s''\<rparr>) sample_state))"
proof -
  let ?r = "NewSession Inr sample_world IoOk None id sample_opts (New codex_config Map.empty)"
  let ?s = "NewSession Inr sample_world IoOk None id (sample_opts\<lparr>no_SessionID := ''s''\<rparr>) sample_state"
  have r: "snd ?r = Inr 0" by code_simp
  have n: "''n'' = no_SessionID sample_opts" "''s'' = no_SessionID (sample_opts\<lparr>no_SessionID := ''s''\<rparr>)"
    by (simp_all add: sample_opts_def)
  have "sessions (fst ?r) = (sessions (New codex_config Map.empty))(''n'' \<mapsto> 0)"
    using new_session_spec [where validate = Inr and w = sample_world and io = IoOk and rm = None
        and d = "New codex_config Map.empty", OF prod.collapse [symmetric] n(1)] r
    by blast
  then have "sessions (fst ?r) ''n'' = Some 0" by (simp only: fun_upd_same)
  moreover have "sessions sample_state ''s'' \<noteq> None" by code_simp
  then have "isl (snd ?s)"
    using new_session_spec [where validate = Inr and w = sample_world and io = IoOk and rm = None
        and d = sample_state, OF prod.collapse [symmetric] n(2)] by blast
  ultimately show ?thesis by (rule conjI)
qed

section \<open>What a waiting client receives\<close>

lemma metas_outputs:
  "metas (foldl (\<lambda>d l. exec d (AOutput m l)) d xs) m = foldl AddOutput (metas d m) xs"
  "outbox (foldl (\<lambda>d l. exec d (AOutput m l)) d xs) = outbox d"
  by (induction xs arbitrary: d) simp_all

lemma write_all_none: "write_all_msgs c None ms d = (d\<lparr>outbox := outbox d @ map (Pair c) ms\<rparr>, True)"
  by (induction ms arbitrary: d) (simp_all add: write_conn_def)

text \<open>
  C14: a client that is being forwarded a session's output receives every line, once and in order:
  if its goroutine's cursor is the log's when lines \<open>xs\<close> (at most the 2000 the log keeps) come in,
  then the goroutine, woken, writes to the client exactly one output message per line, and its
  cursor is the log's again.
\<close>

theorem client_receives_output:
  assumes "wf_output (metas d m)" and "fs_meta fs = m" and "fs_cursor fs = outputSeq (metas d m)"
    and "unat (outputSeq (metas d m)) + length xs < 2 ^ 64" and "length xs \<le> maxMemoryOutputLines"
    and "d' = foldl (\<lambda>d l. exec d (AOutput m l)) d xs"
  shows "outbox (snd (forward_output now None fs d'))
      = outbox d @ map (\<lambda>l. (fs_conn fs, NewMessage now MsgOutput (sid_of d' m) l)) xs
    \<and> fs_cursor (fst (forward_output now None fs d')) = outputSeq (metas (snd (forward_output now None fs d')) m)
    \<and> \<not> fs_done (fst (forward_output now None fs d'))"
proof -
  let ?x = "metas d m"
  have x': "metas d' m = foldl AddOutput ?x xs" and o: "outbox d' = outbox d"
    unfolding assms(6) by (rule metas_outputs)+
  have "fst (output_since (foldl AddOutput ?x xs) (outputSeq ?x)) = xs"
    using out_log.since_cursor [OF assms(1,4)] assms(5) by simp
  then have r: "fst (snd (SnapshotOutputSince (metas d' m) (fs_cursor fs))) = xs"
    using x' assms(3) by (simp add: output_since_def case_prod_unfold)
  have nxt: "fst (snd (snd (SnapshotOutputSince (metas d' m) (fs_cursor fs))))
      = outputSeq (fst (SnapshotOutputSince (metas d' m) (fs_cursor fs)))"
    by (simp add: SnapshotOutputSince_def Let_def)
  have id: "SessionID (fst (SnapshotOutputSince (metas d' m) (fs_cursor fs))) = sid_of d' m" by simp
  show ?thesis
    unfolding forward_output_def Let_def case_prod_unfold assms(2)
    using r nxt id o by (simp add: write_all_none comp_def)
qed

theorem client_receives_output_witness:
  "outbox (snd (forward_output 9 None \<lparr>fs_meta = 0, fs_conn = 4, fs_cursor = 0, fs_outputCh = Some 0, fs_terminalCursor = 0,
       fs_terminalCh = None, fs_stop = 0, fs_done = False\<rparr>
      (foldl (\<lambda>d l. exec d (AOutput 0 l)) sample_state [''a'', ''b''])))
    = outbox sample_state @ [(4, NewMessage 9 MsgOutput ''s'' ''a''), (4, NewMessage 9 MsgOutput ''s'' ''b'')]"
proof -
  let ?fs = "\<lparr>fs_meta = 0, fs_conn = 4, fs_cursor = 0, fs_outputCh = Some 0, fs_terminalCursor = 0,
       fs_terminalCh = None, fs_stop = 0, fs_done = False\<rparr>"
  let ?d = "foldl (\<lambda>d l. exec d (AOutput 0 l)) sample_state [''a'', ''b'']"
  have z: "outputSeq (metas sample_state 0) = 0" "LastOutput (metas sample_state 0) = []" by code_simp+
  have "sid_of sample_state 0 = ''s''" by code_simp
  then have i: "sid_of ?d 0 = ''s''" by simp
  have w: "wf_output (metas sample_state 0)" using z by (simp add: wf_output_def seq_covers_def)
  have "outbox (snd (forward_output 9 None ?fs ?d))
      = outbox sample_state @ map (\<lambda>l. (fs_conn ?fs, NewMessage 9 MsgOutput (sid_of ?d 0) l)) [''a'', ''b'']"
    by (rule client_receives_output [OF w _ _ _ _ refl, THEN conjunct1]) (simp_all add: z maxMemoryOutputLines_def)
  then show ?thesis unfolding i by (simp only: list.map forwarder.simps)
qed

text \<open>
  The forwarding goroutine stops after the first terminal. When lines and a terminal are pending
  together, Go's select may take the terminal first: then the lines are never written.
\<close>

lemma terminal_first_loses_output:
  assumes "fst (snd (SnapshotTerminalsSince (metas d (fs_meta fs)) (fs_terminalCursor fs))) = tm # ts"
    and "output_ready fs d"
  shows "outbox (snd (forward_terminal now None fs d))
      = outbox d @ [(fs_conn fs, NewMessage now MsgTurnCompleted (sid_of d (fs_meta fs)) (encode_terminal tm))]
    \<and> fs_done (fst (forward_terminal now None fs d))
    \<and> fs_cursor (fst (forward_terminal now None fs d)) = fs_cursor fs"
  using assms unfolding forward_terminal_def Let_def case_prod_unfold
  by (simp add: write_conn_def)

text \<open>
  A session can be closed between the monitor's decision to start its worker and the start, which
  does not look at \<open>Closed\<close>: the closed session gets a worker and the status SPAWNING.
\<close>

lemma closed_session_spawned:
  "let d = foldl exec (New sample_config Map.empty) [ARegister IoOk (zero_meta\<lparr>SessionID := ''s''\<rparr>)];
       d = exec (fst (reconcile_one 0 0 d)) (AMarkClosed IoOk 1 0 False);
       d' = fst (spawnWorkerForSession sample_world 0 d)
   in Closed (metas d' 0) \<and> Status (metas d' 0) = StatusSpawning \<and> workers d' ''s'' = Some 0"
  by code_simp

end
