(* ===== verification/Daemon_Loops.thy ===== *)
theory Daemon_Loops
  imports Daemon_Service
begin

text \<open>
  The goroutines \<open>Start\<close> leaves behind in \<open>internal/daemon/daemon.go\<close>: \<open>acceptLoop\<close>, which hands every
  connection to a handler of its own, and \<open>periodicGC\<close>. Each is a loop over what wakes it up; what
  the rest of the daemon does before that is part of the round. A list that is used up is a loop
  that still waits.
\<close>

section \<open>The loops\<close>

datatype accepted = NewConn conn | ListenerClosed | AcceptFails

text \<open>
  The connections handed to \<open>handleConn\<close> in order, the daemon, and whether the loop has returned;
  its deferred call of \<open>Stop\<close> is \<open>stop\<close>.
\<close>

fun acceptLoop ::
  "(Daemon \<Rightarrow> Daemon) \<Rightarrow> ((Daemon \<Rightarrow> Daemon) \<times> accepted) list \<Rightarrow> Daemon \<Rightarrow> conn list \<times> Daemon \<times> bool" where
  "acceptLoop stop [] d = ([], d, False)"
| "acceptLoop stop ((env, a) # as) d =
     (let d = env d in
      case a of
        NewConn c \<Rightarrow> (case acceptLoop stop as d of (cs, r) \<Rightarrow> (c # cs, r))
      | ListenerClosed \<Rightarrow> ([], stop d, True)
      | AcceptFails \<Rightarrow> if isClosed d then ([], stop d, True) else acceptLoop stop as d)"

definition gcInterval :: duration where "gcInterval = 30 * Second"

record gc_round =
  gr_env :: "Daemon \<Rightarrow> Daemon"
  gr_tick :: bool                        \<comment> \<open>the ticker's channel is chosen, not that of the context\<close>
  gr_now :: time
  gr_metas :: "mref list"
  gr_io :: "mref \<Rightarrow> save_io"
  gr_wr :: "mref \<Rightarrow> string option"

text \<open>
  A round in which the context is not done can only be a tick; when it is done, either channel may
  be chosen. The second component says whether the loop has returned.
\<close>

fun periodicGC :: "gc_round list \<Rightarrow> Daemon \<Rightarrow> Daemon \<times> bool" where
  "periodicGC [] d = (d, False)"
| "periodicGC (r # rs) d =
     (let d = gr_env r d in
      if ctxDone d \<and> \<not> gr_tick r then (d, True)
      else periodicGC rs (runGC (gr_io r) (gr_wr r) (gr_now r) (gr_metas r) d))"

section \<open>What they keep\<close>

text \<open>Both loops are runs of the daemon's actions, so they keep every invariant of the daemon.\<close>

lemma steps_accept:
  "(\<And>e a. (e, a) \<in> set as \<Longrightarrow> daemon_env e) \<Longrightarrow> daemon_env stop \<Longrightarrow> steps_to d d'
     \<Longrightarrow> steps_to d (fst (snd (acceptLoop stop as d')))"
proof (induction as arbitrary: d')
  case (Cons x as)
  obtain env a where x: "x = (env, a)" by (cases x)
  from Cons.prems(1) [of env a] x have env: "daemon_env env" by simp
  note s = steps_env [OF env Cons.prems(3)]
  have ih: "steps_to d (fst (snd (acceptLoop stop as (env d'))))"
    by (rule Cons.IH [OF _ Cons.prems(2) s]) (use Cons.prems(1) in auto)
  from ih s steps_env [OF Cons.prems(2) s] show ?case
    by (cases a) (simp_all add: x Let_def case_prod_unfold)
qed simp

lemma steps_periodicGC:
  "(\<And>r. r \<in> set rs \<Longrightarrow> daemon_env (gr_env r)) \<Longrightarrow> steps_to d d' \<Longrightarrow> steps_to d (fst (periodicGC rs d'))"
proof (induction rs arbitrary: d')
  case (Cons r rs)
  have s: "steps_to d (gr_env r d')" by (rule steps_env [OF _ Cons.prems(2)]) (use Cons.prems(1) in auto)
  have "steps_to d (fst (periodicGC rs (runGC (gr_io r) (gr_wr r) (gr_now r) (gr_metas r) (gr_env r d'))))"
    by (rule Cons.IH [OF _ steps_gc [OF s]]) (use Cons.prems(1) in auto)
  with s show ?case by (simp add: Let_def)
qed simp

section \<open>When they end\<close>

text \<open>
  While the daemon runs, a failing \<open>Accept\<close> costs no connection; once the loop has returned, the
  daemon is closed.
\<close>

lemma acceptLoop_open:
  "(\<And>e a. (e, a) \<in> set as \<Longrightarrow> a \<noteq> ListenerClosed \<and> (\<forall>d. \<not> d_closed d \<longrightarrow> \<not> d_closed (e d))) \<Longrightarrow> \<not> d_closed d
     \<Longrightarrow> fst (acceptLoop stop as d) = concat (map (\<lambda>(e, a). case a of NewConn c \<Rightarrow> [c] | _ \<Rightarrow> []) as)
        \<and> \<not> snd (snd (acceptLoop stop as d))"
proof (induction as arbitrary: d)
  case (Cons x as)
  obtain env a where x: "x = (env, a)" by (cases x)
  have o: "\<not> d_closed (env d)" and a: "a \<noteq> ListenerClosed" using Cons.prems x by auto
  have ih: "fst (acceptLoop stop as (env d)) = concat (map (\<lambda>(e, a). case a of NewConn c \<Rightarrow> [c] | _ \<Rightarrow> []) as)
      \<and> \<not> snd (snd (acceptLoop stop as (env d)))"
    by (rule Cons.IH [OF _ o]) (use Cons.prems(1) in auto)
  with a o show ?case by (cases a) (auto simp: x Let_def isClosed_def split: prod.split)
qed simp

lemma acceptLoop_returns_closed:
  "(\<And>d. d_closed (stop d)) \<Longrightarrow> snd (snd (acceptLoop stop as d)) \<Longrightarrow> d_closed (fst (snd (acceptLoop stop as d)))"
proof (induction as arbitrary: d)
  case (Cons x as)
  obtain env a where x: "x = (env, a)" by (cases x)
  from Cons.prems Cons.IH [of "env d"] show ?case
    by (cases a) (auto simp: x Let_def split: prod.splits if_splits)
qed simp

lemma periodicGC_returns:
  "snd (periodicGC rs d) \<Longrightarrow> ctxDone (fst (periodicGC rs d))"
  by (induction rs arbitrary: d) (auto simp: Let_def split: if_splits)

end
