(* ===== verification/Worker_Turn.thy ===== *)
theory Worker_Turn
  imports Turn_Gate
begin

text \<open>
  The turn state of the worker (\<open>internal/worker/worker.go\<close>): which turn is in flight, its
  context, whether its cancellation was requested, and whether an interrupt of it is still under
  way. Every function runs under \<open>turnMu\<close>. A context made for a turn is named by the turn's id;
  \<open>cancelledCtxs\<close> are those whose cancel function has been called. A worker of another type
  than codex has no turns: its functions return before they touch the state.
\<close>

record WorkerTurn =
  turnInFlight :: bool
  turnID :: u64
  turnCtx :: "u64 option"
  turnCancel :: "u64 option"
  turnCancelRequested :: bool
  turnInterruptPending :: bool
  cancelledCtxs :: "u64 list"

definition no_turn :: WorkerTurn where
  "no_turn = \<lparr>turnInFlight = False, turnID = 0, turnCtx = None, turnCancel = None,
     turnCancelRequested = False, turnInterruptPending = False, cancelledCtxs = []\<rparr>"

definition beginTurnWithID :: "string \<Rightarrow> WorkerTurn \<Rightarrow> WorkerTurn \<times> u64 \<times> bool" where
  "beginTurnWithID cliType t =
     (if cliType \<noteq> ''codex'' then (t, 0, True)
      else if turnInFlight t \<or> turnInterruptPending t then (t, 0, False)
      else
        let i = turnID t + 1 in
        (t\<lparr>turnInFlight := True, turnID := i, turnCtx := Some i, turnCancel := Some i,
           turnCancelRequested := False\<rparr>, i, True))"

datatype turn_context = WorkerContext | TurnContext u64

definition turnContextForID :: "string \<Rightarrow> WorkerTurn \<Rightarrow> u64 \<Rightarrow> turn_context option" where
  "turnContextForID cliType t i =
     (if cliType \<noteq> ''codex'' then Some WorkerContext
      else if \<not> turnInFlight t \<or> turnID t \<noteq> i \<or> turnCtx t = None then None
      else Some (TurnContext (the (turnCtx t))))"

text \<open>Calling the cancel function of a turn's context, if there is one.\<close>

definition call_cancel :: "WorkerTurn \<Rightarrow> WorkerTurn" where
  "call_cancel t = (case turnCancel t of None \<Rightarrow> t | Some c \<Rightarrow> t\<lparr>cancelledCtxs := c # cancelledCtxs t\<rparr>)"

definition requestTurnInterrupt :: "string \<Rightarrow> WorkerTurn \<Rightarrow> WorkerTurn \<times> u64 \<times> bool" where
  "requestTurnInterrupt cliType t =
     (if cliType \<noteq> ''codex'' then (t, 0, False)
      else if \<not> turnInFlight t \<or> turnCancelRequested t then (t, 0, False)
      else ((call_cancel (t\<lparr>turnCancelRequested := True\<rparr>))\<lparr>turnInterruptPending := True\<rparr>, turnID t, True))"

definition isTurnCancellationRequested :: "string \<Rightarrow> WorkerTurn \<Rightarrow> u64 \<Rightarrow> bool" where
  "isTurnCancellationRequested cliType t i =
     (if cliType \<noteq> ''codex'' then False
      else turnInFlight t \<and> turnID t = i \<and> turnCancelRequested t)"

definition shouldInterruptTurn :: "string \<Rightarrow> WorkerTurn \<Rightarrow> u64 \<Rightarrow> bool" where
  "shouldInterruptTurn cliType t i =
     (if cliType \<noteq> ''codex'' then False
      else turnInFlight t \<and> turnID t = i \<and> turnCancelRequested t \<and> turnInterruptPending t)"

definition finishTurnInterrupt :: "string \<Rightarrow> u64 \<Rightarrow> WorkerTurn \<Rightarrow> WorkerTurn" where
  "finishTurnInterrupt cliType i t =
     (if cliType \<noteq> ''codex'' then t
      else if turnID t = i then t\<lparr>turnInterruptPending := False\<rparr> else t)"

definition cancelTurnLocked :: "WorkerTurn \<Rightarrow> WorkerTurn" where
  "cancelTurnLocked t = (call_cancel t)\<lparr>turnCancel := None, turnCtx := None\<rparr>"

definition finishTurnWithID :: "string \<Rightarrow> u64 \<Rightarrow> WorkerTurn \<Rightarrow> WorkerTurn \<times> bool" where
  "finishTurnWithID cliType i t =
     (if cliType \<noteq> ''codex'' then (t, True)
      else if \<not> turnInFlight t \<or> (i \<noteq> 0 \<and> i \<noteq> turnID t) then (t, False)
      else ((cancelTurnLocked (t\<lparr>turnInFlight := False\<rparr>))\<lparr>turnCancelRequested := False\<rparr>, True))"

definition finishTurn :: "string \<Rightarrow> WorkerTurn \<Rightarrow> WorkerTurn" where
  "finishTurn cliType t = fst (finishTurnWithID cliType 0 t)"

definition beginTurn :: "string \<Rightarrow> WorkerTurn \<Rightarrow> WorkerTurn \<times> bool" where
  "beginTurn cliType t = (case beginTurnWithID cliType t of (t, _, ok) \<Rightarrow> (t, ok))"

definition cancelActiveTurn :: "string \<Rightarrow> WorkerTurn \<Rightarrow> WorkerTurn" where
  "cancelActiveTurn cliType t = (if cliType \<noteq> ''codex'' then t else cancelTurnLocked t)"

lemmas worker_turn_defs = beginTurnWithID_def requestTurnInterrupt_def finishTurnInterrupt_def
  cancelTurnLocked_def finishTurnWithID_def finishTurn_def beginTurn_def cancelActiveTurn_def call_cancel_def

lemma call_cancel_fields [simp]:
  "turnInFlight (call_cancel t) = turnInFlight t" "turnID (call_cancel t) = turnID t"
  "turnCancelRequested (call_cancel t) = turnCancelRequested t"
  "turnInterruptPending (call_cancel t) = turnInterruptPending t"
  by (simp_all add: call_cancel_def split: option.split)

section \<open>The worker's turns are a turn gate\<close>

interpretation worker_turn: turn_gate turnInFlight turnCancelRequested turnID "beginTurn ''codex''"
  "\<lambda>t. (fst (requestTurnInterrupt ''codex'' t), snd (snd (requestTurnInterrupt ''codex'' t)))" "finishTurn ''codex''"
proof unfold_locales
  fix t :: WorkerTurn
  let ?cn = "(fst (requestTurnInterrupt ''codex'' t), snd (snd (requestTurnInterrupt ''codex'' t)))"
  show "snd (beginTurn ''codex'' t) \<Longrightarrow> \<not> turnInFlight t \<and> turnInFlight (fst (beginTurn ''codex'' t))
      \<and> \<not> turnCancelRequested (fst (beginTurn ''codex'' t)) \<and> turnID (fst (beginTurn ''codex'' t)) = turnID t + 1"
    by (auto simp: beginTurn_def beginTurnWithID_def Let_def split: if_splits)
  show "\<not> snd (beginTurn ''codex'' t) \<Longrightarrow> fst (beginTurn ''codex'' t) = t"
    by (auto simp: beginTurn_def beginTurnWithID_def Let_def split: if_splits)
  show "snd ?cn \<longleftrightarrow> turnInFlight t \<and> \<not> turnCancelRequested t"
    by (simp add: requestTurnInterrupt_def)
  show "snd ?cn \<Longrightarrow> turnInFlight (fst ?cn) \<and> turnCancelRequested (fst ?cn) \<and> turnID (fst ?cn) = turnID t"
    by (simp add: requestTurnInterrupt_def split: if_splits)
  show "\<not> snd ?cn \<Longrightarrow> fst ?cn = t"
    by (auto simp: requestTurnInterrupt_def split: if_splits)
  show "\<not> turnInFlight (finishTurn ''codex'' t) \<and> turnID (finishTurn ''codex'' t) = turnID t"
    by (simp add: finishTurn_def finishTurnWithID_def cancelTurnLocked_def)
qed

section \<open>Interrupts\<close>

text \<open>
  \<open>interruptTurn\<close> runs in a goroutine of its own, started with the id \<open>requestTurnInterrupt\<close>
  returned: it asks \<open>shouldInterruptTurn\<close>, has the adapter write ESC, and, deferred, calls
  \<open>finishTurnInterrupt\<close>. Where a goroutine stands is its \<open>ipc\<close>; \<open>escapes\<close> records for every
  ESC the turn it was meant for and the turn that was the newest when it was written.
\<close>

datatype ipc = NotStarted | Started u64 | Interrupting u64 | Returning u64

record interrupts =
  it_turn :: WorkerTurn
  it_pc :: "nat \<Rightarrow> ipc"
  escapes :: "(u64 \<times> u64) list"

definition init_interrupts :: interrupts where
  "init_interrupts = \<lparr>it_turn = no_turn, it_pc = (\<lambda>_. NotStarted), escapes = []\<rparr>"

inductive interrupt_step :: "interrupts \<Rightarrow> interrupts \<Rightarrow> bool" where
  it_begin: "interrupt_step s (s\<lparr>it_turn := fst (beginTurnWithID ''codex'' (it_turn s))\<rparr>)"
| it_finish: "interrupt_step s (s\<lparr>it_turn := fst (finishTurnWithID ''codex'' i (it_turn s))\<rparr>)"
| it_close: "interrupt_step s (s\<lparr>it_turn := cancelActiveTurn ''codex'' (it_turn s)\<rparr>)"
| it_request: "it_pc s g = NotStarted \<Longrightarrow> requestTurnInterrupt ''codex'' (it_turn s) = (t, i, True)
    \<Longrightarrow> interrupt_step s (s\<lparr>it_turn := t, it_pc := (it_pc s)(g := Started i)\<rparr>)"
| it_check: "it_pc s g = Started i \<Longrightarrow> interrupt_step s (s\<lparr>it_pc := (it_pc s)(g :=
      (if shouldInterruptTurn ''codex'' (it_turn s) i then Interrupting i else Returning i))\<rparr>)"
| it_escape: "it_pc s g = Interrupting i \<Longrightarrow> interrupt_step s
    (s\<lparr>it_pc := (it_pc s)(g := Returning i), escapes := (i, turnID (it_turn s)) # escapes s\<rparr>)"
| it_fail: "it_pc s g = Interrupting i \<Longrightarrow> interrupt_step s
    (s\<lparr>it_pc := (it_pc s)(g := Returning i), it_turn := fst (finishTurnWithID ''codex'' i (it_turn s))\<rparr>)"
| it_return: "it_pc s g = Returning i \<Longrightarrow> interrupt_step s
    (s\<lparr>it_pc := (it_pc s)(g := NotStarted), it_turn := finishTurnInterrupt ''codex'' i (it_turn s)\<rparr>)"

inductive interrupt_reachable :: "interrupts \<Rightarrow> bool" where
  "interrupt_reachable init_interrupts"
| "interrupt_reachable s \<Longrightarrow> interrupt_step s s' \<Longrightarrow> interrupt_reachable s'"

fun pc_turn :: "ipc \<Rightarrow> u64 option" where
  "pc_turn NotStarted = None"
| "pc_turn (Started i) = Some i"
| "pc_turn (Interrupting i) = Some i"
| "pc_turn (Returning i) = Some i"

text \<open>At most one interrupt goroutine is under way, it is of the newest turn, and no turn can begin.\<close>

definition interrupt_inv :: "interrupts \<Rightarrow> bool" where
  "interrupt_inv s \<longleftrightarrow>
     (\<forall>g i. pc_turn (it_pc s g) = Some i \<longrightarrow> i = turnID (it_turn s) \<and> turnInterruptPending (it_turn s)
        \<and> (\<forall>g'. pc_turn (it_pc s g') \<noteq> None \<longrightarrow> g' = g)
        \<and> (turnInFlight (it_turn s) \<longrightarrow> turnCancelRequested (it_turn s)))
     \<and> (\<forall>(i, cur) \<in> set (escapes s). i = cur)"

lemma begin_pending: "turnInterruptPending t \<Longrightarrow> fst (beginTurnWithID ''codex'' t) = t"
  by (simp add: beginTurnWithID_def)

lemma finish_fields:
  "turnID (fst (finishTurnWithID ''codex'' i t)) = turnID t"
  "turnInterruptPending (fst (finishTurnWithID ''codex'' i t)) = turnInterruptPending t"
  "turnInFlight (fst (finishTurnWithID ''codex'' i t)) \<Longrightarrow> turnInFlight t
     \<and> turnCancelRequested (fst (finishTurnWithID ''codex'' i t)) = turnCancelRequested t"
  by (auto simp: finishTurnWithID_def cancelTurnLocked_def split: if_splits)

lemma interrupt_invD:
  assumes "interrupt_inv s" and "pc_turn (it_pc s g) = Some i"
  shows "i = turnID (it_turn s)" and "turnInterruptPending (it_turn s)"
    and "pc_turn (it_pc s g') \<noteq> None \<Longrightarrow> g' = g"
    and "turnInFlight (it_turn s) \<Longrightarrow> turnCancelRequested (it_turn s)"
  using assms unfolding interrupt_inv_def by blast+

lemma interrupt_invI:
  assumes "\<And>g i. pc_turn (it_pc s g) = Some i \<Longrightarrow> i = turnID (it_turn s)"
    and "\<And>g i. pc_turn (it_pc s g) = Some i \<Longrightarrow> turnInterruptPending (it_turn s)"
    and "\<And>g i g'. pc_turn (it_pc s g) = Some i \<Longrightarrow> pc_turn (it_pc s g') \<noteq> None \<Longrightarrow> g' = g"
    and "\<And>g i. pc_turn (it_pc s g) = Some i \<Longrightarrow> turnInFlight (it_turn s) \<Longrightarrow> turnCancelRequested (it_turn s)"
    and "\<forall>(i, cur) \<in> set (escapes s). i = cur"
  shows "interrupt_inv s"
  using assms unfolding interrupt_inv_def by blast

text \<open>A step of the goroutine under way.\<close>

lemma interrupt_inv_move:
  assumes inv: "interrupt_inv s" and g: "pc_turn (it_pc s g) = Some i" and p: "pc_turn p = Some i"
    and id: "turnID t = turnID (it_turn s)" and pend: "turnInterruptPending t = turnInterruptPending (it_turn s)"
    and fl: "turnInFlight t \<Longrightarrow> turnInFlight (it_turn s) \<and> turnCancelRequested t = turnCancelRequested (it_turn s)"
    and es: "set es \<subseteq> insert (i, turnID (it_turn s)) (set (escapes s))"
  shows "interrupt_inv (s\<lparr>it_pc := (it_pc s)(g := p), it_turn := t, escapes := es\<rparr>)"
proof (rule interrupt_invI)
  note D = interrupt_invD [OF inv g]
  let ?s = "s\<lparr>it_pc := (it_pc s)(g := p), it_turn := t, escapes := es\<rparr>"
  show "\<forall>(i, cur) \<in> set (escapes ?s). i = cur"
    using es inv D(1) unfolding interrupt_inv_def by auto
  fix g1 i1 assume a: "pc_turn (it_pc ?s g1) = Some i1"
  have o: "g1 = g"
  proof (rule ccontr)
    assume "g1 \<noteq> g"
    with a D(3) [of g1] show False by simp
  qed
  with a p have i1: "i1 = i" by simp
  then show "i1 = turnID (it_turn ?s)" using D(1) id by simp
  show "turnInterruptPending (it_turn ?s)" using D(2) pend by simp
  show "turnInFlight (it_turn ?s) \<Longrightarrow> turnCancelRequested (it_turn ?s)" using fl D(4) by simp
  fix g' assume "pc_turn (it_pc ?s g') \<noteq> None"
  then show "g' = g1" using D(3) [of g'] o by (cases "g' = g") simp_all
qed

lemma interrupt_inv_step: "interrupt_step s s' \<Longrightarrow> interrupt_inv s \<Longrightarrow> interrupt_inv s'"
proof (induction rule: interrupt_step.induct)
  case (it_begin s)
  show ?case
  proof (cases "\<exists>g. pc_turn (it_pc s g) \<noteq> None")
    case True
    with it_begin have "turnInterruptPending (it_turn s)" by (auto simp: interrupt_inv_def)
    with it_begin show ?thesis by (simp add: begin_pending)
  next
    case False
    with it_begin show ?thesis by (simp add: interrupt_inv_def)
  qed
next
  case (it_finish s i)
  then show ?case
    by (auto simp: interrupt_inv_def finish_fields(1,2) dest: finish_fields(3))
next
  case (it_close s)
  then show ?case by (auto simp: interrupt_inv_def cancelActiveTurn_def cancelTurnLocked_def)
next
  case (it_request s g t i)
  have old: "turnInFlight (it_turn s)" "\<not> turnCancelRequested (it_turn s)" "i = turnID (it_turn s)"
    and new: "turnID t = turnID (it_turn s)" "turnInterruptPending t" "turnCancelRequested t"
    using it_request(2) by (auto simp: requestTurnInterrupt_def split: if_splits)
  have "pc_turn (it_pc s g') = None" for g'
    using it_request(3) old by (auto simp: interrupt_inv_def)
  with it_request(3) old new show ?case by (auto simp: interrupt_inv_def)
next
  case (it_check s g i)
  then have g: "pc_turn (it_pc s g) = Some i" by simp
  show ?case
    using interrupt_inv_move [OF it_check(2) g, of "Interrupting i" "it_turn s" "escapes s"]
      interrupt_inv_move [OF it_check(2) g, of "Returning i" "it_turn s" "escapes s"]
    by (auto simp: subset_insertI)
next
  case (it_escape s g i)
  then have g: "pc_turn (it_pc s g) = Some i" by simp
  show ?case
    using interrupt_inv_move [OF it_escape(2) g, of "Returning i" "it_turn s" "(i, turnID (it_turn s)) # escapes s"]
    by simp
next
  case (it_fail s g i)
  then have g: "pc_turn (it_pc s g) = Some i" by simp
  show ?case
    using interrupt_inv_move [OF it_fail(2) g, of "Returning i" "fst (finishTurnWithID ''codex'' i (it_turn s))" "escapes s"]
      finish_fields(3) [of i "it_turn s"]
    by (simp add: finish_fields(1,2) subset_insertI)
next
  case (it_return s g i)
  then have g: "pc_turn (it_pc s g) = Some i" by simp
  have none: "pc_turn ((if g' = g then NotStarted else it_pc s g')) = None" for g'
    using interrupt_invD(3) [OF it_return(2) g, of g'] by (cases "pc_turn (it_pc s g')") auto
  show ?case
    by (rule interrupt_invI) (use none it_return(2) in \<open>auto simp: fun_upd_def interrupt_inv_def\<close>)
qed

lemma interrupt_inv_reachable: "interrupt_reachable s \<Longrightarrow> interrupt_inv s"
proof (induction rule: interrupt_reachable.induct)
  case 1
  show ?case by (simp add: interrupt_inv_def init_interrupts_def)
next
  case (2 s s')
  then show ?case by (blast intro: interrupt_inv_step)
qed

text \<open>
  C8: an interrupt never hits another turn than the one it was requested for. Over every
  interleaving of turns beginning and ending, cancellations, and interrupt goroutines at any
  point of their code, whenever ESC is written to the command-line tool the newest turn is the
  one whose cancellation asked for it: no turn can begin while an interrupt is under way, and at
  most one is under way.
\<close>

theorem interrupt_hits_own_turn:
  assumes "interrupt_reachable s"
  shows "(\<forall>(i, cur) \<in> set (escapes s). i = cur)
    \<and> (\<forall>g i. it_pc s g = Interrupting i \<longrightarrow> turnID (it_turn s) = i \<and> fst (beginTurnWithID ''codex'' (it_turn s)) = it_turn s)
    \<and> (\<forall>g g' i j. it_pc s g = Interrupting i \<longrightarrow> it_pc s g' = Interrupting j \<longrightarrow> g = g')"
proof -
  have inv: "interrupt_inv s" by (rule interrupt_inv_reachable [OF assms])
  have D: "turnID (it_turn s) = i" "turnInterruptPending (it_turn s)" "it_pc s g' = Interrupting j \<Longrightarrow> g = g'"
    if "it_pc s g = Interrupting i" for g i g' j
  proof -
    have g: "pc_turn (it_pc s g) = Some i" using that by simp
    show "turnID (it_turn s) = i" "turnInterruptPending (it_turn s)" using interrupt_invD(1,2) [OF inv g] by simp_all
    show "it_pc s g' = Interrupting j \<Longrightarrow> g = g'" using interrupt_invD(3) [OF inv g, of g'] by simp
  qed
  moreover have "\<forall>(i, cur) \<in> set (escapes s). i = cur" using inv by (simp add: interrupt_inv_def)
  ultimately show ?thesis using begin_pending by blast
qed

theorem interrupt_hits_own_turn_witness:
  "\<exists>s. interrupt_reachable s \<and> it_pc s 0 = Interrupting 1 \<and> turnID (it_turn s) = 1
     \<and> fst (beginTurnWithID ''codex'' (it_turn s)) = it_turn s"
proof -
  let ?s1 = "init_interrupts\<lparr>it_turn := fst (beginTurnWithID ''codex'' no_turn)\<rparr>"
  let ?t = "fst (requestTurnInterrupt ''codex'' (it_turn ?s1))"
  let ?s2 = "?s1\<lparr>it_turn := ?t, it_pc := (it_pc ?s1)(0 := Started 1)\<rparr>"
  let ?s3 = "?s2\<lparr>it_pc := (it_pc ?s2)(0 := (if shouldInterruptTurn ''codex'' (it_turn ?s2) 1 then Interrupting 1 else Returning 1))\<rparr>"
  have "interrupt_step init_interrupts ?s1"
    using interrupt_step.it_begin [of init_interrupts] by (simp add: init_interrupts_def)
  then have r1: "interrupt_reachable ?s1" by (rule interrupt_reachable.intros(2) [OF interrupt_reachable.intros(1)])
  have "interrupt_step ?s1 ?s2"
    by (rule interrupt_step.it_request)
      (simp_all add: init_interrupts_def beginTurnWithID_def no_turn_def requestTurnInterrupt_def Let_def)
  then have r2: "interrupt_reachable ?s2" by (rule interrupt_reachable.intros(2) [OF r1])
  have "interrupt_step ?s2 ?s3" by (rule interrupt_step.it_check) simp
  then have r3: "interrupt_reachable ?s3" by (rule interrupt_reachable.intros(2) [OF r2])
  have "it_pc ?s3 0 = Interrupting 1"
    by (simp add: init_interrupts_def beginTurnWithID_def no_turn_def requestTurnInterrupt_def shouldInterruptTurn_def
        call_cancel_def Let_def)
  with interrupt_hits_own_turn [OF r3] r3 show ?thesis by blast
qed

end
