(* ===== verification/Ansi_Filter.thy ===== *)
theory Ansi_Filter
  imports Go_Strings
begin

text \<open>
  The contract of a filter that takes terminal control sequences out of a byte stream, which two
  parts of the program implement: \<open>stripAnsi\<close> of the worker and \<open>stripCodexANSI\<close> of the Codex
  adapter. What it leaves is plain, and plain text passes unchanged.
\<close>

definition ESC :: char where "ESC = CHR 0x1B"
definition BEL :: char where "BEL = CHR 0x07"

locale ansi_filter =
  fixes strip :: "string \<Rightarrow> string"
    and plain :: "char \<Rightarrow> bool"
  assumes strip_plain: "list_all plain (strip s)"
    and strip_keeps: "list_all plain s \<Longrightarrow> strip s = s"
    and esc_not_plain: "\<not> plain ESC"
begin

lemma strip_idem: "strip (strip s) = strip s"
  using strip_plain strip_keeps by blast

lemma strip_fixed_iff: "strip s = s \<longleftrightarrow> list_all plain s"
  using strip_plain strip_keeps by metis

lemma no_escape: "ESC \<notin> set (strip s)"
  using strip_plain [of s] esc_not_plain by (auto simp: list_all_iff)

lemma range_strip: "range strip = {s. list_all plain s}"
  using strip_plain strip_keeps by (auto simp: image_iff) metis

end

text \<open>A CSI sequence ends at its first final byte; what comes before it are its parameters.\<close>

definition csi_final :: "char \<Rightarrow> bool" where
  "csi_final c = (0x40 \<le> byte c \<and> byte c \<le> 0x7E)"

text \<open>Go's regular-expression class \<open>\s\<close>.\<close>

definition re_space :: "char \<Rightarrow> bool" where
  "re_space c = (byte c \<in> {9, 10, 12, 13, 32})"

text \<open>
  \<open>Regexp.ReplaceAllString\<close> and \<open>MatchString\<close> for a pattern that never matches the empty
  string: \<open>mt s\<close> is the length of the match at the start of \<open>s\<close>, if there is one.
\<close>

fun replace_matches :: "(string \<Rightarrow> nat option) \<Rightarrow> string \<Rightarrow> string \<Rightarrow> string" where
  "replace_matches mt rep [] = []"
| "replace_matches mt rep (c # cs) =
     (case mt (c # cs) of
        Some n \<Rightarrow> rep @ replace_matches mt rep (drop (n - 1) cs)
      | None \<Rightarrow> c # replace_matches mt rep cs)"

fun match_anywhere :: "(string \<Rightarrow> nat option) \<Rightarrow> string \<Rightarrow> bool" where
  "match_anywhere mt [] = False"
| "match_anywhere mt (c # cs) = (mt (c # cs) \<noteq> None \<or> match_anywhere mt cs)"

end
