(* ===== verification/Tui_Screen.thy ===== *)
theory Tui_Screen
  imports Ansi_Filter
begin

text \<open>
  \<open>internal/worker/tui_screen.go\<close>: what the worker does to a line of terminal output before it
  sends it on. \<open>stripAnsi\<close> takes control sequences out (a cursor-forward sequence becomes that
  many spaces); \<open>LineDeduper\<close> drops animated status lines it has seen, up to the numbers,
  timers and spinners in them.
\<close>

section \<open>Control sequences\<close>

definition findCSIFinal :: "string \<Rightarrow> nat option" where
  "findCSIFinal s =
     (if list_ex csi_final s then Some (length (takeWhile (\<lambda>c. \<not> csi_final c) s)) else None)"

definition csiCount :: "string \<Rightarrow> nat" where
  "csiCount params =
     (let first = TrimLeft (fst (split_once (CHR '';'') params)) ''?><='';
          count = (case Atoi first of None \<Rightarrow> 1 | Some n \<Rightarrow> if n \<le> 0 then 1 else n)
      in nat (min count 1000))"

fun skipControlString :: "string \<Rightarrow> string" where
  "skipControlString [] = []"
| "skipControlString (c # cs) =
     (if c = BEL then cs
      else if c = ESC \<and> cs \<noteq> [] \<and> hd cs = CHR 0x5C then tl cs
      else skipControlString cs)"

lemma skipControlString_shorter: "length (skipControlString s) \<le> length s"
  by (induction s rule: skipControlString.induct) auto

text \<open>The control bytes \<open>stripAnsi\<close> drops; tab, line feed and carriage return stay.\<close>

definition dropped_control :: "char \<Rightarrow> bool" where
  "dropped_control c = ((byte c < 0x20 \<and> byte c \<notin> {9, 10, 13}) \<or> byte c = 0x7F)"

text \<open>After ESC: the openers of a control string, and of a three-byte character-set selection.\<close>

definition string_opener :: "char \<Rightarrow> bool" where "string_opener d = (d \<in> set '']PX^_'')"
definition charset_opener :: "char \<Rightarrow> bool" where "charset_opener d = (d \<in> set ''()*+'')"

function stripAnsi :: "string \<Rightarrow> string" where
  "stripAnsi [] = []"
| "stripAnsi (c # cs) =
     (if c = ESC then
        (case cs of
           [] \<Rightarrow> []
         | d # ds \<Rightarrow>
             if d = CHR ''['' then
               (case findCSIFinal ds of
                  None \<Rightarrow> []
                | Some f \<Rightarrow>
                    (if ds ! f = CHR ''C'' then replicate (csiCount (take f ds)) (CHR '' '') else [])
                      @ stripAnsi (drop (Suc f) ds))
             else if string_opener d then stripAnsi (skipControlString ds)
             else if charset_opener d then stripAnsi (drop 1 ds)
             else stripAnsi ds)
      else if dropped_control c then stripAnsi cs
      else c # stripAnsi cs)"
  by pat_completeness auto
termination
  by (relation "measure length") (auto simp: le_imp_less_Suc le_SucI skipControlString_shorter)

declare stripAnsi.simps(2) [simp del]

text \<open>What \<open>stripAnsi\<close> leaves: no ESC, no DEL, no control byte but tab, line feed, carriage return.\<close>

definition screen_plain :: "char \<Rightarrow> bool" where
  "screen_plain c = (c \<noteq> ESC \<and> \<not> dropped_control c)"

lemma space_plain: "screen_plain (CHR '' '')"
  by (simp add: screen_plain_def dropped_control_def ESC_def byte_def)

interpretation screen: ansi_filter stripAnsi screen_plain
proof unfold_locales
  show "list_all screen_plain (stripAnsi s)" for s
  proof (induction s rule: length_induct)
    case (1 s)
    show ?case
    proof (cases s)
      case (Cons c cs)
      have IH: "length t \<le> length cs \<Longrightarrow> list_all screen_plain (stripAnsi t)" for t
        using 1 Cons by simp
      have sp: "list_all screen_plain (replicate n (CHR '' ''))" for n
        by (induction n) (simp_all add: space_plain)
      show ?thesis
      proof (cases "c = ESC")
        case True
        show ?thesis
          using IH sp unfolding Cons stripAnsi.simps(2) [of c cs]
          by (simp add: True le_SucI skipControlString_shorter split: list.split option.split)
      next
        case False
        then have "\<not> dropped_control c \<Longrightarrow> screen_plain c" by (simp add: screen_plain_def)
        with False show ?thesis
          using IH [of cs] unfolding Cons stripAnsi.simps(2) [of c cs] by simp
      qed
    qed simp
  qed
  show "list_all screen_plain s \<Longrightarrow> stripAnsi s = s" for s
    by (induction s) (auto simp: stripAnsi.simps(2) screen_plain_def)
  show "\<not> screen_plain ESC" by (simp add: screen_plain_def)
qed

section \<open>Normalised status lines\<close>

definition spinner_runes :: "nat set" where
  "spinner_runes = {0x280B, 0x2819, 0x2839, 0x2838, 0x283C, 0x2834, 0x2826, 0x2827, 0x2807, 0x280F, 0x2804,
     0x2806, 0x2816, 0x2817, 0x281A, 0x281E, 0x281B, 0x28FF, 0x28FB, 0x28FD, 0x28FE, 0x28F7, 0x28EF, 0x28DF,
     0x287F}"

definition normSpinner :: "nat set" where
  "normSpinner = spinner_runes \<union> {0x28BF, 0x28B8, 0x28F0, 0x2880, 0x2840}"

definition normStatus :: "nat set" where
  "normStatus = {0x273B, 0x2733, 0x2736, 0x2734, 0x2726, 0x2727, 0x2722, 0x2723, 0x2724, 0x2725, 0x273D,
     0x273C, 0x273A, 0x25D0, 0x25D3, 0x25D1, 0x25D2}"

definition remove_runes :: "nat set \<Rightarrow> string \<Rightarrow> string" where
  "remove_runes cls s = concat (map snd (filter (\<lambda>x. fst x \<notin> cls) (rune_segs s)))"

text \<open>\<open>\d+(\.\d+)?\<close> at the start of the string: what is left after it.\<close>

definition match_number :: "string \<Rightarrow> string option" where
  "match_number s =
     (if s = [] \<or> \<not> is_digit (hd s) then None
      else let r = dropWhile is_digit s
           in Some (if r \<noteq> [] \<and> hd r = CHR ''.'' \<and> tl r \<noteq> [] \<and> is_digit (hd (tl r))
                    then dropWhile is_digit (tl r) else r))"

text \<open>\<open>\(\d+(\.\d+)?s(\s*\<dots>[^)]*)?\)\<close>, with a middle dot (two bytes in UTF-8) after the spaces.\<close>

definition middle_dot :: string where "middle_dot = [CHR 0xC2, CHR 0xB7]"

definition normTimer :: "string \<Rightarrow> nat option" where
  "normTimer s =
     (if s = [] \<or> hd s \<noteq> CHR ''('' then None
      else case match_number (tl s) of
        None \<Rightarrow> None
      | Some r \<Rightarrow>
          if r = [] \<or> hd r \<noteq> CHR ''s'' then None
          else let r = tl r; r1 = dropWhile re_space r;
                   r2 = (if prefix middle_dot r1 then dropWhile (\<lambda>c. c \<noteq> CHR '')'') (drop 2 r1) else r)
               in if r2 \<noteq> [] \<and> hd r2 = CHR '')'' then Some (length s - length (tl r2)) else None)"

definition normPct :: "string \<Rightarrow> nat option" where
  "normPct s =
     (case match_number s of
        None \<Rightarrow> None
      | Some r \<Rightarrow> if r \<noteq> [] \<and> hd r = CHR ''%'' then Some (length s - length (tl r)) else None)"

definition normSpaces :: "string \<Rightarrow> nat option" where
  "normSpaces s = (let n = length (takeWhile re_space s) in if n = 0 then None else Some n)"

definition normalizeLine :: "string \<Rightarrow> string" where
  "normalizeLine s =
     (let s = stripAnsi s;
          s = remove_runes normSpinner s;
          s = remove_runes normStatus s;
          s = replace_matches normTimer [] s;
          s = replace_matches normPct [] s;
          s = TrimSpace s
      in replace_matches normSpaces '' '' s)"

definition isDynamicStatusLine :: "string \<Rightarrow> bool" where
  "isDynamicStatusLine s =
     (let first = fst (DecodeRune s) in
      if first \<in> spinner_runes then True
      else first \<in> normStatus \<and> (match_anywhere normTimer s \<or> match_anywhere normPct s))"

section \<open>The deduper\<close>

record LineDeduper =
  seen :: "string \<rightharpoonup> nat"
  order :: "string list"
  maxSize :: nat

definition NewLineDeduper :: "int \<Rightarrow> LineDeduper" where
  "NewLineDeduper n = \<lparr>seen = Map.empty, order = [], maxSize = (if n \<le> 0 then 200 else nat n)\<rparr>"

definition Check :: "LineDeduper \<Rightarrow> string \<Rightarrow> LineDeduper \<times> string" where
  "Check d raw =
     (let visible = TrimSpace (stripAnsi raw) in
      if visible = [] then (d, [])
      else if \<not> isDynamicStatusLine visible then (d, raw)
      else
        let key = normalizeLine visible in
        if key = [] then (d, [])
        else if seen d key \<noteq> None then (d, [])
        else
          let d = (if maxSize d \<le> length (order d)
                   then d\<lparr>order := tl (order d), seen := (seen d)(hd (order d) := None)\<rparr> else d)
          in (d\<lparr>seen := (seen d)(key \<mapsto> 1), order := order d @ [key]\<rparr>, raw))"

definition Reset :: "LineDeduper \<Rightarrow> LineDeduper" where
  "Reset d = d\<lparr>seen := Map.empty, order := []\<rparr>"

definition dedup_inv :: "LineDeduper \<Rightarrow> bool" where
  "dedup_inv d \<longleftrightarrow> dom (seen d) = set (order d) \<and> distinct (order d) \<and> length (order d) \<le> maxSize d \<and> 0 < maxSize d"

lemma dedup_inv_new: "dedup_inv (NewLineDeduper n)"
  by (auto simp: dedup_inv_def NewLineDeduper_def)

lemma dedup_inv_reset: "dedup_inv d \<Longrightarrow> dedup_inv (Reset d)"
  by (auto simp: dedup_inv_def Reset_def)

text \<open>How a line is treated.\<close>

definition visible_of :: "string \<Rightarrow> string" where "visible_of raw = TrimSpace (stripAnsi raw)"

definition dynamic_line :: "string \<Rightarrow> bool" where
  "dynamic_line raw = (visible_of raw \<noteq> [] \<and> isDynamicStatusLine (visible_of raw))"

definition static_line :: "string \<Rightarrow> bool" where
  "static_line raw = (visible_of raw \<noteq> [] \<and> \<not> isDynamicStatusLine (visible_of raw))"

definition line_key :: "string \<Rightarrow> string" where "line_key raw = normalizeLine (visible_of raw)"

lemma Check_static: "static_line raw \<Longrightarrow> Check d raw = (d, raw)"
  by (simp add: Check_def static_line_def visible_of_def)

lemma Check_invisible: "\<not> static_line raw \<Longrightarrow> \<not> dynamic_line raw \<Longrightarrow> Check d raw = (d, [])"
  by (auto simp: Check_def static_line_def dynamic_line_def visible_of_def Let_def)

lemma Check_dynamic:
  "dynamic_line raw \<Longrightarrow> Check d raw =
     (if line_key raw = [] \<or> seen d (line_key raw) \<noteq> None then (d, [])
      else let d = (if maxSize d \<le> length (order d)
                    then d\<lparr>order := tl (order d), seen := (seen d)(hd (order d) := None)\<rparr> else d)
           in (d\<lparr>seen := (seen d)(line_key raw \<mapsto> 1), order := order d @ [line_key raw]\<rparr>, raw))"
  by (simp add: Check_def dynamic_line_def visible_of_def line_key_def Let_def)

lemma dedup_inv_check: "dedup_inv d \<Longrightarrow> dedup_inv (fst (Check d raw))"
proof -
  assume inv: "dedup_inv d"
  consider "static_line raw" | "\<not> static_line raw" "\<not> dynamic_line raw" | "dynamic_line raw" by blast
  then show ?thesis
  proof cases
    case 3
    show ?thesis
    proof (cases "maxSize d \<le> length (order d) \<and> line_key raw \<noteq> [] \<and> seen d (line_key raw) = None")
      case True
      with inv obtain k ks where "order d = k # ks" by (cases "order d") (auto simp: dedup_inv_def)
      with True inv 3 show ?thesis
        by (auto simp: Check_dynamic dedup_inv_def Let_def)
    next
      case False
      with inv 3 show ?thesis by (auto simp: Check_dynamic dedup_inv_def Let_def)
    qed
  qed (use inv in \<open>simp_all add: Check_static Check_invisible\<close>)
qed

text \<open>The lines a deduper lets through.\<close>

fun emitted :: "LineDeduper \<Rightarrow> string list \<Rightarrow> string list" where
  "emitted d [] = []"
| "emitted d (raw # raws) =
     (let (d', out) = Check d raw in (if out = [] then emitted d' raws else out # emitted d' raws))"

text \<open>A run of lines short enough that nothing is forgotten: \<open>ks\<close> are the keys added so far.\<close>

definition remembers :: "LineDeduper \<Rightarrow> nat \<Rightarrow> bool" where
  "remembers d n \<longleftrightarrow> dedup_inv d \<and> length (order d) + n \<le> maxSize d"

lemma remembers_check:
  assumes r: "remembers d (Suc n)"
  shows "remembers (fst (Check d raw)) n"
    and "dynamic_line raw \<Longrightarrow> snd (Check d raw) =
      (if line_key raw = [] \<or> line_key raw \<in> set (order d) then [] else raw)"
    and "set (order (fst (Check d raw))) = set (order d)
      \<union> (if dynamic_line raw \<and> line_key raw \<noteq> [] then {line_key raw} else {})"
proof -
  have inv: "dedup_inv d" and room: "length (order d) < maxSize d" using r by (auto simp: remembers_def)
  have mem: "seen d (line_key raw) \<noteq> None \<longleftrightarrow> line_key raw \<in> set (order d)"
    using inv by (auto simp: dedup_inv_def)
  have grow: "length (order (fst (Check d raw))) \<le> Suc (length (order d)) \<and> maxSize (fst (Check d raw)) = maxSize d"
    using room by (auto simp: Check_def Let_def)
  show "remembers (fst (Check d raw)) n"
    using r grow dedup_inv_check [OF inv, of raw] by (auto simp: remembers_def)
  show "dynamic_line raw \<Longrightarrow> snd (Check d raw) =
      (if line_key raw = [] \<or> line_key raw \<in> set (order d) then [] else raw)"
    using mem by (simp add: Check_dynamic Let_def)
  show "set (order (fst (Check d raw))) = set (order d)
      \<union> (if dynamic_line raw \<and> line_key raw \<noteq> [] then {line_key raw} else {})"
  proof (cases "dynamic_line raw")
    case True
    then show ?thesis using mem room by (auto simp: Check_dynamic Let_def)
  next
    case False
    then show ?thesis
      using Check_static [of raw d] Check_invisible [of raw d] by (cases "static_line raw") auto
  qed
qed

lemma static_not_dynamic: "static_line raw \<Longrightarrow> \<not> dynamic_line raw" "static_line raw \<Longrightarrow> raw \<noteq> []"
proof -
  show "static_line raw \<Longrightarrow> \<not> dynamic_line raw" by (simp add: static_line_def dynamic_line_def)
  show "static_line raw \<Longrightarrow> raw \<noteq> []" by (auto simp: static_line_def visible_of_def TrimSpace_def)
qed

lemma emitted_run:
  "remembers d (length raws) \<Longrightarrow>
     filter static_line (emitted d raws) = filter static_line raws
     \<and> distinct (map line_key (filter dynamic_line (emitted d raws)))
     \<and> line_key ` set (filter dynamic_line (emitted d raws))
         = {line_key raw | raw. raw \<in> set raws \<and> dynamic_line raw \<and> line_key raw \<noteq> []} - set (order d)"
proof (induction raws arbitrary: d)
  case (Cons raw raws)
  let ?d = "fst (Check d raw)"
  have r: "remembers d (Suc (length raws))" using Cons.prems by simp
  note IH = Cons.IH [OF remembers_check(1) [OF r, of raw]] and ord = remembers_check(3) [OF r, of raw]
  have step: "emitted d (raw # raws) =
      (if snd (Check d raw) = [] then emitted ?d raws else snd (Check d raw) # emitted ?d raws)"
    by (simp add: case_prod_unfold Let_def)
  consider (static) "static_line raw" | (invisible) "\<not> static_line raw" "\<not> dynamic_line raw" | (dynamic) "dynamic_line raw"
    by blast
  then show ?case
  proof cases
    case static
    with IH ord Check_static [OF static, of d] static_not_dynamic [OF static] show ?thesis
      unfolding step by auto
  next
    case invisible
    with IH ord Check_invisible [OF invisible, of d] show ?thesis
      unfolding step by auto
  next
    case dynamic
    then have ns: "\<not> static_line raw" "raw \<noteq> []" using static_not_dynamic(1)
      by (auto simp: dynamic_line_def visible_of_def TrimSpace_def)
    show ?thesis
    proof (cases "line_key raw = [] \<or> line_key raw \<in> set (order d)")
      case True
      with dynamic IH ord ns remembers_check(2) [OF r dynamic] show ?thesis
        unfolding step by auto
    next
      case False
      with dynamic ns remembers_check(2) [OF r dynamic]
      have e: "emitted d (raw # raws) = raw # emitted ?d raws" unfolding step by simp
      have o: "set (order ?d) = insert (line_key raw) (set (order d))" using ord dynamic False by simp
      have "line_key raw \<notin> line_key ` set (filter dynamic_line (emitted ?d raws))" using IH o by auto
      then show ?thesis using IH o dynamic ns False unfolding e by auto
    qed
  qed
qed simp



end
