(* ===== verification/Idle_Observer.thy ===== *)
theory Idle_Observer
  imports Prelude
begin

text \<open>
  \<open>internal/worker/output_idle_observer.go\<close>: tells a quiet command-line tool from a stalled
  one. It observes from an input on, for at most \<open>observeFor\<close>, and reports at most every
  \<open>logEvery\<close>. All methods run under the observer's mutex.
\<close>

datatype cliOutputIdleState = cliOutputWaiting | cliOutputQuiet | cliOutputPossibleStall

record cliOutputIdleDiagnostic =
  State :: cliOutputIdleState
  IdleFor :: duration
  SinceInput :: duration
  OutputSeen :: bool

record cliOutputIdleObserver =
  idleAfter :: duration
  stallAfter :: duration
  logEvery :: duration
  observeFor :: duration
  io_active :: bool
  inputAt :: time
  lastActivityAt :: time
  lastLoggedAt :: time
  outputSeen :: bool

definition newCLIOutputIdleObserver :: "duration \<Rightarrow> duration \<Rightarrow> duration \<Rightarrow> duration \<Rightarrow> cliOutputIdleObserver" where
  "newCLIOutputIdleObserver idle stall every span =
     \<lparr>idleAfter = idle, stallAfter = stall, logEvery = every, observeFor = span, io_active = False,
      inputAt = 0, lastActivityAt = 0, lastLoggedAt = 0, outputSeen = False\<rparr>"

definition BeginInput :: "time \<Rightarrow> cliOutputIdleObserver \<Rightarrow> cliOutputIdleObserver" where
  "BeginInput now x =
     x\<lparr>io_active := True, inputAt := now, lastActivityAt := now, lastLoggedAt := 0, outputSeen := False\<rparr>"

definition CancelInput :: "cliOutputIdleObserver \<Rightarrow> cliOutputIdleObserver" where
  "CancelInput x = x\<lparr>io_active := False\<rparr>"

definition MarkOutput :: "time \<Rightarrow> cliOutputIdleObserver \<Rightarrow> cliOutputIdleObserver" where
  "MarkOutput now x = (if \<not> io_active x then x else x\<lparr>lastActivityAt := now, outputSeen := True\<rparr>)"

definition Diagnostic :: "time \<Rightarrow> cliOutputIdleObserver \<Rightarrow> cliOutputIdleObserver \<times> cliOutputIdleDiagnostic option" where
  "Diagnostic now x =
     (if \<not> io_active x then (x, None)
      else
        let sinceInput = time_sub now (inputAt x) in
        if sinceInput < 0 \<or> observeFor x < sinceInput then (x\<lparr>io_active := False\<rparr>, None)
        else
          let idleFor = time_sub now (lastActivityAt x) in
          if idleFor < idleAfter x then (x, None)
          else if \<not> is_zero_time (lastLoggedAt x) \<and> time_sub now (lastLoggedAt x) < logEvery x then (x, None)
          else
            let state = (if outputSeen x then cliOutputQuiet else cliOutputWaiting);
                state = (if stallAfter x \<le> idleFor then cliOutputPossibleStall else state)
            in (x\<lparr>lastLoggedAt := now\<rparr>,
                Some \<lparr>State = state, IdleFor = idleFor, SinceInput = sinceInput, OutputSeen = outputSeen x\<rparr>))"

section \<open>Reports are rare and bounded in time\<close>

datatype observer_op = OBegin time | OCancel | OMark time | ODiagnostic time

fun observer_step :: "cliOutputIdleObserver \<Rightarrow> observer_op \<Rightarrow> cliOutputIdleObserver \<times> time list" where
  "observer_step x (OBegin now) = (BeginInput now x, [])"
| "observer_step x OCancel = (CancelInput x, [])"
| "observer_step x (OMark now) = (MarkOutput now x, [])"
| "observer_step x (ODiagnostic now) =
     (case Diagnostic now x of (x, r) \<Rightarrow> (x, if r = None then [] else [now]))"

fun observer_run :: "cliOutputIdleObserver \<Rightarrow> observer_op list \<Rightarrow> time list" where
  "observer_run x [] = []"
| "observer_run x (op # ops) = (case observer_step x op of (x, r) \<Rightarrow> r @ observer_run x ops)"

lemma Diagnostic_reports:
  assumes "Diagnostic now x = (x', Some r)"
  shows "io_active x \<and> x' = x\<lparr>lastLoggedAt := now\<rparr> \<and> idleAfter x \<le> IdleFor r \<and> 0 \<le> SinceInput r
    \<and> SinceInput r \<le> observeFor x
    \<and> (lastLoggedAt x \<noteq> 0 \<longrightarrow> logEvery x \<le> time_sub now (lastLoggedAt x))
    \<and> (State r = cliOutputPossibleStall \<longleftrightarrow> stallAfter x \<le> IdleFor r)"
  using assms by (auto simp: Diagnostic_def Let_def is_zero_time_def split: if_splits)

lemma Diagnostic_silent:
  "Diagnostic now x = (x', None) \<Longrightarrow> x' = x \<or> x' = x\<lparr>io_active := False\<rparr>"
  by (auto simp: Diagnostic_def Let_def split: if_splits)

text \<open>Within one input, consecutive reports are at least \<open>logEvery\<close> apart.\<close>

definition no_input :: "observer_op list \<Rightarrow> bool" where
  "no_input ops = list_all (\<lambda>op. case op of OBegin _ \<Rightarrow> False | ODiagnostic now \<Rightarrow> now \<noteq> 0 | _ \<Rightarrow> True) ops"

lemma observer_spaced:
  assumes "no_input ops" and "0 \<le> logEvery x" and "logEvery x < maxDuration"
  shows "(case observer_run x ops of [] \<Rightarrow> True | r # rs \<Rightarrow> lastLoggedAt x \<noteq> 0 \<longrightarrow> logEvery x \<le> r - lastLoggedAt x)
    \<and> (\<forall>i. Suc i < length (observer_run x ops) \<longrightarrow> logEvery x \<le> observer_run x ops ! Suc i - observer_run x ops ! i)"
  using assms
proof (induction ops arbitrary: x)
  case (Cons op ops)
  have sub: "logEvery x \<le> time_sub now u \<Longrightarrow> logEvery x \<le> now - u" for now u
    using time_sub_lt [of "logEvery x" now u] Cons.prems(2,3) by linarith
  have keep: "observer_run x (op # ops) = observer_run x' ops \<Longrightarrow> lastLoggedAt x' = lastLoggedAt x \<Longrightarrow>
      logEvery x' = logEvery x \<Longrightarrow> ?case" for x'
    using Cons.IH [of x'] Cons.prems by (simp add: no_input_def split: list.splits)
  show ?case
  proof (cases op)
    case (ODiagnostic now)
    obtain x' r where d: "Diagnostic now x = (x', r)" by fastforce
    show ?thesis
    proof (cases r)
      case None
      then show ?thesis using Diagnostic_silent [of now x x'] d ODiagnostic by (intro keep [of x']) auto
    next
      case (Some rep)
      note rep = Diagnostic_reports [of now x x' rep]
      have x': "lastLoggedAt x' = now" "logEvery x' = logEvery x" "now \<noteq> 0"
        using rep d Some Cons.prems(1) ODiagnostic by (auto simp: no_input_def)
      have run: "observer_run x (op # ops) = now # observer_run x' ops" using d Some ODiagnostic by simp
      have IH: "(case observer_run x' ops of [] \<Rightarrow> True | r # rs \<Rightarrow> logEvery x \<le> r - now)"
        "\<And>i. Suc i < length (observer_run x' ops) \<Longrightarrow> logEvery x \<le> observer_run x' ops ! Suc i - observer_run x' ops ! i"
        using Cons.IH [of x'] Cons.prems x' by (auto simp: no_input_def split: list.splits)
      have "logEvery x \<le> observer_run x (op # ops) ! Suc i - observer_run x (op # ops) ! i"
        if "Suc i < length (observer_run x (op # ops))" for i
        using that IH unfolding run by (cases i; cases "observer_run x' ops") auto
      moreover have "lastLoggedAt x \<noteq> 0 \<longrightarrow> logEvery x \<le> now - lastLoggedAt x"
        using rep d Some sub by auto
      ultimately show ?thesis unfolding run by simp
    qed
  next
    case (OBegin now)
    with Cons.prems(1) show ?thesis by (simp add: no_input_def)
  next
    case OCancel
    then show ?thesis by (intro keep [of "CancelInput x"]) (simp_all add: CancelInput_def)
  next
    case (OMark now)
    then show ?thesis by (intro keep [of "MarkOutput now x"]) (simp_all add: MarkOutput_def)
  qed
qed simp

end
