(* ===== verification/Adapter.thy ===== *)
theory Adapter
  imports Go_Strings
begin

text \<open>
  What a worker and its adapter share (\<open>internal/adapter/adapter.go\<close>): the events an adapter
  reports, the turn a call's context carries, what \<open>Start\<close> hands out, and the registry of
  factories. A context is given by the turn id stored in it, if there is one; the channels of a
  \<open>CliStartResult\<close> by whether they are there.
\<close>

datatype AdapterTurnStatus = ATurnCompleted | ATurnAborted | ATurnFailed

fun turn_status_string :: "AdapterTurnStatus \<Rightarrow> string" where
  "turn_status_string ATurnCompleted = ''completed''"
| "turn_status_string ATurnAborted = ''aborted''"
| "turn_status_string ATurnFailed = ''failed''"

datatype AdapterEventKind = AdapterOutput | AdapterTurnTerminal

record AdapterEvent =
  ev_TurnID :: u64
  ev_Kind :: AdapterEventKind
  ev_Output :: string
  ev_Status :: string
  ev_ErrorCode :: string
  ev_ErrorDetail :: string

definition output_event :: "string \<Rightarrow> AdapterEvent" where
  "output_event out = \<lparr>ev_TurnID = 0, ev_Kind = AdapterOutput, ev_Output = out, ev_Status = [],
     ev_ErrorCode = [], ev_ErrorDetail = []\<rparr>"

definition terminal_event :: "AdapterTurnStatus \<Rightarrow> string \<Rightarrow> string \<Rightarrow> AdapterEvent" where
  "terminal_event status code detail = \<lparr>ev_TurnID = 0, ev_Kind = AdapterTurnTerminal, ev_Output = [],
     ev_Status = turn_status_string status, ev_ErrorCode = code, ev_ErrorDetail = detail\<rparr>"

type_synonym context_turn = "u64 option"

definition WithTurnID :: "context_turn \<Rightarrow> u64 \<Rightarrow> context_turn" where
  "WithTurnID ctx turnID = Some turnID"

definition TurnIDFromContext :: "context_turn \<Rightarrow> u64 \<times> bool" where
  "TurnIDFromContext ctx = (case ctx of None \<Rightarrow> (0, False) | Some i \<Rightarrow> (i, i \<noteq> 0))"

record CliStartResult =
  sr_hasReadyResult :: bool
  sr_hasEvents :: bool
  sr_StructuredOutput :: bool
  sr_ReadyDelay :: duration

record AdapterOptions =
  ao_CliType :: string
  ao_CliPath :: string
  ao_Model :: string
  ao_Profile :: string
  ao_ResumeSessionID :: string

section \<open>The registry\<close>

type_synonym 'a registry = "string \<rightharpoonup> (AdapterOptions \<Rightarrow> 'a)"

definition RegisterFactory :: "string \<Rightarrow> (AdapterOptions \<Rightarrow> 'a) \<Rightarrow> 'a registry \<Rightarrow> 'a registry" where
  "RegisterFactory kind factory r = r(kind \<mapsto> factory)"

definition Create :: "'a registry \<Rightarrow> AdapterOptions \<Rightarrow> 'a option" where
  "Create r opts = (case r (ao_CliType opts) of Some f \<Rightarrow> Some (f opts) | None \<Rightarrow> None)"

text \<open>\<open>ListKinds\<close> gives the kinds in no particular order.\<close>

definition ListKinds :: "'a registry \<Rightarrow> string set" where
  "ListKinds r = dom r"

section \<open>What both interactive adapters do with an input\<close>

text \<open>\<open>normalizeCodexInput\<close> and \<open>normalizeAidenInput\<close> are the same function.\<close>

definition normalizeCodexInput :: "string \<Rightarrow> string" where
  "normalizeCodexInput input =
     (let input = ReplaceAll input [CHR 0x0D, CHR 0x0A] [CHR 0x0A];
          input = ReplaceAll input [CHR 0x0D] [CHR 0x0A]
      in TrimRight input [CHR 0x0A])"

definition normalizeAidenInput :: "string \<Rightarrow> string" where
  "normalizeAidenInput input =
     (let input = ReplaceAll input [CHR 0x0D, CHR 0x0A] [CHR 0x0A];
          input = ReplaceAll input [CHR 0x0D] [CHR 0x0A]
      in TrimRight input [CHR 0x0A])"

text \<open>\<open>waitContext\<close>: \<open>ended\<close> is the error of the context when it ends before the delay is over.\<close>

definition waitContext :: "string option \<Rightarrow> duration \<Rightarrow> string option" where
  "waitContext ended delay = (if delay \<le> 0 then None else ended)"

text \<open>A replaced byte is gone: normal input holds no carriage return and does not end in a line feed.\<close>

lemma ReplaceAll_byte: "ReplaceAll s [c] [d] = map (\<lambda>x. if x = c then d else x) s"
  by (induction s) auto

lemma normal_input:
  "CHR 0x0D \<notin> set (normalizeCodexInput s)"
  "normalizeCodexInput s \<noteq> [] \<Longrightarrow> last (normalizeCodexInput s) \<noteq> CHR 0x0A"
proof -
  have "CHR 0x0D \<notin> set (ReplaceAll t [CHR 0x0D] [CHR 0x0A])" for t by (auto simp: ReplaceAll_byte)
  then show "CHR 0x0D \<notin> set (normalizeCodexInput s)"
    using set_TrimRight by (fastforce simp: normalizeCodexInput_def Let_def)
  show "normalizeCodexInput s \<noteq> [] \<Longrightarrow> last (normalizeCodexInput s) \<noteq> CHR 0x0A"
    using TrimRight_last by (fastforce simp: normalizeCodexInput_def Let_def)
qed

lemma ReplaceAll_absent: "old \<noteq> [] \<Longrightarrow> hd old \<notin> set s \<Longrightarrow> ReplaceAll s old new = s"
  by (induction s) (auto simp: prefix_def neq_Nil_conv)

lemma normal_fixed: "normalizeCodexInput (normalizeCodexInput s) = normalizeCodexInput s"
proof -
  let ?t = "normalizeCodexInput s"
  have "ReplaceAll ?t [CHR 0x0D, CHR 0x0A] [CHR 0x0A] = ?t" "ReplaceAll ?t [CHR 0x0D] [CHR 0x0A] = ?t"
    using normal_input(1) [of s] by (simp_all add: ReplaceAll_absent)
  moreover have "TrimRight ?t [CHR 0x0A] = ?t"
    using normal_input(2) [of s] by (intro TrimRight_id) auto
  ultimately show ?thesis by (subst normalizeCodexInput_def) (simp add: Let_def)
qed

lemma normalize_same: "normalizeAidenInput s = normalizeCodexInput s"
  by (simp add: normalizeAidenInput_def normalizeCodexInput_def)

end
