(* ===== verification/Worker.thy ===== *)
theory Worker
  imports Worker_Turn Tui_Screen Idle_Observer Protocol_Codec Adapter
begin

text \<open>
  The worker process (\<open>Worker\<close> in \<open>internal/worker/worker.go\<close>): it drives one command-line tool
  and speaks to the daemon over one connection at a time. Each critical section is one function;
  a goroutine's loop is given by the function for one round of it. What leaves the worker is
  recorded: \<open>w_outbox\<close> the messages written, \<open>w_closedConns\<close> the connections closed, \<open>cliCloses\<close>
  how often the adapter was closed. A connection's reader is named by the connection.
  \<open>wr\<close> is the error a write ends with, \<open>now\<close> the clock.
\<close>

definition cliOutputIdleAfter :: duration where "cliOutputIdleAfter = 15 * Second"
definition cliOutputStallAfter :: duration where "cliOutputStallAfter = 60 * Second"
definition cliOutputIdleLogEvery :: duration where "cliOutputIdleLogEvery = 15 * Second"
definition cliOutputObserveFor :: duration where "cliOutputObserveFor = 130 * Second"
definition cliOutputCheckInterval :: duration where "cliOutputCheckInterval = 5 * Second"
definition worker_readyAckPayload :: string where "worker_readyAckPayload = ''worker_ready''"
definition defaultReadyHandshakeTimeout :: duration where "defaultReadyHandshakeTimeout = 10 * Second"

record Options =
  op_SessionID :: string
  op_WorkerInstanceID :: string
  op_DaemonAddr :: string
  op_CliType :: string
  op_CliPath :: string
  op_Model :: string
  op_CodexProfile :: string
  op_ResumeSessionID :: string
  op_WorkingDir :: string
  op_StoreDir :: string

record Worker =
  w_sessionID :: string
  workerInstanceID :: string
  daemonAddr :: string
  workingDir :: string
  cliType :: string
  w_conn :: "conn option"
  w_msgReader :: "conn option"
  connected :: bool
  reconnecting :: bool
  w_closed :: bool
  w_ctxDone :: bool
  w_ready :: bool
  heartbeatInterval :: duration
  readyHandshakeTimeout :: duration
  deduper :: LineDeduper
  outputIdleObserver :: cliOutputIdleObserver
  w_turn :: WorkerTurn
  StructuredOutput :: bool
  w_outbox :: "(conn \<times> Message) list"
  w_closedConns :: "conn list"
  cliCloses :: nat

definition NewWorker :: "Options \<Rightarrow> Worker" where
  "NewWorker opts =
     \<lparr>w_sessionID = op_SessionID opts, workerInstanceID = op_WorkerInstanceID opts,
      daemonAddr = op_DaemonAddr opts, workingDir = op_WorkingDir opts, cliType = op_CliType opts,
      w_conn = None, w_msgReader = None, connected = False, reconnecting = False, w_closed = False,
      w_ctxDone = False, w_ready = False, heartbeatInterval = 5 * Second,
      readyHandshakeTimeout = defaultReadyHandshakeTimeout, deduper = NewLineDeduper 400,
      outputIdleObserver = newCLIOutputIdleObserver cliOutputIdleAfter cliOutputStallAfter
        cliOutputIdleLogEvery cliOutputObserveFor,
      w_turn = no_turn, StructuredOutput = False, w_outbox = [], w_closedConns = [], cliCloses = 0\<rparr>"

definition safeShortID :: "string \<Rightarrow> string" where
  "safeShortID s = (if length s \<le> 8 then s else take 8 s)"

definition GetEnvOrDefault :: "(string \<Rightarrow> string) \<Rightarrow> string \<Rightarrow> string \<Rightarrow> string" where
  "GetEnvOrDefault getenv key def = (if getenv key \<noteq> [] then getenv key else def)"

section \<open>The connection\<close>

definition publishConnection :: "conn \<Rightarrow> conn \<Rightarrow> Worker \<Rightarrow> Worker \<times> conn option \<times> bool" where
  "publishConnection c reader w =
     (if w_closed w \<or> w_ctxDone w then (w, None, False)
      else (w\<lparr>w_conn := Some c, w_msgReader := Some reader, connected := True\<rparr>, w_conn w, True))"

definition setConnected :: "bool \<Rightarrow> Worker \<Rightarrow> Worker" where
  "setConnected v w = w\<lparr>connected := v\<rparr>"

definition isConnected :: "Worker \<Rightarrow> bool" where
  "isConnected w = connected w"

definition worker_message :: "time \<Rightarrow> MessageType \<Rightarrow> string \<Rightarrow> Worker \<Rightarrow> Message" where
  "worker_message now typ payload w =
     (NewMessage now typ (w_sessionID w) payload)\<lparr>WorkerInstanceID := workerInstanceID w\<rparr>"

definition close_worker_conn :: "conn option \<Rightarrow> Worker \<Rightarrow> Worker" where
  "close_worker_conn c w = (case c of None \<Rightarrow> w | Some c \<Rightarrow> w\<lparr>w_closedConns := w_closedConns w @ [c]\<rparr>)"

definition sendReadyTo :: "string option \<Rightarrow> time \<Rightarrow> conn option \<Rightarrow> Worker \<Rightarrow> Worker \<times> string option" where
  "sendReadyTo wr now c w =
     (case c of
        None \<Rightarrow> (w, Some ''connection closed'')
      | Some c \<Rightarrow>
          (case wr of
             Some e \<Rightarrow> (w, Some e)
           | None \<Rightarrow> (w\<lparr>w_outbox := w_outbox w @ [(c, worker_message now MsgReady ''ready'' w)]\<rparr>, None)))"

definition sendReady :: "string option \<Rightarrow> time \<Rightarrow> Worker \<Rightarrow> Worker \<times> string option" where
  "sendReady wr now w = sendReadyTo wr now (w_conn w) w"

definition sendMessageWithConn ::
  "string option \<Rightarrow> time \<Rightarrow> MessageType \<Rightarrow> string \<Rightarrow> Worker \<Rightarrow> Worker \<times> conn option \<times> string option" where
  "sendMessageWithConn wr now typ payload w =
     (case w_conn w of
        None \<Rightarrow> (w, None, Some ''connection closed'')
      | Some c \<Rightarrow>
          (case wr of
             Some e \<Rightarrow> (w, Some c, Some e)
           | None \<Rightarrow> (w\<lparr>w_outbox := w_outbox w @ [(c, worker_message now typ payload w)]\<rparr>, Some c, None)))"

definition sendMessage :: "string option \<Rightarrow> time \<Rightarrow> MessageType \<Rightarrow> string \<Rightarrow> Worker \<Rightarrow> Worker \<times> string option" where
  "sendMessage wr now typ payload w = (case sendMessageWithConn wr now typ payload w of (w, _, e) \<Rightarrow> (w, e))"

definition sendError :: "string option \<Rightarrow> time \<Rightarrow> string \<Rightarrow> Worker \<Rightarrow> Worker" where
  "sendError wr now msg w = fst (sendMessage wr now MsgError msg w)"

definition markDisconnectedIfCurrent :: "conn option \<Rightarrow> conn option \<Rightarrow> Worker \<Rightarrow> Worker \<times> bool" where
  "markDisconnectedIfCurrent c reader w =
     (if c = None \<or> w_conn w \<noteq> c \<or> (reader \<noteq> None \<and> w_msgReader w \<noteq> reader) then (w, False)
      else (w\<lparr>connected := False\<rparr>, True))"

section \<open>Closing\<close>

text \<open>The last section of \<open>Cancel\<close> and \<open>cleanup\<close>: give up the connection, and close it.\<close>

definition drop_conn :: "Worker \<Rightarrow> Worker" where
  "drop_conn w = close_worker_conn (w_conn w) (w\<lparr>w_conn := None, w_msgReader := None, connected := False\<rparr>)"

definition Cancel :: "Worker \<Rightarrow> Worker" where
  "Cancel w =
     (if w_closed w then w
      else
        let w = w\<lparr>w_closed := True\<rparr>;
            w = w\<lparr>w_turn := cancelActiveTurn (cliType w) (w_turn w)\<rparr>;
            w = w\<lparr>w_ctxDone := True\<rparr>
        in drop_conn w)"

definition w_isClosed :: "Worker \<Rightarrow> bool" where
  "w_isClosed w = w_closed w"

definition cleanup :: "Worker \<Rightarrow> Worker" where
  "cleanup w =
     (let alreadyClosed = w_closed w;
          w = w\<lparr>w_closed := True\<rparr>;
          w = w\<lparr>w_turn := cancelActiveTurn (cliType w) (w_turn w)\<rparr>;
          w = (if \<not> alreadyClosed then w\<lparr>w_ctxDone := True\<rparr> else w);
          w = w\<lparr>cliCloses := Suc (cliCloses w)\<rparr>
      in drop_conn w)"

section \<open>The handshake\<close>

definition readyHandshakeTimeoutOrDefault :: "Worker \<Rightarrow> duration" where
  "readyHandshakeTimeoutOrDefault w =
     (if readyHandshakeTimeout w \<le> 0 then defaultReadyHandshakeTimeout else readyHandshakeTimeout w)"

text \<open>
  How a read ends: with a message, or with an error that is (or is not) of the network, as
  \<open>isTransientReadyHandshakeError\<close> finds out.
\<close>

datatype read_result = ReadMessage Message | ReadFails bool string

fun isTransientReadyHandshakeError :: "read_result \<Rightarrow> bool" where
  "isTransientReadyHandshakeError (ReadFails transient _) = transient"
| "isTransientReadyHandshakeError (ReadMessage _) = False"

datatype handshake_error = HandshakeFails string | HandshakeRejected string

definition unexpected_ack :: "(string \<Rightarrow> string) \<Rightarrow> Message \<Rightarrow> string" where
  "unexpected_ack quote msg =
     ''unexpected ready acknowledgment: type='' @ msg_Type msg @ '' session='' @ quote (msg_SessionID msg)
       @ '' payload='' @ quote (Payload msg)"

text \<open>\<open>quote\<close> is the verb \<open>%q\<close> of \<open>fmt\<close>; \<open>dl\<close> is the error of \<open>SetDeadline\<close>. The result is the reader.\<close>

definition readyHandshake ::
  "(string \<Rightarrow> string) \<Rightarrow> string option \<Rightarrow> string option \<Rightarrow> time \<Rightarrow> read_result \<Rightarrow> conn option \<Rightarrow> Worker
     \<Rightarrow> Worker \<times> (handshake_error + conn)" where
  "readyHandshake quote dl wr now rd co w =
     (case co of
        None \<Rightarrow> (w, Inl (HandshakeFails ''connection closed''))
      | Some c \<Rightarrow>
          (case dl of
             Some e \<Rightarrow> (w, Inl (HandshakeFails (''set ready handshake deadline: '' @ e)))
           | None \<Rightarrow>
               (case sendReadyTo wr now (Some c) w of
                  (w, Some e) \<Rightarrow> (w, Inl (HandshakeFails (''write ready message: '' @ e)))
                | (w, None) \<Rightarrow>
                    (case rd of
                       ReadFails transient e \<Rightarrow>
                         (w, Inl (if isTransientReadyHandshakeError rd
                                  then HandshakeFails (''read ready acknowledgment: '' @ e)
                                  else HandshakeRejected (''invalid ready acknowledgment: '' @ e)))
                     | ReadMessage msg \<Rightarrow>
                         if msg_Type msg = MsgError then (w, Inl (HandshakeRejected (Payload msg)))
                         else if msg_Type msg \<noteq> MsgAck \<or> msg_SessionID msg \<noteq> w_sessionID w
                              \<or> Payload msg \<noteq> worker_readyAckPayload
                         then (w, Inl (HandshakeRejected (unexpected_ack quote msg)))
                         else (w, Inr c)))))"

section \<open>Connecting and reconnecting\<close>

text \<open>\<open>connectToDaemon\<close>: \<open>dial k\<close> is how attempt \<open>k\<close> ends. The result lists what it slept.\<close>

fun connect_loop :: "(nat \<Rightarrow> string + conn) \<Rightarrow> nat \<Rightarrow> nat \<Rightarrow> duration \<Rightarrow> string \<Rightarrow> duration list \<times> (string + conn)" where
  "connect_loop dial k 0 backoff err = ([], Inl err)"
| "connect_loop dial k (Suc n) backoff err =
     (case dial k of
        Inr c \<Rightarrow> ([], Inr c)
      | Inl e \<Rightarrow>
          let next = 2 * backoff; next = (if 3 * Second < next then 3 * Second else next);
              (slept, r) = connect_loop dial (Suc k) n next e
          in (backoff # slept, r))"

definition connectToDaemon :: "(nat \<Rightarrow> string + conn) \<Rightarrow> Worker \<Rightarrow> duration list \<times> (string + conn)" where
  "connectToDaemon dial w =
     (case connect_loop dial 0 20 (100 * Millisecond) [] of
        (slept, Inl e) \<Rightarrow> (slept, Inl (''connect daemon '' @ daemonAddr w @ '': '' @ e))
      | r \<Rightarrow> r)"

text \<open>
  \<open>reconnectToDaemon\<close>, its loop: \<open>env\<close> is what other goroutines do while attempt \<open>k\<close> sleeps,
  dials and shakes hands.
\<close>

record attempt_world =
  aw_env :: "Worker \<Rightarrow> Worker"
  aw_dial :: "string + conn"
  aw_deadline :: "string option"
  aw_wr :: "string option"
  aw_now :: time
  aw_read :: read_result

definition reconnect_backoff :: "nat \<Rightarrow> duration" where
  "reconnect_backoff attempt =
     (if 20 < attempt then 30 * Second
      else let backoff = 2 ^ attempt * Second in (if 30 * Second < backoff then 30 * Second else backoff))"

fun reconnect_loop ::
  "(string \<Rightarrow> string) \<Rightarrow> (nat \<Rightarrow> attempt_world) \<Rightarrow> nat \<Rightarrow> nat \<Rightarrow> Worker \<Rightarrow> duration list \<times> Worker" where
  "reconnect_loop quote world k 0 w = ([], w)"
| "reconnect_loop quote world k (Suc n) w =
     (if w_isClosed w then ([], w)
      else
        let a = world k; w = aw_env a w;
            (slept, w) =
              (case aw_dial a of
                 Inl e \<Rightarrow> reconnect_loop quote world (Suc k) n w
               | Inr c \<Rightarrow>
                   (case readyHandshake quote (aw_deadline a) (aw_wr a) (aw_now a) (aw_read a) (Some c) w of
                      (w, Inl err) \<Rightarrow>
                        let w = close_worker_conn (Some c) w in
                        (case err of
                           HandshakeRejected payload \<Rightarrow> ([], cleanup w)
                         | HandshakeFails e \<Rightarrow> reconnect_loop quote world (Suc k) n w)
                    | (w, Inr reader) \<Rightarrow>
                        (case publishConnection c reader w of
                           (w, oldConn, published) \<Rightarrow>
                             if \<not> published then ([], close_worker_conn (Some c) w)
                             else ([], close_worker_conn oldConn w))))
        in (reconnect_backoff k # slept, w))"

definition reconnectToDaemon ::
  "(string \<Rightarrow> string) \<Rightarrow> (nat \<Rightarrow> attempt_world) \<Rightarrow> Worker \<Rightarrow> duration list \<times> Worker" where
  "reconnectToDaemon quote world w =
     (if reconnecting w then ([], w)
      else case reconnect_loop quote world 0 100 (w\<lparr>reconnecting := True\<rparr>) of
        (slept, w) \<Rightarrow> (slept, w\<lparr>reconnecting := False\<rparr>))"

section \<open>Turns\<close>

definition sendTurnTerminal :: "string option \<Rightarrow> time \<Rightarrow> TurnTerminal \<Rightarrow> Worker \<Rightarrow> Worker" where
  "sendTurnTerminal wr now terminal w =
     fst (sendMessage wr now MsgTurnCompleted (encode_terminal terminal) w)"

definition completeTurn :: "string option \<Rightarrow> time \<Rightarrow> u64 \<Rightarrow> TurnTerminal \<Rightarrow> Worker \<Rightarrow> Worker \<times> bool" where
  "completeTurn wr now i terminal w =
     (let (t, ok) = finishTurnWithID (cliType w) i (w_turn w); w = w\<lparr>w_turn := t\<rparr> in
      if \<not> ok then (w, False)
      else
        let w = w\<lparr>outputIdleObserver := CancelInput (outputIdleObserver w)\<rparr>
        in (sendTurnTerminal wr now terminal w, True))"

definition failCurrentTurn :: "string option \<Rightarrow> time \<Rightarrow> u64 \<Rightarrow> string \<Rightarrow> string \<Rightarrow> Worker \<Rightarrow> Worker" where
  "failCurrentTurn wr now i code err w = fst (completeTurn wr now i (failed_terminal code err) w)"

text \<open>The error state of a turn's context: cancelled itself, or with the worker's.\<close>

definition turn_ctx_err :: "Worker \<Rightarrow> turn_context \<Rightarrow> bool" where
  "turn_ctx_err w c = (case c of WorkerContext \<Rightarrow> w_ctxDone w
     | TurnContext i \<Rightarrow> w_ctxDone w \<or> i \<in> set (cancelledCtxs (w_turn w)))"

text \<open>
  The goroutine \<open>handleInput\<close>: \<open>send\<close> is how the adapter's \<open>Send\<close> ends (an error, or the
  session id it learned, possibly empty), \<open>env\<close> what others do meanwhile.
\<close>

definition handleInput ::
  "string option \<Rightarrow> time \<Rightarrow> (Worker \<Rightarrow> Worker) \<Rightarrow> string + string \<Rightarrow> u64 \<Rightarrow> Worker \<Rightarrow> Worker" where
  "handleInput wr now env send i w =
     (case turnContextForID (cliType w) (w_turn w) i of
        None \<Rightarrow> w
      | Some ctx \<Rightarrow>
          let w = env w in
          (case send of
             Inl e \<Rightarrow>
               if w_ctxDone w \<or> turn_ctx_err w ctx \<or> isTurnCancellationRequested (cliType w) (w_turn w) i then w
               else failCurrentTurn wr now i ''codex_submit_failed'' e w
           | Inr cliSessionID \<Rightarrow>
               if w_ctxDone w \<or> turn_ctx_err w ctx \<or> cliSessionID = [] then w
               else fst (sendMessage wr now MsgCliSessionBound cliSessionID w)))"

text \<open>
  The goroutine \<open>interruptTurn\<close>: \<open>interrupter\<close> says whether the adapter can interrupt, \<open>res\<close>
  is the error of doing it.
\<close>

definition interruptTurn ::
  "string option \<Rightarrow> time \<Rightarrow> (Worker \<Rightarrow> Worker) \<Rightarrow> bool \<Rightarrow> string option \<Rightarrow> u64 \<Rightarrow> Worker \<Rightarrow> Worker" where
  "interruptTurn wr now env interrupter res i w =
     (let w =
        (if \<not> shouldInterruptTurn (cliType w) (w_turn w) i then w
         else if \<not> interrupter
           then failCurrentTurn wr now i ''codex_cancel_failed'' ''adapter does not support turn interruption'' w
         else
           let w = env w in
           (case res of
              None \<Rightarrow> w
            | Some e \<Rightarrow> if w_ctxDone w then w else failCurrentTurn wr now i ''codex_cancel_failed'' e w))
      in w\<lparr>w_turn := finishTurnInterrupt (cliType w) i (w_turn w)\<rparr>)"

section \<open>Messages of the daemon\<close>

datatype goroutine = HandleInput u64 string | InterruptTurn u64

text \<open>
  One message in \<open>readDaemonMessages\<close>: the state, the goroutine started, and whether the loop
  returns (then \<open>Cancel\<close> runs, deferred). \<open>waited\<close> says that the wait for readiness ended by it
  and not by the worker's context.
\<close>

definition handle_daemon_message ::
  "string option \<Rightarrow> time \<Rightarrow> bool \<Rightarrow> Message \<Rightarrow> Worker \<Rightarrow> Worker \<times> goroutine option \<times> bool" where
  "handle_daemon_message wr now waited msg w =
     (let typ = msg_Type msg in
      if typ = MsgUserInput \<or> typ = MsgNewSession then
        if \<not> waited then (Cancel w, None, True)
        else
          let w = w\<lparr>deduper := Reset (deduper w)\<rparr>;
              (t, i, ok) = beginTurnWithID (cliType w) (w_turn w);
              w = w\<lparr>w_turn := t\<rparr>
          in if \<not> ok then (sendError wr now ''codex_turn_in_progress'' w, None, False)
             else (w\<lparr>outputIdleObserver := BeginInput now (outputIdleObserver w)\<rparr>,
                   Some (HandleInput i (Payload msg)), False)
      else if typ = MsgCancelTurn then
        let (t, i, ok) = requestTurnInterrupt (cliType w) (w_turn w) in
        (w\<lparr>w_turn := t\<rparr>, if ok then Some (InterruptTurn i) else None, False)
      else if typ = MsgRestartWorker \<or> typ = MsgClose then (Cancel (cleanup w), None, True)
      else (w, None, False))"

text \<open>A failed read: whether the loop goes on, and whether it starts reconnecting.\<close>

definition handle_read_error :: "conn option \<Rightarrow> conn option \<Rightarrow> Worker \<Rightarrow> Worker \<times> bool \<times> bool" where
  "handle_read_error c reader w =
     (if w_ctxDone w then (Cancel w, False, False)
      else case markDisconnectedIfCurrent c reader w of (w, current) \<Rightarrow> (w, True, current))"

text \<open>
  One round of \<open>readDaemonMessages\<close>: \<open>rd\<close> is how the read ends, \<open>env\<close> what others do while it
  blocks. The result: the state, the goroutine started, whether a reconnection is started, and
  whether the loop goes on.
\<close>

definition readDaemonMessages ::
  "string option \<Rightarrow> time \<Rightarrow> bool \<Rightarrow> (Worker \<Rightarrow> Worker) \<Rightarrow> read_result \<Rightarrow> Worker
     \<Rightarrow> Worker \<times> goroutine option \<times> bool \<times> bool" where
  "readDaemonMessages wr now waited env rd w =
     (if w_ctxDone w then (Cancel w, None, False, False)
      else if w_msgReader w = None then (w, None, False, True)
      else
        let c = w_conn w; reader = w_msgReader w; w = env w in
        (case rd of
           ReadFails _ _ \<Rightarrow>
             (case handle_read_error c reader w of (w, go_on, reconnect) \<Rightarrow> (w, None, reconnect, go_on))
         | ReadMessage msg \<Rightarrow>
             (case handle_daemon_message wr now waited msg w of (w, g, returns) \<Rightarrow> (w, g, False, \<not> returns))))"

section \<open>Output of the tool\<close>

definition after_last_cr :: "string \<Rightarrow> string" where
  "after_last_cr s = rev (takeWhile (\<lambda>c. c \<noteq> CHR 0x0D) (rev s))"

text \<open>From the bytes read up to a line feed to the line that is sent (lines 576 to 586).\<close>

definition clean_cli_line :: "string \<Rightarrow> string" where
  "clean_cli_line data =
     (let rawLine = TrimRight data [CHR 0x0D, CHR 0x0A];
          clean = (if CHR 0x0D \<in> set rawLine then after_last_cr rawLine else rawLine);
          clean = TrimRight clean [CHR 0x0D];
          clean = stripAnsi clean
      in TrimSpace clean)"

definition handle_cli_line :: "string option \<Rightarrow> time \<Rightarrow> string \<Rightarrow> Worker \<Rightarrow> Worker" where
  "handle_cli_line wr now data w =
     (let w = w\<lparr>outputIdleObserver := MarkOutput now (outputIdleObserver w)\<rparr>;
          clean = clean_cli_line data
      in if clean \<noteq> [] \<and> \<not> StructuredOutput w \<and> w_ready w then
           let (dd, out) = Check (deduper w) clean; w = w\<lparr>deduper := dd\<rparr>
           in if out \<noteq> [] then fst (sendMessage wr now MsgOutput out w) else w
         else w)"

text \<open>
  One round of \<open>readCliOutput\<close>: what the \<open>select\<close> receives. The result: the state, whether the
  adapter is told of output (\<open>NotifyOutput\<close>, when it wants to be), and whether the loop goes on;
  when it ends, the deferred \<open>Cancel\<close> runs. A read that ends with an error drops what it read.
\<close>

datatype cli_event = CliContextDone | CliEnds "string option" | IdleTick time | CliRead string "string option"

definition readCliOutput :: "string option \<Rightarrow> time \<Rightarrow> bool \<Rightarrow> cli_event \<Rightarrow> Worker \<Rightarrow> Worker \<times> bool \<times> bool" where
  "readCliOutput wr now observes ev w =
     (case ev of
        CliContextDone \<Rightarrow> (Cancel w, False, False)
      | CliEnds _ \<Rightarrow> (Cancel w, False, False)
      | IdleTick t \<Rightarrow> (w\<lparr>outputIdleObserver := fst (Diagnostic t (outputIdleObserver w))\<rparr>, False, True)
      | CliRead data (Some _) \<Rightarrow> (Cancel w, False, False)
      | CliRead data None \<Rightarrow> (handle_cli_line wr now data w, observes, True))"

section \<open>Events of the adapter\<close>

text \<open>One event in \<open>readAdapterEvents\<close>; \<open>env\<close> runs between the turn check and the rest.\<close>

definition handle_adapter_event ::
  "string option \<Rightarrow> time \<Rightarrow> (Worker \<Rightarrow> Worker) \<Rightarrow> AdapterEvent \<Rightarrow> Worker \<Rightarrow> Worker" where
  "handle_adapter_event wr now env ev w =
     (if cliType w = ''codex'' \<and>
         (ev_TurnID ev = 0 \<or> turnContextForID (cliType w) (w_turn w) (ev_TurnID ev) = None) then w
      else
        let w = env w in
        (case ev_Kind ev of
           AdapterOutput \<Rightarrow>
             if ev_Output ev = [] then w
             else
               let w = w\<lparr>outputIdleObserver := MarkOutput now (outputIdleObserver w)\<rparr>
               in fst (sendMessage wr now MsgOutput (ev_Output ev) w)
         | AdapterTurnTerminal \<Rightarrow>
             let i = (if cliType w = ''codex'' then ev_TurnID ev else 0) in
             fst (completeTurn wr now i
               \<lparr>tt_Status = ev_Status ev, ErrorCode = ev_ErrorCode ev, ErrorDetail = ev_ErrorDetail ev\<rparr> w)))"

text \<open>One round of \<open>readAdapterEvents\<close>: the context ends, the channel is closed, or an event comes.\<close>

datatype event_receive = EventsContextDone | EventsClosed | EventReceived AdapterEvent

definition readAdapterEvents ::
  "string option \<Rightarrow> time \<Rightarrow> (Worker \<Rightarrow> Worker) \<Rightarrow> event_receive \<Rightarrow> Worker \<Rightarrow> Worker \<times> bool" where
  "readAdapterEvents wr now env r w =
     (case r of
        EventReceived ev \<Rightarrow> (handle_adapter_event wr now env ev w, True)
      | _ \<Rightarrow> (w, False))"

section \<open>Heartbeats\<close>

text \<open>One tick of \<open>sendHeartbeats\<close>: whether a reconnection is started.\<close>

definition heartbeat_tick :: "string option \<Rightarrow> time \<Rightarrow> Worker \<Rightarrow> Worker \<times> bool" where
  "heartbeat_tick wr now w =
     (case sendMessageWithConn wr now MsgHeartbeat [] w of
        (w, c, err) \<Rightarrow> if err \<noteq> None then markDisconnectedIfCurrent c None w else (w, False))"

section \<open>Start-up\<close>

text \<open>How the wait for the tool's readiness ends, by what the adapter offers to wait for.\<close>

datatype ready_wait = ReadyReported "string option" | ReadyTimeout | ContextDone string
  | DelayOver | ToolExited "string option"

definition waitForCLIReady :: "CliStartResult option \<Rightarrow> ready_wait \<Rightarrow> string option" where
  "waitForCLIReady startResult ev =
     (case startResult of
        None \<Rightarrow> Some ''cli start result missing''
      | Some r \<Rightarrow>
      if sr_hasReadyResult r then
        (case ev of
           ReadyReported None \<Rightarrow> None
         | ReadyReported (Some e) \<Rightarrow> Some (''cli readiness failed: '' @ e)
         | ContextDone e \<Rightarrow> Some e
         | _ \<Rightarrow> Some ''cli ready timeout'')
      else if sr_ReadyDelay r \<le> 0 then None
      else
        (case ev of
           ContextDone e \<Rightarrow> Some e
         | ToolExited (Some e) \<Rightarrow> Some (''cli exited during ready wait: '' @ e)
         | ToolExited None \<Rightarrow> Some ''cli exited during ready wait''
         | _ \<Rightarrow> None))"

text \<open>
  \<open>Run\<close>, up to the start of its goroutines. \<open>conn\<close> is the result of \<open>connectToDaemon\<close>,
  \<open>start\<close> the result of the adapter's \<open>Start\<close>, \<open>ev\<close> how the wait for the tool ends, and the
  handshake's inputs follow.
\<close>

definition Run ::
  "(string \<Rightarrow> string) \<Rightarrow> bool \<Rightarrow> string + conn \<Rightarrow> string + CliStartResult \<Rightarrow> ready_wait \<Rightarrow> attempt_world \<Rightarrow> Worker
     \<Rightarrow> Worker \<times> string option" where
  "Run quote hasAdapter conn start ev a w =
     (if \<not> hasAdapter then (w, Some ''no adapter registered for cli_type'')
      else case conn of
        Inl e \<Rightarrow> (w, Some e)
      | Inr c \<Rightarrow>
          let fail = (\<lambda>e w. (cleanup (close_worker_conn (Some c) w), Some e)) in
          (case start of
             Inl e \<Rightarrow> fail (''start cli: '' @ e) w
           | Inr result \<Rightarrow>
               let w = aw_env a (w\<lparr>StructuredOutput := sr_StructuredOutput result\<rparr>) in
               (case waitForCLIReady (Some result) ev of
                  Some e \<Rightarrow> fail e w
                | None \<Rightarrow>
                    (case readyHandshake quote (aw_deadline a) (aw_wr a) (aw_now a) (aw_read a) (Some c) w of
                       (w, Inl (HandshakeFails e)) \<Rightarrow> fail e w
                     | (w, Inl (HandshakeRejected p)) \<Rightarrow> fail (''worker ready rejected: '' @ p) w
                     | (w, Inr reader) \<Rightarrow>
                         (case publishConnection c reader w of
                            (w, old, published) \<Rightarrow>
                              if \<not> published then
                                fail (if w_ctxDone w then ''context canceled''
                                      else ''worker closed before publishing daemon connection'')
                                  (close_worker_conn (Some c) w)
                              else ((close_worker_conn old w)\<lparr>w_ready := True\<rparr>, None))))))"

end
