(* ===== verification/Worker_Safety.thy ===== *)
theory Worker_Safety
  imports Worker Daemon_Service
begin

text \<open>
  What holds of the worker: it and the daemon agree on the handshake; a worker that has closed
  says nothing more; events of a finished turn are dropped; reconnecting is bounded; and what it
  sends as output is plain text, one line per message.
\<close>

section \<open>The handshake, from both ends\<close>

lemma coerce_ascii: "\<forall>c\<in>set s. byte c < 0x80 \<Longrightarrow> coerce_utf8 s = s"
  by (intro coerce_valid ValidString_ascii)

lemma coerce_types [simp]:
  "coerce_utf8 MsgAck = MsgAck" "coerce_utf8 MsgError = MsgError" "coerce_utf8 workerReadyAckPayload = workerReadyAckPayload"
  by (rule coerce_ascii, simp add: MsgAck_def MsgError_def workerReadyAckPayload_def byte_def)+

lemma coerce_new_message:
  "coerce_message (NewMessage now typ sid p) =
     NewMessage now (coerce_utf8 typ) (coerce_utf8 sid) (coerce_utf8 p)"
  by (simp add: coerce_message_def NewMessage_def coerce_ascii)

lemma admit_worker_rejected:
  assumes "snd (admit_worker now wr c msg d) = Rejected"
  shows "\<exists>reason. fst (admit_worker now wr c msg d) = write_conn c (NewMessage now MsgError (msg_SessionID msg) reason) d"
proof (cases "sessions d (msg_SessionID msg) = None \<or> workers d (msg_SessionID msg) = None")
  case True
  then show ?thesis
    by (cases "sessions d (msg_SessionID msg)"; cases "workers d (msg_SessionID msg)")
      (auto simp: admit_worker_def)
next
  case False
  then obtain m h where mh: "sessions d (msg_SessionID msg) = Some m" "workers d (msg_SessionID msg) = Some h" by auto
  let ?A = "Closed (metas d m) \<or> \<not> isCurrentSessionLocked d m \<or> workerOwners d h \<noteq> Some m"
  let ?B = "WorkerInstanceID msg \<noteq> InstanceID (handles d h)"
  consider "?A" | "\<not> ?A" "?B" | "\<not> ?A" "\<not> ?B" by blast
  then show ?thesis
  proof cases
    case 3
    then have "snd (admit_worker now wr c msg d) \<noteq> Rejected"
      using mh by (cases wr) (simp_all add: admit_worker_def SetConn_def Let_def)
    with assms show ?thesis by simp
  qed (use mh in \<open>auto simp: admit_worker_def\<close>)
qed

lemma admit_rejected:
  assumes "snd (admit now wr c (Some msg) d) = Rejected"
  shows "\<exists>reason. outbox (fst (admit now wr c (Some msg) d)) = outbox d @ [(c, NewMessage now MsgError (msg_SessionID msg) reason)]"
proof (cases "msg_Type msg \<noteq> MsgReady \<or> WorkerInstanceID msg = []")
  case True
  with assms show ?thesis by (auto simp: admit_def write_conn_def split: if_splits)
next
  case False
  then have "admit now wr c (Some msg) d = admit_worker now wr c msg d" by (simp add: admit_def)
  with assms admit_worker_rejected [of now wr c msg d] show ?thesis by (auto simp: write_conn_def)
qed

text \<open>
  C9: daemon and worker agree on the handshake. When the daemon admits the READY of a worker, the
  bytes it wrote, read back by the worker's reader, make \<open>readyHandshake\<close> succeed on that
  connection; when the daemon rejects it, the worker takes the answer as a rejection (so it gives
  up, instead of trying again). Session ids are valid UTF-8, and the clock is in range.
\<close>

theorem handshake_agrees:
  assumes "ValidString (w_sessionID w)" and "int64_range now"
    and "ready = worker_message t MsgReady ''ready'' w" and "admit now None c (Some ready) d = (d', r)"
  shows "(\<forall>m h. r = WorkerConn m h \<longrightarrow>
      (\<exists>msg. outbox d' = outbox d @ [(c, msg)] \<and>
         (\<forall>rest. \<exists>got. Read (Encode msg @ rest) = Some (Some got, rest) \<and>
            snd (readyHandshake quote None None t (ReadMessage got) (Some c) w) = Inr c)))
    \<and> (r = Rejected \<longrightarrow>
      (\<exists>msg. outbox d' = outbox d @ [(c, msg)] \<and>
         (\<forall>rest. \<exists>got. Read (Encode msg @ rest) = Some (Some got, rest) \<and>
            (\<exists>p. snd (readyHandshake quote None None t (ReadMessage got) (Some c) w) = Inl (HandshakeRejected p)))))"
proof -
  have sid: "msg_SessionID ready = w_sessionID w" by (simp add: assms(3) worker_message_def NewMessage_def)
  have rng: "int64_range (Timestamp (NewMessage now ty s p))" for ty s p
    using assms(2) by (simp add: NewMessage_def)
  have wire: "Read (Encode (NewMessage now ty s p) @ rest)
      = Some (Some (NewMessage now (coerce_utf8 ty) (coerce_utf8 s) (coerce_utf8 p)), rest)" for ty s p rest
    using Read_Encode [OF rng, of ty s p rest] by (simp add: coerce_new_message)
  have cs: "coerce_utf8 (w_sessionID w) = w_sessionID w" using assms(1) by (rule coerce_valid)
  have ok: "snd (readyHandshake quote None None t (ReadMessage (NewMessage now MsgAck (w_sessionID w) workerReadyAckPayload)) (Some c) w) = Inr c"
    by (simp add: readyHandshake_def sendReadyTo_def NewMessage_def MsgAck_def MsgError_def
        workerReadyAckPayload_def worker_readyAckPayload_def)
  have rej: "snd (readyHandshake quote None None t (ReadMessage (NewMessage now MsgError s p)) (Some c) w)
      = Inl (HandshakeRejected p)" for s p
    by (simp add: readyHandshake_def sendReadyTo_def NewMessage_def)
  have "\<exists>msg. outbox d' = outbox d @ [(c, msg)] \<and> (\<forall>rest. \<exists>got. Read (Encode msg @ rest) = Some (Some got, rest) \<and>
      snd (readyHandshake quote None None t (ReadMessage got) (Some c) w) = Inr c)" if "r = WorkerConn m h" for m h
  proof (intro exI conjI allI)
    have a: "snd (admit now None c (Some ready) d) = WorkerConn m h" using that assms(4) by simp
    then have "admit now None c (Some ready) d = admit_worker now None c ready d"
      by (simp add: admit_def split: if_splits)
    with a admit_worker_effect(2) [of now None c ready d m h] assms(4) sid
    show "outbox d' = outbox d @ [(c, NewMessage now MsgAck (w_sessionID w) workerReadyAckPayload)]" by simp
  qed (use wire ok cs in auto)
  moreover have "\<exists>msg. outbox d' = outbox d @ [(c, msg)] \<and> (\<forall>rest. \<exists>got. Read (Encode msg @ rest) = Some (Some got, rest) \<and>
      (\<exists>p. snd (readyHandshake quote None None t (ReadMessage got) (Some c) w) = Inl (HandshakeRejected p)))" if "r = Rejected"
  proof -
    have "snd (admit now None c (Some ready) d) = Rejected" using that assms(4) by simp
    from admit_rejected [OF this] obtain reason where "outbox d' = outbox d @ [(c, NewMessage now MsgError (w_sessionID w) reason)]"
      using assms(4) sid by auto
    then show ?thesis using wire rej cs by (intro exI conjI) auto
  qed
  ultimately show ?thesis by blast
qed

text \<open>The worker of the sample session.\<close>

definition sample_worker :: Worker where
  "sample_worker = NewWorker \<lparr>op_SessionID = ''s'', op_WorkerInstanceID = hex_encode (replicate 16 (CHR ''a'')),
     op_DaemonAddr = ''127.0.0.1:17890'', op_CliType = ''codex'', op_CliPath = [], op_Model = [], op_CodexProfile = [],
     op_ResumeSessionID = [], op_WorkingDir = [], op_StoreDir = []\<rparr>"

theorem handshake_agrees_witness:
  "\<exists>msg got. outbox (fst (admit 9 None 3 (Some (worker_message 8 MsgReady ''ready'' sample_worker)) sample_state)) = outbox sample_state @ [(3, msg)]
     \<and> Read (Encode msg) = Some (Some got, []) \<and> snd (readyHandshake id None None 8 (ReadMessage got) (Some 3) sample_worker) = Inr 3"
proof -
  let ?a = "admit 9 None 3 (Some (worker_message 8 MsgReady ''ready'' sample_worker)) sample_state"
  have v: "ValidString (w_sessionID sample_worker)" by (rule ValidString_ascii) (simp add: sample_worker_def NewWorker_def byte_def)
  have r: "snd ?a = WorkerConn 0 0" by code_simp
  have e: "?a = (fst ?a, snd ?a)" by simp
  have i: "int64_range 9" by (simp add: int64_range_def)
  obtain msg where m: "outbox (fst ?a) = outbox sample_state @ [(3, msg)]"
    and g: "\<forall>rest. \<exists>got. Read (Encode msg @ rest) = Some (Some got, rest) \<and>
       snd (readyHandshake id None None 8 (ReadMessage got) (Some 3) sample_worker) = Inr 3"
    using handshake_agrees [OF v i refl e, of id] r by blast
  from g [THEN spec, of "[]"] m show ?thesis by auto
qed

section \<open>Runs of the worker\<close>

text \<open>The critical sections of the worker's goroutines, as actions; a run is any sequence of them.\<close>

datatype worker_act =
    WPublish conn conn
  | WReadyTo "string option" time conn
  | WSend "string option" time MessageType string
  | WDisconnect "conn option" "conn option"
  | WBegin
  | WRequest
  | WFinish u64
  | WFinishInterrupt u64
  | WCancelTurn
  | WMarkClosed
  | WCancelContext
  | WCloseCli
  | WDropConn
  | WCloseConn conn
  | WReset
  | WCheck string
  | WObserve "cliOutputIdleObserver \<Rightarrow> cliOutputIdleObserver"
  | WReady
  | WStructured bool
  | WReconnecting bool

fun wexec :: "Worker \<Rightarrow> worker_act \<Rightarrow> Worker" where
  "wexec w (WPublish c reader) = fst (publishConnection c reader w)"
| "wexec w (WReadyTo wr now c) = fst (sendReadyTo wr now (Some c) w)"
| "wexec w (WSend wr now ty payload) = fst (sendMessage wr now ty payload w)"
| "wexec w (WDisconnect c reader) = fst (markDisconnectedIfCurrent c reader w)"
| "wexec w WBegin = w\<lparr>w_turn := fst (beginTurnWithID (cliType w) (w_turn w))\<rparr>"
| "wexec w WRequest = w\<lparr>w_turn := fst (requestTurnInterrupt (cliType w) (w_turn w))\<rparr>"
| "wexec w (WFinish i) = w\<lparr>w_turn := fst (finishTurnWithID (cliType w) i (w_turn w))\<rparr>"
| "wexec w (WFinishInterrupt i) = w\<lparr>w_turn := finishTurnInterrupt (cliType w) i (w_turn w)\<rparr>"
| "wexec w WCancelTurn = w\<lparr>w_turn := cancelActiveTurn (cliType w) (w_turn w)\<rparr>"
| "wexec w WMarkClosed = w\<lparr>w_closed := True\<rparr>"
| "wexec w WCancelContext = w\<lparr>w_ctxDone := True\<rparr>"
| "wexec w WCloseCli = w\<lparr>cliCloses := Suc (cliCloses w)\<rparr>"
| "wexec w WDropConn = drop_conn w"
| "wexec w (WCloseConn c) = close_worker_conn (Some c) w"
| "wexec w WReset = w\<lparr>deduper := Reset (deduper w)\<rparr>"
| "wexec w (WCheck raw) = w\<lparr>deduper := fst (Check (deduper w) raw)\<rparr>"
| "wexec w (WObserve f) = w\<lparr>outputIdleObserver := f (outputIdleObserver w)\<rparr>"
| "wexec w WReady = w\<lparr>w_ready := True\<rparr>"
| "wexec w (WStructured b) = w\<lparr>StructuredOutput := b\<rparr>"
| "wexec w (WReconnecting b) = w\<lparr>reconnecting := b\<rparr>"

lemmas worker_send_defs = sendReadyTo_def sendMessage_def sendMessageWithConn_def worker_message_def NewMessage_def

text \<open>A closed worker without a connection keeps both; only a handshake under way can still write, its READY.\<close>

definition silent_as :: "(conn \<times> Message) list \<Rightarrow> Worker \<Rightarrow> bool" where
  "silent_as said w \<longleftrightarrow> w_closed w \<and> w_conn w = None \<and> filter (\<lambda>(c, m). msg_Type m \<noteq> MsgReady) (w_outbox w) = said"

interpretation silent: machine wexec "silent_as said" for said
proof
  fix w act
  assume "silent_as said w"
  then show "silent_as said (wexec w act)"
    by (cases act) (simp_all add: silent_as_def publishConnection_def worker_send_defs markDisconnectedIfCurrent_def
        drop_conn_def close_worker_conn_def split: option.split)
qed

text \<open>
  A worker that has closed says nothing more. From the moment it is closed and has given up its
  connection (the end of \<open>Cancel\<close> and of \<open>cleanup\<close>), whatever its goroutines still do, it never
  has a connection again and writes no message; only a reconnection caught in its handshake may
  still write its READY to the connection it is about to close.
\<close>

lemma closed_worker_silent:
  assumes "w' = foldl wexec (Cancel w) acts \<or> w' = foldl wexec (cleanup w) acts" and "\<not> w_closed w"
  shows "w_closed w' \<and> w_conn w' = None
    \<and> filter (\<lambda>(c, m). msg_Type m \<noteq> MsgReady) (w_outbox w') = filter (\<lambda>(c, m). msg_Type m \<noteq> MsgReady) (w_outbox w)"
proof -
  let ?said = "filter (\<lambda>(c, m). msg_Type m \<noteq> MsgReady) (w_outbox w)"
  have "silent_as ?said (Cancel w)" "silent_as ?said (cleanup w)"
    using assms(2)
    by (simp_all add: silent_as_def Cancel_def cleanup_def drop_conn_def close_worker_conn_def Let_def split: option.split)
  then have "silent_as ?said w'" using silent.inv_run assms(1) by blast
  then show ?thesis by (simp add: silent_as_def)
qed

lemma closed_worker_silent_witness:
  "w_conn (foldl wexec (cleanup (fst (publishConnection 3 3 sample_worker))) [WPublish 4 4, WSend None 1 MsgOutput ''x'']) = None"
proof -
  have "\<not> w_closed (fst (publishConnection 3 3 sample_worker))"
    by (simp add: publishConnection_def sample_worker_def NewWorker_def)
  from closed_worker_silent [OF disjI2 [OF refl] this] show ?thesis by blast
qed

section \<open>Events of a finished turn\<close>

definition turn_past :: "u64 \<Rightarrow> nat \<Rightarrow> WorkerTurn \<Rightarrow> bool" where
  "turn_past i n t \<longleftrightarrow> (\<exists>k \<le> n. turnID t = i + of_nat k \<and> (k = 0 \<longrightarrow> \<not> turnInFlight t))"

lemma turn_past_same:
  assumes "turn_past i n t" and "n < 2 ^ 64"
  shows "\<not> (turnInFlight t \<and> turnID t = i)"
proof
  assume a: "turnInFlight t \<and> turnID t = i"
  from assms(1) obtain k where k: "k \<le> n" "turnID t = i + of_nat k" "k = 0 \<longrightarrow> \<not> turnInFlight t"
    by (auto simp: turn_past_def)
  have "k < 2 ^ 64" using k(1) assms(2) by simp
  then have "unat (of_nat k :: u64) = k" by (rule unat_of_nat_small)
  with a k(2) have "k = 0" by simp
  with k(3) a show False by simp
qed

lemma turn_past_step: "turn_past i n (w_turn w) \<Longrightarrow> turn_past i (Suc n) (w_turn (wexec w act))"
proof -
  assume "turn_past i n (w_turn w)"
  then obtain k where k: "k \<le> n" "turnID (w_turn w) = i + of_nat k" "k = 0 \<longrightarrow> \<not> turnInFlight (w_turn w)"
    by (auto simp: turn_past_def)
  have "turnID (w_turn (wexec w act)) = turnID (w_turn w) + 1
      \<or> turnID (w_turn (wexec w act)) = turnID (w_turn w) \<and> (turnInFlight (w_turn (wexec w act)) \<longrightarrow> turnInFlight (w_turn w))"
    by (cases act) (auto simp: publishConnection_def worker_send_defs markDisconnectedIfCurrent_def
      drop_conn_def close_worker_conn_def beginTurnWithID_def requestTurnInterrupt_def finishTurnInterrupt_def
      finishTurnWithID_def cancelActiveTurn_def cancelTurnLocked_def Let_def split: option.split)
  then show ?thesis
  proof
    assume "turnID (w_turn (wexec w act)) = turnID (w_turn w) + 1"
    with k show ?thesis unfolding turn_past_def by (intro exI [of _ "Suc k"]) (simp add: add_ac)
  next
    assume "turnID (w_turn (wexec w act)) = turnID (w_turn w)
      \<and> (turnInFlight (w_turn (wexec w act)) \<longrightarrow> turnInFlight (w_turn w))"
    with k show ?thesis unfolding turn_past_def by (intro exI [of _ k]) auto
  qed
qed

lemma turn_past_run: "turn_past i n (w_turn w) \<Longrightarrow> turn_past i (n + length acts) (w_turn (foldl wexec w acts))"
proof (induction acts arbitrary: w n)
  case (Cons act acts)
  from Cons.IH [OF turn_past_step [OF Cons.prems]] show ?case by simp
qed simp

lemma wexec_cliType [simp]: "cliType (foldl wexec w acts) = cliType w"
proof (induction acts arbitrary: w)
  case (Cons act acts)
  have "cliType (wexec w act) = cliType w"
    by (cases act) (simp_all add: publishConnection_def worker_send_defs markDisconnectedIfCurrent_def
      drop_conn_def close_worker_conn_def split: option.split)
  with Cons show ?case by simp
qed simp

text \<open>
  C10: a turn of a Codex worker ends once. When \<open>completeTurn\<close> has ended turn \<open>i\<close>, then after any
  further run of the worker (fewer than \<open>2 ^ 64\<close> actions) a second end of that turn is refused,
  and an event that still carries its id, output or terminal, is dropped: nothing is sent for it
  and nothing changes.
\<close>

theorem late_events_dropped:
  assumes "cliType w = ''codex''" and "completeTurn wr0 now0 i term w = (w1, True)" and "i \<noteq> 0"
    and "w' = foldl wexec w1 acts" and "length acts < 2 ^ 64" and "ev_TurnID ev = i"
  shows "handle_adapter_event wr now env ev w' = w' \<and> completeTurn wr now i term' w' = (w', False)
    \<and> handleInput wr now env send i w' = w'"
proof -
  have fin: "snd (finishTurnWithID ''codex'' i (w_turn w))"
    and t1: "w_turn w1 = fst (finishTurnWithID ''codex'' i (w_turn w)) \<and> cliType w1 = ''codex''"
    using assms(1,2)
    by (auto simp: completeTurn_def Let_def case_prod_unfold sendTurnTerminal_def worker_send_defs split: if_splits option.splits)
  have "turnID (w_turn w) = i" using fin assms(3) by (auto simp: finishTurnWithID_def split: if_splits)
  with fin t1 have "turn_past i 0 (w_turn w1)"
    by (auto simp: turn_past_def finishTurnWithID_def cancelTurnLocked_def split: if_splits)
  from turn_past_run [OF this, of acts] have "turn_past i (length acts) (w_turn w')" using assms(4) by simp
  from turn_past_same [OF this assms(5)] have over: "\<not> (turnInFlight (w_turn w') \<and> turnID (w_turn w') = i)" .
  have ty: "cliType w' = ''codex''" using t1 assms(4) by simp
  have ctx: "turnContextForID (cliType w') (w_turn w') i = None" using over ty by (auto simp: turnContextForID_def)
  have "finishTurnWithID ''codex'' i (w_turn w') = (w_turn w', False)"
    using over assms(3) by (auto simp: finishTurnWithID_def)
  then have "completeTurn wr now i term' w' = (w', False)" using ty by (simp add: completeTurn_def)
  with ctx ty assms(6) show ?thesis by (simp add: handle_adapter_event_def handleInput_def)
qed

definition running_worker :: Worker where
  "running_worker = wexec (fst (publishConnection 3 3 sample_worker)) WBegin"

theorem late_events_dropped_witness:
  "handle_adapter_event None 9 id \<lparr>ev_TurnID = 1, ev_Kind = AdapterOutput, ev_Output = ''late'', ev_Status = [],
       ev_ErrorCode = [], ev_ErrorDetail = []\<rparr> (wexec (fst (completeTurn None 5 1 (failed_terminal [] []) running_worker)) WBegin)
     = wexec (fst (completeTurn None 5 1 (failed_terminal [] []) running_worker)) WBegin"
proof -
  let ?r = "completeTurn None 5 1 (failed_terminal [] []) running_worker"
  have ty: "cliType running_worker = ''codex''"
    by (simp add: running_worker_def sample_worker_def NewWorker_def publishConnection_def)
  have "snd (finishTurnWithID ''codex'' 1 (w_turn running_worker))"
    by (simp add: running_worker_def sample_worker_def NewWorker_def publishConnection_def beginTurnWithID_def
        no_turn_def finishTurnWithID_def Let_def)
  then have "snd ?r" using ty by (simp add: completeTurn_def case_prod_unfold Let_def)
  then have e: "?r = (fst ?r, True)" by (simp add: prod_eq_iff)
  show ?thesis
    by (rule late_events_dropped [where acts = "[WBegin]" and i = 1, OF ty e, THEN conjunct1]) simp_all
qed

section \<open>Reconnecting is bounded\<close>

lemma reconnect_backoff_le: "0 < reconnect_backoff k \<and> reconnect_backoff k \<le> 30 * Second"
  by (simp add: reconnect_backoff_def Let_def Second_def)

lemma reconnect_loop_slept:
  "\<exists>m \<le> n. fst (reconnect_loop quote world k n w) = map reconnect_backoff [k..<k + m]"
proof (induction n arbitrary: k w)
  case (Suc n)
  have more: "\<exists>m \<le> Suc n. reconnect_backoff k # fst (reconnect_loop quote world (Suc k) n v) = map reconnect_backoff [k..<k + m]" for v
  proof -
    obtain m where "m \<le> n" "fst (reconnect_loop quote world (Suc k) n v) = map reconnect_backoff [Suc k..<Suc k + m]"
      using Suc.IH by blast
    moreover have "[k..<k + Suc m] = k # [Suc k..<Suc k + m]" by (simp add: upt_conv_Cons del: upt_Suc)
    ultimately show ?thesis by (intro exI [of _ "Suc m"]) (simp del: upt_Suc)
  qed
  have one: "\<exists>m \<le> Suc n. [reconnect_backoff k] = map reconnect_backoff [k..<k + m]"
    by (intro exI [of _ 1]) (simp add: upt_conv_Cons)
  have none: "\<exists>m \<le> Suc n. [] = map reconnect_backoff [k..<k + m]" by (intro exI [of _ 0]) simp
  show ?case
    unfolding reconnect_loop.simps Let_def case_prod_unfold
    using more one none
    by (simp split: sum.split handshake_error.split)
qed (intro exI [of _ 0], simp)

text \<open>
  A disconnected worker gives up in bounded time: whatever dialling and the handshakes do, one
  reconnection sleeps the first \<open>n \<le> 100\<close> of the waits 1, 2, 4, 8, 16, 30, 30, \<dots> seconds, in
  this order, and in all at most 3000 seconds.
\<close>

lemma reconnect_bounded:
  "\<exists>n \<le> 100. fst (reconnectToDaemon quote world w) = map reconnect_backoff [0..<n]
     \<and> sum_list (fst (reconnectToDaemon quote world w)) \<le> 3000 * Second"
proof -
  have le: "sum_list (map reconnect_backoff ks) \<le> int (length ks) * (30 * Second)" for ks
  proof (induction ks)
    case (Cons k ks)
    with reconnect_backoff_le [of k] show ?case by (simp add: Second_def)
  qed simp
  obtain n where n: "n \<le> 100" "fst (reconnectToDaemon quote world w) = map reconnect_backoff [0..<n]"
  proof (cases "reconnecting w")
    case True
    then show thesis using that [of 0] by (simp add: reconnectToDaemon_def)
  next
    case False
    obtain m where "m \<le> 100" "fst (reconnect_loop quote world 0 100 (w\<lparr>reconnecting := True\<rparr>)) = map reconnect_backoff [0..<0 + m]"
      using reconnect_loop_slept [of 100 quote world 0 "w\<lparr>reconnecting := True\<rparr>"] by blast
    then show thesis using False that [of m] by (simp add: reconnectToDaemon_def case_prod_unfold)
  qed
  have "sum_list (map reconnect_backoff [0..<n]) \<le> int n * (30 * Second)" using le [of "[0..<n]"] by simp
  also have "\<dots> \<le> 3000 * Second" using n(1) by (simp add: Second_def)
  finally show ?thesis using n by auto
qed

section \<open>Output is plain text\<close>

lemma set_TrimSpace: "set (TrimSpace s) \<subseteq> set s"
proof -
  have "set (concat (map snd ys)) \<subseteq> set (concat (map snd xs))" if "set ys \<subseteq> set xs" for xs ys :: "(nat \<times> string) list"
    using that by auto
  moreover have "set (rev (dropWhile P (rev (dropWhile P xs)))) \<subseteq> set xs" for P and xs :: "(nat \<times> string) list"
  proof -
    have d: "set (dropWhile P ys) \<subseteq> set ys" for ys :: "(nat \<times> string) list" by (auto dest: set_dropWhileD)
    show ?thesis using d [of "rev (dropWhile P xs)"] d [of xs] by auto
  qed
  ultimately show ?thesis unfolding TrimSpace_def by (metis concat_rune_segs)
qed

lemma set_strip: "set (stripAnsi s) \<subseteq> insert (CHR '' '') (set s)"
proof (induction s rule: length_induct)
  case (1 s)
  show ?case
  proof (cases s)
    case (Cons c cs)
    have IH: "length t \<le> length cs \<Longrightarrow> set (stripAnsi t) \<subseteq> insert (CHR '' '') (set t)" for t
      using 1 Cons by simp
    have skip: "set (skipControlString t) \<subseteq> set t" for t
      by (induction t rule: skipControlString.induct) (auto dest: list.set_sel(2))
    have a: "set (stripAnsi (skipControlString t)) \<subseteq> insert (CHR '' '') (insert c (insert d (set t)))"
      if "length t < length cs" for t d
      using IH [of "skipControlString t"] skip [of t] skipControlString_shorter [of t] that by auto
    have b: "set (stripAnsi (drop n t)) \<subseteq> insert (CHR '' '') (insert c (insert d (set t)))" if "length t < length cs" for n t d
    proof -
      have "length (drop n t) \<le> length cs" using that by simp
      from IH [OF this] set_drop_subset [of n t] show ?thesis by blast
    qed
    have e: "set (stripAnsi t) \<subseteq> insert (CHR '' '') (insert c (insert d (set t)))" if "length t < length cs" for t d
      using IH [of t] that by auto
    have r: "set (replicate n (CHR '' '')) \<subseteq> {CHR '' ''}" for n by (auto simp: set_replicate_conv_if)
    show ?thesis
    proof (cases "c = ESC")
      case esc: True
      show ?thesis
      proof (cases cs)
        case Nil
        then show ?thesis by (simp add: Cons stripAnsi.simps(2) esc)
      next
        case (Cons d ds)
        note cs = this
        have len: "length ds < length cs" by (simp add: cs)
        note step = stripAnsi.simps(2) [of c cs, unfolded cs list.case]
        show ?thesis
        proof (cases "d = CHR ''[''")
          case True
          show ?thesis
          proof (cases "findCSIFinal ds")
            case None
            then have "stripAnsi s = []" unfolding \<open>s = c # cs\<close> cs step using True esc by simp
            then show ?thesis by simp
          next
            case (Some f)
            then have "stripAnsi s = (if ds ! f = CHR ''C'' then replicate (csiCount (take f ds)) (CHR '' '') else [])
                @ stripAnsi (drop (Suc f) ds)" unfolding \<open>s = c # cs\<close> cs step using True esc by simp
            moreover have "set s = insert c (insert d (set ds))" by (simp add: \<open>s = c # cs\<close> cs)
            ultimately show ?thesis using b [OF len, of "Suc f" d] r by (auto simp del: set_replicate)
          qed
        next
          case False
          then have "stripAnsi s = (if string_opener d then stripAnsi (skipControlString ds)
              else if charset_opener d then stripAnsi (drop 1 ds) else stripAnsi ds)"
            unfolding \<open>s = c # cs\<close> cs step using esc by simp
          moreover have "set s = insert c (insert d (set ds))" by (simp add: \<open>s = c # cs\<close> cs)
          ultimately show ?thesis using a [OF len, of d] b [OF len, of 1 d] e [OF len, of d] by simp
        qed
      qed
    next
      case False
      then show ?thesis
        using IH [of cs] unfolding Cons stripAnsi.simps(2) [of c cs] by auto
    qed
  qed simp
qed

lemma set_TrimRight_CR: "CHR 0x0D \<notin> set (after_last_cr s)"
  by (auto simp: after_last_cr_def dest: set_takeWhileD)

lemma clean_cli_line_plain:
  "list_all screen_plain (clean_cli_line data)" "CHR 0x0D \<notin> set (clean_cli_line data)"
  "CHR 0x0A \<notin> set (butlast data) \<Longrightarrow> CHR 0x0A \<notin> set (clean_cli_line data)"
proof -
  define raw where "raw = TrimRight data [CHR 0x0D, CHR 0x0A]"
  define cl where "cl = (if CHR 0x0D \<in> set raw then after_last_cr raw else raw)"
  define tr where "tr = TrimRight cl [CHR 0x0D]"
  have form: "clean_cli_line data = TrimSpace (stripAnsi tr)"
    by (simp add: clean_cli_line_def Let_def raw_def cl_def tr_def)
  have sub: "set (clean_cli_line data) \<subseteq> set (stripAnsi tr)" unfolding form by (rule set_TrimSpace)
  show "list_all screen_plain (clean_cli_line data)"
    using screen.strip_plain [of tr] sub by (auto simp: list_all_iff)
  have "CHR 0x0D \<notin> set cl" using set_TrimRight_CR by (simp add: cl_def)
  then have "CHR 0x0D \<notin> set tr" using set_TrimRight [of cl "[CHR 0x0D]"] by (auto simp: tr_def)
  then show "CHR 0x0D \<notin> set (clean_cli_line data)" using sub set_strip [of tr] by auto
  assume nl: "CHR 0x0A \<notin> set (butlast data)"
  have "CHR 0x0A \<notin> set raw"
  proof (cases "raw = []")
    case False
    have "last raw \<noteq> CHR 0x0A" using TrimRight_last [of data "[CHR 0x0D, CHR 0x0A]"] False by (auto simp: raw_def)
    moreover have "\<exists>zs. data = raw @ zs"
    proof -
      have "suffix (dropWhile P xs) xs" for P and xs :: string by (rule suffix_dropWhile)
      from this [of _ "rev data"] show ?thesis
        unfolding raw_def TrimRight_def suffix_def by (metis rev_append rev_rev_ident)
    qed
    then have "set (butlast raw) \<subseteq> set (butlast data)"
      using False by (auto simp: butlast_append dest: in_set_butlastD)
    ultimately show ?thesis using nl False by (metis append_butlast_last_id in_set_conv_decomp_last rotate1.simps(2) set_ConsD set_rotate1 subsetD)
  qed simp
  moreover have "set (after_last_cr raw) \<subseteq> set raw" by (auto simp: after_last_cr_def dest: set_takeWhileD)
  ultimately have "CHR 0x0A \<notin> set cl" by (auto simp: cl_def)
  then have "CHR 0x0A \<notin> set tr" using set_TrimRight [of cl "[CHR 0x0D]"] by (auto simp: tr_def)
  then show "CHR 0x0A \<notin> set (clean_cli_line data)" using sub set_strip [of tr] by auto
qed

text \<open>
  What a worker sends as output is plain text, a line at a time: handling one line the tool
  printed (bytes up to and including a line feed) sends nothing, or one output message whose text
  is the cleaned line, which holds no escape sequence, no control character but tab, no carriage
  return and no line feed.
\<close>

lemma cli_output_plain:
  assumes "CHR 0x0A \<notin> set (butlast data)"
  shows "w_outbox (handle_cli_line wr now data w)
      \<in> {w_outbox w} \<union> (\<lambda>c. w_outbox w @ [(c, worker_message now MsgOutput (clean_cli_line data) w)]) ` UNIV
    \<and> list_all (\<lambda>c. screen_plain c \<and> c \<noteq> CHR 0x0D \<and> c \<noteq> CHR 0x0A) (clean_cli_line data)"
proof -
  have out: "snd (Check dd raw) \<in> {[], raw}" for dd raw by (simp add: Check_def Let_def)
  have "w_outbox (handle_cli_line wr now data w)
      \<in> {w_outbox w} \<union> (\<lambda>c. w_outbox w @ [(c, worker_message now MsgOutput (clean_cli_line data) w)]) ` UNIV"
  proof (cases "clean_cli_line data \<noteq> [] \<and> \<not> StructuredOutput w \<and> w_ready w \<and> snd (Check (deduper w) (clean_cli_line data)) \<noteq> []")
    case True
    with out [of "deduper w" "clean_cli_line data"] have "snd (Check (deduper w) (clean_cli_line data)) = clean_cli_line data" by auto
    with True show ?thesis
      by (simp add: handle_cli_line_def Let_def case_prod_unfold worker_send_defs split: option.split)
  next
    case False
    then show ?thesis by (auto simp: handle_cli_line_def Let_def case_prod_unfold)
  qed
  then show ?thesis using clean_cli_line_plain [of data] assms by (auto simp: list_all_iff)
qed

lemma cli_output_plain_witness:
  "list_all (\<lambda>c. screen_plain c \<and> c \<noteq> CHR 0x0D \<and> c \<noteq> CHR 0x0A) (clean_cli_line (ESC # ''[31mred'' @ [CHR 0x0D, CHR 0x0A]))"
  by (rule cli_output_plain [THEN conjunct2]) (simp add: ESC_def)

end
