(* ===== verification/Worker_Runs.thy ===== *)
theory Worker_Runs
  imports Worker_Safety
begin

text \<open>
  The goroutines of the worker are runs of its actions: whatever a method does, and whatever the
  other goroutines do while it blocks, the state it leaves is reached by actions. What
  \<open>Worker_Safety\<close> proves of all runs so holds of the methods as the code composes them.
\<close>

abbreviation works_to :: "Worker \<Rightarrow> Worker \<Rightarrow> bool" where
  "works_to \<equiv> reaches wexec"

abbreviation worker_env :: "(Worker \<Rightarrow> Worker) \<Rightarrow> bool" where
  "worker_env \<equiv> env_of wexec"

lemmas works_refl [simp] = reaches_refl [of wexec]
lemmas works_env = reaches_env [of wexec]

section \<open>Single actions\<close>

lemma works_fields:
  "works_to v w \<Longrightarrow> works_to v (w\<lparr>w_closed := True\<rparr>)"
  "works_to v w \<Longrightarrow> works_to v (w\<lparr>w_ctxDone := True\<rparr>)"
  "works_to v w \<Longrightarrow> works_to v (w\<lparr>w_ready := True\<rparr>)"
  "works_to v w \<Longrightarrow> works_to v (w\<lparr>StructuredOutput := b\<rparr>)"
  "works_to v w \<Longrightarrow> works_to v (w\<lparr>reconnecting := b\<rparr>)"
  "works_to v w \<Longrightarrow> works_to v (w\<lparr>cliCloses := Suc (cliCloses w)\<rparr>)"
  "works_to v w \<Longrightarrow> works_to v (w\<lparr>deduper := Reset (deduper w)\<rparr>)"
  "works_to v w \<Longrightarrow> works_to v (w\<lparr>deduper := fst (Check (deduper w) raw)\<rparr>)"
  "works_to v w \<Longrightarrow> works_to v (w\<lparr>outputIdleObserver := f (outputIdleObserver w)\<rparr>)"
  by (erule reaches_then, rule wexec.simps [symmetric])+

lemma works_turns:
  "works_to v w \<Longrightarrow> works_to v (w\<lparr>w_turn := fst (beginTurnWithID (cliType w) (w_turn w))\<rparr>)"
  "works_to v w \<Longrightarrow> works_to v (w\<lparr>w_turn := fst (requestTurnInterrupt (cliType w) (w_turn w))\<rparr>)"
  "works_to v w \<Longrightarrow> works_to v (w\<lparr>w_turn := fst (finishTurnWithID (cliType w) i (w_turn w))\<rparr>)"
  "works_to v w \<Longrightarrow> works_to v (w\<lparr>w_turn := finishTurnInterrupt (cliType w) i (w_turn w)\<rparr>)"
  "works_to v w \<Longrightarrow> works_to v (w\<lparr>w_turn := cancelActiveTurn (cliType w) (w_turn w)\<rparr>)"
  by (erule reaches_then, rule wexec.simps [symmetric])+

lemma works_conns:
  "works_to v w \<Longrightarrow> works_to v (drop_conn w)"
  "works_to v w \<Longrightarrow> works_to v (fst (sendMessage wr now ty payload w))"
  "works_to v w \<Longrightarrow> works_to v (fst (sendReadyTo wr now (Some c) w))"
  "works_to v w \<Longrightarrow> works_to v (fst (publishConnection c reader w))"
  "works_to v w \<Longrightarrow> works_to v (fst (markDisconnectedIfCurrent co reader' w))"
  by (erule reaches_then, rule wexec.simps [symmetric])+

lemma works_close_conn: "works_to v w \<Longrightarrow> works_to v (close_worker_conn c w)"
proof (cases c)
  case (Some x)
  then show "works_to v w \<Longrightarrow> works_to v (close_worker_conn c w)"
    using reaches_then [of wexec v w _ "WCloseConn x"] by simp
qed (simp add: close_worker_conn_def)

lemmas works_intros = works_fields works_turns works_conns works_close_conn

section \<open>Methods\<close>

lemma works_Cancel: "works_to v w \<Longrightarrow> works_to v (Cancel w)"
proof -
  assume v: "works_to v w"
  have "works_to v (w\<lparr>w_closed := True\<rparr>)" by (rule works_fields(1) [OF v])
  from works_turns(5) [OF this] have "works_to v (drop_conn (w\<lparr>w_closed := True,
      w_turn := cancelActiveTurn (cliType w) (w_turn w), w_ctxDone := True\<rparr>))"
    by (auto intro: works_fields(2) works_conns(1))
  with v show ?thesis by (simp add: Cancel_def)
qed

lemma works_cleanup: "works_to v w \<Longrightarrow> works_to v (cleanup w)"
proof -
  assume v: "works_to v w"
  have "works_to v (w\<lparr>w_closed := True\<rparr>)" by (rule works_fields(1) [OF v])
  from works_turns(5) [OF this]
  have a: "works_to v (w\<lparr>w_closed := True, w_turn := cancelActiveTurn (cliType w) (w_turn w)\<rparr>)" by simp
  from works_fields(6) [OF this] works_fields(6) [OF works_fields(2) [OF a]]
  show ?thesis by (simp add: cleanup_def Let_def works_conns(1))
qed

lemma works_complete: "works_to v w \<Longrightarrow> works_to v (fst (completeTurn wr now i terminal w))"
proof -
  assume v: "works_to v w"
  let ?w = "w\<lparr>w_turn := fst (finishTurnWithID (cliType w) i (w_turn w))\<rparr>"
  have t: "works_to v ?w" by (rule works_turns(3) [OF v])
  from works_conns(2) [OF works_fields(9) [OF t, of CancelInput]] t show ?thesis
    by (simp add: completeTurn_def sendTurnTerminal_def case_prod_unfold Let_def)
qed

lemma works_fail: "works_to v w \<Longrightarrow> works_to v (failCurrentTurn wr now i code err w)"
  by (simp add: failCurrentTurn_def works_complete)

lemma works_handleInput:
  "worker_env env \<Longrightarrow> works_to v w \<Longrightarrow> works_to v (handleInput wr now env send i w)"
  by (auto simp: handleInput_def Let_def works_env works_fail works_conns(2) split: option.split sum.split)

lemma works_interrupt:
  assumes "worker_env env" and "works_to v w"
  shows "works_to v (interruptTurn wr now env interrupter res i w)"
proof -
  have "works_to v (if \<not> shouldInterruptTurn (cliType w) (w_turn w) i then w
         else if \<not> interrupter
           then failCurrentTurn wr now i ''codex_cancel_failed'' ''adapter does not support turn interruption'' w
         else
           let w = env w in
           (case res of
              None \<Rightarrow> w
            | Some e \<Rightarrow> if w_ctxDone w then w else failCurrentTurn wr now i ''codex_cancel_failed'' e w))" (is "works_to v ?w")
    using works_env [OF assms] assms(2) by (simp add: Let_def works_fail split: option.split)
  from works_turns(4) [OF this] show ?thesis unfolding interruptTurn_def Let_def .
qed

lemma works_daemon_message: "works_to v w \<Longrightarrow> works_to v (fst (handle_daemon_message wr now waited msg w))"
proof -
  assume v: "works_to v w"
  have r: "works_to v (w\<lparr>deduper := Reset (deduper w)\<rparr>)" by (rule works_fields(7) [OF v])
  from works_turns(1) [OF r]
  have b: "works_to v (w\<lparr>deduper := Reset (deduper w), w_turn := fst (beginTurnWithID (cliType w) (w_turn w))\<rparr>)" by simp
  have "works_to v (w\<lparr>deduper := Reset (deduper w), w_turn := fst (beginTurnWithID (cliType w) (w_turn w)),
      outputIdleObserver := BeginInput now (outputIdleObserver w)\<rparr>)"
    using works_fields(9) [OF b, of "BeginInput now"] by simp
  with v b show ?thesis
    by (simp add: handle_daemon_message_def Let_def case_prod_unfold sendError_def works_Cancel works_cleanup works_turns(2)
        works_conns(2))
qed

lemma works_readDaemon:
  assumes "worker_env env" and "works_to v w"
  shows "works_to v (fst (readDaemonMessages wr now waited env rd w))"
proof -
  have e: "works_to v (env w)" by (rule works_env [OF assms])
  then have "works_to v (fst (handle_read_error c reader (env w)))" for c reader
    by (simp add: handle_read_error_def works_Cancel works_conns(5) case_prod_unfold)
  with e assms(2) show ?thesis
    by (simp add: readDaemonMessages_def Let_def works_Cancel works_daemon_message case_prod_unfold split: read_result.split)
qed

lemma works_cli_line: "works_to v w \<Longrightarrow> works_to v (handle_cli_line wr now data w)"
proof -
  assume v: "works_to v w"
  have o: "works_to v (w\<lparr>outputIdleObserver := MarkOutput now (outputIdleObserver w)\<rparr>)"
    by (rule works_fields(9) [OF v])
  from works_fields(8) [OF this]
  have "works_to v (w\<lparr>outputIdleObserver := MarkOutput now (outputIdleObserver w), deduper := fst (Check (deduper w) raw)\<rparr>)" for raw
    by simp
  with o show ?thesis by (simp add: handle_cli_line_def Let_def case_prod_unfold works_conns(2))
qed

lemma works_readCli: "works_to v w \<Longrightarrow> works_to v (fst (readCliOutput wr now observes ev w))"
  using works_fields(9) [of v w "\<lambda>x. fst (Diagnostic t x)" for t]
  by (simp add: readCliOutput_def works_Cancel works_cli_line split: cli_event.split option.split)

lemma works_event:
  assumes "worker_env env" and "works_to v w"
  shows "works_to v (handle_adapter_event wr now env ev w)"
proof -
  have e: "works_to v (env w)" by (rule works_env [OF assms])
  from works_conns(2) [OF works_fields(9) [OF this, of "MarkOutput now"]] e assms(2) show ?thesis
    by (simp add: handle_adapter_event_def Let_def works_complete split: AdapterEventKind.split)
qed

lemma works_events: "worker_env env \<Longrightarrow> works_to v w \<Longrightarrow> works_to v (fst (readAdapterEvents wr now env r w))"
  by (simp add: readAdapterEvents_def works_event split: event_receive.split)

lemma works_heartbeat: "works_to v w \<Longrightarrow> works_to v (fst (heartbeat_tick wr now w))"
proof -
  assume v: "works_to v w"
  have "fst (sendMessageWithConn wr now MsgHeartbeat [] w) = fst (sendMessage wr now MsgHeartbeat [] w)"
    by (simp add: sendMessage_def case_prod_unfold)
  with works_conns(2) [OF v, of wr now MsgHeartbeat "[]"] show ?thesis
    by (simp add: heartbeat_tick_def case_prod_unfold works_conns(5))
qed

section \<open>Connecting\<close>

lemma works_handshake: "works_to v w \<Longrightarrow> works_to v (fst (readyHandshake quote dl wr now rd (Some c) w))"
proof -
  assume v: "works_to v w"
  from works_conns(3) [OF v, of wr now c] v show ?thesis
    by (simp add: readyHandshake_def case_prod_unfold split: option.split read_result.split)
qed

lemma works_reconnect_loop:
  assumes "\<And>k. worker_env (aw_env (world k))"
  shows "works_to v w \<Longrightarrow> works_to v (snd (reconnect_loop quote world k n w))"
proof (induction n arbitrary: k w)
  case (Suc n)
  let ?a = "world k"
  have e: "works_to v (aw_env ?a w)" by (rule works_env [OF assms Suc.prems])
  show ?case
  proof (cases "aw_dial ?a")
    case (Inl x)
    then show ?thesis using Suc.IH [OF e, of "Suc k"] Suc.prems by (simp add: Let_def case_prod_unfold)
  next
    case (Inr c)
    obtain u r where h: "readyHandshake quote (aw_deadline ?a) (aw_wr ?a) (aw_now ?a) (aw_read ?a) (Some c) (aw_env ?a w) = (u, r)"
      by fastforce
    have u: "works_to v u" using works_handshake [OF e] h by (metis fst_conv)
    note c = works_close_conn [OF u, of "Some c"]
    have p: "works_to v (fst (publishConnection c reader u))" for reader by (rule works_conns(4) [OF u])
    show ?thesis
      using Suc.prems Inr h Suc.IH [OF c, of "Suc k"] works_cleanup [OF c] p works_close_conn [OF p]
      by (simp add: Let_def case_prod_unfold split: sum.split handshake_error.split)
  qed
qed simp

lemma works_reconnect:
  assumes "\<And>k. worker_env (aw_env (world k))" and "works_to v w"
  shows "works_to v (snd (reconnectToDaemon quote world w))"
  using works_fields(5) [OF works_reconnect_loop [OF assms(1) works_fields(5) [OF assms(2)]]] assms(2)
  by (simp add: reconnectToDaemon_def case_prod_unfold)

lemma works_Run:
  assumes "worker_env (aw_env a)" and "works_to v w"
  shows "works_to v (fst (Run quote hasAdapter conn start ev a w))"
proof (cases conn)
  case (Inr c)
  have fail: "works_to v u \<Longrightarrow> works_to v (cleanup (close_worker_conn (Some c) u))" for u
    by (intro works_cleanup works_close_conn)
  have s: "works_to v (aw_env a (w\<lparr>StructuredOutput := b\<rparr>))" for b
    by (rule works_env [OF assms(1) works_fields(4) [OF assms(2)]])
  have h: "works_to v (fst (readyHandshake quote (aw_deadline a) (aw_wr a) (aw_now a) (aw_read a) (Some c)
      (aw_env a (w\<lparr>StructuredOutput := b\<rparr>))))" for b
    by (rule works_handshake [OF s])
  have p: "works_to v (fst (publishConnection c reader (fst (readyHandshake quote (aw_deadline a) (aw_wr a) (aw_now a)
      (aw_read a) (Some c) (aw_env a (w\<lparr>StructuredOutput := b\<rparr>))))))" for b reader
    by (rule works_conns(4) [OF h])
  show ?thesis
    using Inr assms(2) fail [OF assms(2)] fail [OF s] fail [OF h] fail [OF works_close_conn [OF p]]
      works_fields(3) [OF works_close_conn [OF p]]
    by (simp add: Run_def Let_def case_prod_unfold split: sum.split option.split handshake_error.split)
qed (use assms(2) in \<open>simp add: Run_def\<close>)

section \<open>The loops\<close>

text \<open>
  The loops of the worker's goroutines, each as \<open>goroutine_loop\<close> over its rounds: the function of
  one round, without what it starts.
\<close>

record daemon_round =
  dr_wr :: "string option"
  dr_now :: time
  dr_waited :: bool
  dr_env :: "Worker \<Rightarrow> Worker"
  dr_read :: read_result

definition daemon_loop :: "((Worker \<Rightarrow> Worker) \<times> daemon_round) list \<Rightarrow> Worker \<Rightarrow> Worker \<times> bool" where
  "daemon_loop = goroutine_loop (\<lambda>r w.
     case readDaemonMessages (dr_wr r) (dr_now r) (dr_waited r) (dr_env r) (dr_read r) w of (w, _, _, go_on) \<Rightarrow> (w, go_on))"

definition output_loop ::
  "((Worker \<Rightarrow> Worker) \<times> (string option \<times> time \<times> bool \<times> cli_event)) list \<Rightarrow> Worker \<Rightarrow> Worker \<times> bool" where
  "output_loop = goroutine_loop (\<lambda>(wr, now, observes, ev) w.
     case readCliOutput wr now observes ev w of (w, _, go_on) \<Rightarrow> (w, go_on))"

definition event_loop ::
  "((Worker \<Rightarrow> Worker) \<times> (string option \<times> time \<times> (Worker \<Rightarrow> Worker) \<times> event_receive)) list \<Rightarrow> Worker \<Rightarrow> Worker \<times> bool" where
  "event_loop = goroutine_loop (\<lambda>(wr, now, env, r) w. readAdapterEvents wr now env r w)"

text \<open>
  \<open>sendHeartbeats\<close>: a round is a tick (with the write's error and the clock) or the end of the
  context, which can only be chosen when the context has ended.
\<close>

definition sendHeartbeats ::
  "((Worker \<Rightarrow> Worker) \<times> (string option \<times> time) option) list \<Rightarrow> Worker \<Rightarrow> Worker \<times> bool" where
  "sendHeartbeats = goroutine_loop (\<lambda>tick w.
     case tick of
       None \<Rightarrow> (w, \<not> w_ctxDone w)
     | Some (wr, now) \<Rightarrow> (fst (heartbeat_tick wr now w), True))"

lemma works_loops:
  "list_all (\<lambda>(env, r). worker_env env \<and> worker_env (dr_env r)) drs \<Longrightarrow> works_to v w \<Longrightarrow> works_to v (fst (daemon_loop drs w))"
  "list_all (\<lambda>(env, r). worker_env env) ors \<Longrightarrow> works_to v w \<Longrightarrow> works_to v (fst (output_loop ors w))"
  "list_all (\<lambda>(env, (wr, now, env', r)). worker_env env \<and> worker_env env') ers \<Longrightarrow> works_to v w
     \<Longrightarrow> works_to v (fst (event_loop ers w))"
  "list_all (\<lambda>(env, t). worker_env env) hrs \<Longrightarrow> works_to v w \<Longrightarrow> works_to v (fst (sendHeartbeats hrs w))"
proof -
  show "list_all (\<lambda>(env, r). worker_env env \<and> worker_env (dr_env r)) drs \<Longrightarrow> works_to v w
      \<Longrightarrow> works_to v (fst (daemon_loop drs w))"
    unfolding daemon_loop_def
    by (rule reaches_loop [where ok = "\<lambda>r. worker_env (dr_env r)"]) (simp_all add: case_prod_unfold works_readDaemon)
  show "list_all (\<lambda>(env, r). worker_env env) ors \<Longrightarrow> works_to v w \<Longrightarrow> works_to v (fst (output_loop ors w))"
    unfolding output_loop_def
    by (rule reaches_loop [where ok = "\<lambda>_. True"]) (simp_all add: case_prod_unfold works_readCli)
  show "list_all (\<lambda>(env, (wr, now, env', r)). worker_env env \<and> worker_env env') ers \<Longrightarrow> works_to v w
      \<Longrightarrow> works_to v (fst (event_loop ers w))"
    unfolding event_loop_def
    by (rule reaches_loop [where ok = "\<lambda>(wr, now, env', r). worker_env env'"]) (simp_all add: case_prod_unfold works_events)
  show "list_all (\<lambda>(env, t). worker_env env) hrs \<Longrightarrow> works_to v w \<Longrightarrow> works_to v (fst (sendHeartbeats hrs w))"
    unfolding sendHeartbeats_def
    by (rule reaches_loop [where ok = "\<lambda>_. True"]) (simp_all add: case_prod_unfold works_heartbeat split: option.split)
qed

text \<open>
  The methods of the worker do nothing but its actions. From any state, whatever a method does
  (\<open>Run\<close>, the reconnection, the goroutines of an input and of an interrupt, and the four loops, for
  any number of rounds), and whatever runs of actions happen in between, the state it leaves is
  reached by actions: what holds of all runs of actions holds of the worker.
\<close>

lemma worker_goroutines_are_runs:
  assumes "\<And>k. worker_env (aw_env (world k))" and "worker_env (aw_env a)" and "worker_env env"
    and "list_all (\<lambda>(env, r). worker_env env \<and> worker_env (dr_env r)) drs" and "list_all (\<lambda>(env, r). worker_env env) ors"
    and "list_all (\<lambda>(env, (wr, now, env', r)). worker_env env \<and> worker_env env') ers"
    and "list_all (\<lambda>(env, t). worker_env env) hrs"
  shows "works_to w (fst (Run quote hasAdapter conn start ev a w)) \<and> works_to w (snd (reconnectToDaemon quote world w))
    \<and> works_to w (handleInput wr now env send i w) \<and> works_to w (interruptTurn wr now env interrupter res i w)
    \<and> works_to w (fst (daemon_loop drs w)) \<and> works_to w (fst (output_loop ors w))
    \<and> works_to w (fst (event_loop ers w)) \<and> works_to w (fst (sendHeartbeats hrs w))"
  using assms by (simp add: works_Run works_reconnect works_handleInput works_interrupt works_loops)

lemma worker_goroutines_are_runs_witness:
  "works_to running_worker (snd (reconnectToDaemon id
      (\<lambda>_. \<lparr>aw_env = id, aw_dial = Inr 4, aw_deadline = None, aw_wr = None, aw_now = 1, aw_read = ReadFails True ''reset''\<rparr>)
      running_worker))
   \<and> works_to running_worker (fst (sendHeartbeats [(Cancel, Some (None, 2)), (id, None)] running_worker))"
proof -
  have env: "worker_env id" "worker_env Cancel" by (simp_all add: env_of_id env_of_def works_Cancel)
  let ?a = "\<lparr>aw_env = id, aw_dial = Inr 4, aw_deadline = None, aw_wr = None, aw_now = 1, aw_read = ReadFails True ''reset''\<rparr>"
  show ?thesis
    using worker_goroutines_are_runs [of "\<lambda>_. ?a" ?a id "[]" "[]" "[]" "[(Cancel, Some (None, 2)), (id, None)]"] env
    by simp
qed

section \<open>Shutdown\<close>

interpretation cancelled: machine wexec w_ctxDone
proof
  fix w :: Worker and act
  assume "w_ctxDone w"
  then show "w_ctxDone (wexec w act)"
    by (cases act) (simp_all add: publishConnection_def worker_send_defs markDisconnectedIfCurrent_def
        drop_conn_def close_worker_conn_def split: option.split)
qed

lemma loops_return:
  assumes "w_ctxDone w"
  shows "list_all (\<lambda>(env, r). worker_env env \<and> worker_env (dr_env r)) drs \<Longrightarrow> drs \<noteq> [] \<Longrightarrow> snd (daemon_loop drs w)"
    and "list_all (\<lambda>(env, r). worker_env env) ors \<Longrightarrow> list_ex (\<lambda>(env, wr, now, observes, ev). ev = CliContextDone) ors
      \<Longrightarrow> snd (output_loop ors w)"
    and "list_all (\<lambda>(env, (wr, now, env', r)). worker_env env \<and> worker_env env') ers
      \<Longrightarrow> list_ex (\<lambda>(env, wr, now, env', r). r = EventsContextDone) ers \<Longrightarrow> snd (event_loop ers w)"
    and "list_all (\<lambda>(env, t). worker_env env) hrs \<Longrightarrow> list_ex (\<lambda>(env, t). t = None) hrs \<Longrightarrow> snd (sendHeartbeats hrs w)"
proof -
  assume drs: "list_all (\<lambda>(env, r). worker_env env \<and> worker_env (dr_env r)) drs" "drs \<noteq> []"
  from drs(2) have ex: "list_ex (\<lambda>(env, r). True) drs" by (cases drs) auto
  have last: "w_ctxDone w \<Longrightarrow> \<not> snd (case readDaemonMessages (dr_wr r) (dr_now r) (dr_waited r) (dr_env r) (dr_read r) w of
      (w, _, _, go_on) \<Rightarrow> (w, go_on))" for r w
    by (simp add: readDaemonMessages_def)
  show "snd (daemon_loop drs w)"
    unfolding daemon_loop_def
    by (rule cancelled.loop_returns [where ok = "\<lambda>r. worker_env (dr_env r)", OF _ last drs(1) ex assms])
      (simp_all add: case_prod_unfold works_readDaemon)
next
  assume "list_all (\<lambda>(env, r). worker_env env) ors" "list_ex (\<lambda>(env, wr, now, observes, ev). ev = CliContextDone) ors"
  moreover have "snd (snd (readCliOutput wr now observes CliContextDone w)) = False" for wr now observes w
    by (simp add: readCliOutput_def)
  ultimately show "snd (output_loop ors w)"
    unfolding output_loop_def
    by (intro cancelled.loop_returns [where ok = "\<lambda>_. True" and last_round = "\<lambda>(wr, now, observes, ev). ev = CliContextDone", OF _ _ _ _ assms])
      (auto simp: case_prod_unfold works_readCli)
next
  assume "list_all (\<lambda>(env, (wr, now, env', r)). worker_env env \<and> worker_env env') ers"
    "list_ex (\<lambda>(env, wr, now, env', r). r = EventsContextDone) ers"
  moreover have "snd (readAdapterEvents wr now env EventsContextDone w) = False" for wr now env w
    by (simp add: readAdapterEvents_def)
  ultimately show "snd (event_loop ers w)"
    unfolding event_loop_def
    by (intro cancelled.loop_returns [where ok = "\<lambda>(wr, now, env', r). worker_env env'"
        and last_round = "\<lambda>(wr, now, env', r). r = EventsContextDone", OF _ _ _ _ assms])
      (auto simp: case_prod_unfold works_events)
next
  assume "list_all (\<lambda>(env, t). worker_env env) hrs" "list_ex (\<lambda>(env, t). t = None) hrs"
  then show "snd (sendHeartbeats hrs w)"
    unfolding sendHeartbeats_def
    by (intro cancelled.loop_returns [where ok = "\<lambda>_. True" and last_round = "\<lambda>t. t = None", OF _ _ _ _ assms])
      (simp_all add: case_prod_unfold works_heartbeat split: option.split)
qed

text \<open>
  C11: a closed worker ends and says nothing more. From the end of \<open>Cancel\<close> or \<open>cleanup\<close> on,
  whatever its goroutines have done since, each of its four loops returns: the reader of the
  daemon's messages at its next round, the others at the first round in which the end of the
  context wakes them; and none of them opens a connection or writes a message any more, but for the
  READY of a reconnection caught in its handshake.
\<close>

theorem worker_shutdown:
  assumes "\<not> w_closed w" and "works_to (Cancel w) v \<or> works_to (cleanup w) v"
    and "list_all (\<lambda>(env, r). worker_env env \<and> worker_env (dr_env r)) drs" and "drs \<noteq> []"
    and "list_all (\<lambda>(env, r). worker_env env) ors" and "list_ex (\<lambda>(env, wr, now, observes, ev). ev = CliContextDone) ors"
    and "list_all (\<lambda>(env, (wr, now, env', r)). worker_env env \<and> worker_env env') ers"
    and "list_ex (\<lambda>(env, wr, now, env', r). r = EventsContextDone) ers"
    and "list_all (\<lambda>(env, t). worker_env env) hrs" and "list_ex (\<lambda>(env, t). t = None) hrs"
    and "v' \<in> {fst (daemon_loop drs v), fst (output_loop ors v), fst (event_loop ers v), fst (sendHeartbeats hrs v)}"
  shows "snd (daemon_loop drs v) \<and> snd (output_loop ors v) \<and> snd (event_loop ers v) \<and> snd (sendHeartbeats hrs v)
    \<and> w_closed v' \<and> w_conn v' = None
    \<and> filter (\<lambda>(c, m). msg_Type m \<noteq> MsgReady) (w_outbox v') = filter (\<lambda>(c, m). msg_Type m \<noteq> MsgReady) (w_outbox w)"
proof -
  let ?said = "filter (\<lambda>(c, m). msg_Type m \<noteq> MsgReady) (w_outbox w)"
  have "silent_as ?said (Cancel w) \<and> w_ctxDone (Cancel w)" "silent_as ?said (cleanup w) \<and> w_ctxDone (cleanup w)"
    using assms(1)
    by (simp_all add: silent_as_def Cancel_def cleanup_def drop_conn_def close_worker_conn_def Let_def split: option.split)
  then have v: "silent_as ?said v" "w_ctxDone v"
    using assms(2) silent.inv_reaches cancelled.inv_reaches by blast+
  have "works_to v v'"
    using assms(11) works_loops(1) [OF assms(3) works_refl] works_loops(2) [OF assms(5) works_refl]
      works_loops(3) [OF assms(7) works_refl] works_loops(4) [OF assms(9) works_refl] by blast
  with v(1) have "silent_as ?said v'" by (rule silent.inv_reaches)
  then show ?thesis
    using loops_return(1) [OF v(2) assms(3,4)] loops_return(2) [OF v(2) assms(5,6)]
      loops_return(3) [OF v(2) assms(7,8)] loops_return(4) [OF v(2) assms(9,10)]
    by (simp add: silent_as_def)
qed

theorem worker_shutdown_witness:
  "snd (sendHeartbeats [(id, Some (None, 2)), (id, None)] (cleanup sample_worker))
    \<and> w_conn (fst (sendHeartbeats [(id, Some (None, 2)), (id, None)] (cleanup sample_worker))) = None"
proof -
  let ?r = "\<lparr>dr_wr = None, dr_now = 1, dr_waited = True, dr_env = id, dr_read = ReadFails False ''eof''\<rparr>"
  have o: "\<not> w_closed sample_worker" by (simp add: sample_worker_def NewWorker_def)
  show ?thesis
    using worker_shutdown [OF o disjI2 [OF works_refl], of "[(id, ?r)]" "[(id, None, 1, False, CliContextDone)]"
        "[(id, None, 1, id, EventsContextDone)]" "[(id, Some (None, 2)), (id, None)]"
        "fst (sendHeartbeats [(id, Some (None, 2)), (id, None)] (cleanup sample_worker))"]
    by (simp add: env_of_id)
qed

end
