(* ===== verification/Adapter_Io.thy ===== *)
theory Adapter_Io
  imports Adapter Json
begin

text \<open>
  The two write loops of the adapters (\<open>writeAll\<close> in \<open>codex.go\<close>, \<open>writeAllWithRetry\<close> in
  \<open>aiden.go\<close>) and the splitting of an input into chunks at rune boundaries. What the world
  does in round \<open>k\<close> of a loop, with \<open>data\<close> left to write, is \<open>world k data\<close>: the error of the context, the result of \<open>Write\<close>
  (a count and an error), and how the wait before a retry ends. A loop's result lists the bytes the
  writer took, the number of \<open>Write\<close> calls, and how it ended.
\<close>

record write_round =
  wr_ctx :: "string option"
  wr_n :: int
  wr_err :: "string option"
  wr_wait :: "string option"

datatype write_end = Written | WriteFails string

definition ErrNoProgress :: string where
  "ErrNoProgress = ''multiple Read calls return no data or error''"

section \<open>Writing without retries\<close>

text \<open>
  \<open>writeAll\<close> may go on forever with a writer that reports a negative count; \<open>io.Writer\<close> promises
  \<open>0 \<le> n \<le> len(data)\<close>, and the slice expression would panic on a count beyond the data.
\<close>

partial_function (option) writeAll :: "(nat \<Rightarrow> string \<Rightarrow> write_round) \<Rightarrow> nat \<Rightarrow> string \<Rightarrow> (string \<times> write_end) option" where
  "writeAll world k data =
     (if data = [] then Some ([], Written)
      else let a = world k data in
        (case wr_ctx a of
           Some e \<Rightarrow> Some ([], WriteFails e)
         | None \<Rightarrow>
             let taken = take (nat (wr_n a)) data; rest = drop (nat (wr_n a)) data in
             (case wr_err a of
                Some e \<Rightarrow> Some (taken, WriteFails e)
              | None \<Rightarrow>
                  if wr_n a = 0 then Some (taken, WriteFails ErrNoProgress)
                  else
                    Option.bind (writeAll world (Suc k) rest) (\<lambda>x. Some (taken @ fst x, snd x)))))"

lemma prefix_take_drop: "prefix xs (drop n ys) \<Longrightarrow> prefix (take n ys @ xs) ys"
  using same_prefix_prefix [of "take n ys" xs "drop n ys"] by simp

definition honest_writer :: "(nat \<Rightarrow> string \<Rightarrow> write_round) \<Rightarrow> bool" where
  "honest_writer world \<longleftrightarrow> (\<forall>k data. 0 \<le> wr_n (world k data) \<and> wr_n (world k data) \<le> int (length data))"

lemma writeAll_spec:
  assumes "honest_writer world"
  shows "\<exists>out r. writeAll world k data = Some (out, r) \<and> prefix out data \<and> (r = Written \<longrightarrow> out = data)"
proof (induction data arbitrary: k rule: length_induct)
  case (1 data)
  show ?case
  proof (cases "data = [] \<or> wr_ctx (world k data) \<noteq> None \<or> wr_err (world k data) \<noteq> None \<or> wr_n (world k data) = 0")
    case True
    then show ?thesis
      by (subst (1) writeAll.simps) (auto simp: Let_def take_is_prefix split: option.split)
  next
    case False
    then have n: "0 < nat (wr_n (world k data))"
      using assms unfolding honest_writer_def by (metis less_le zero_less_nat_eq)
    let ?n = "nat (wr_n (world k data))"
    from n False have "length (drop ?n data) < length data" by simp
    with 1 obtain out r where IH: "writeAll world (Suc k) (drop ?n data) = Some (out, r)"
      "prefix out (drop ?n data)" "r = Written \<longrightarrow> out = drop ?n data" by blast
    from False have "writeAll world k data = Some (take ?n data @ out, r)"
      by (subst writeAll.simps) (auto simp: Let_def IH(1) split: option.split)
    moreover have "prefix (take ?n data @ out) data"
      using IH(2) by (rule prefix_take_drop)
    ultimately show ?thesis using IH(3) by auto
  qed
qed

section \<open>Writing with retries\<close>

text \<open>\<open>writeAllWithRetry\<close>, its loop: \<open>failures\<close> counts the failures since the last good write.\<close>

definition invalid_count :: "int \<Rightarrow> string \<Rightarrow> string" where
  "invalid_count n data = ''invalid write count '' @ itoa n @ '' for '' @ itoa (int (length data)) @ '' bytes''"

definition write_try :: "nat \<Rightarrow> write_round \<Rightarrow> nat \<Rightarrow> string \<Rightarrow> nat \<times> string \<times> (write_end + nat)" where
  "write_try maxAttempts a failures data =
     (case wr_ctx a of
        Some e \<Rightarrow> (0, [], Inl (WriteFails e))
      | None \<Rightarrow>
          if wr_n a < 0 \<or> int (length data) < wr_n a then (1, [], Inl (WriteFails (invalid_count (wr_n a) data)))
          else
            let taken = take (nat (wr_n a)) data; rest = drop (nat (wr_n a)) data in
            if wr_err a = None \<and> 0 < wr_n a then (1, taken, Inr 0)
            else
              let err = (case wr_err a of None \<Rightarrow> ErrNoProgress | Some e \<Rightarrow> e) in
              if rest = [] then (1, taken, Inl (WriteFails err))
              else if maxAttempts \<le> Suc failures then (1, taken, Inl (WriteFails err))
              else
                (case wr_wait a of
                   Some e \<Rightarrow> (1, taken, Inl (WriteFails e))
                 | None \<Rightarrow> (1, taken, Inr (Suc failures))))"

lemma write_try_prefix: "write_try M a f data = (c, taken, r) \<Longrightarrow> prefix taken data \<and> c \<le> 1 \<and> r \<noteq> Inl Written"
  by (auto simp: write_try_def Let_def take_is_prefix split: option.splits if_splits)

lemma write_try_goes_on:
  "write_try M a f data = (c, taken, Inr g) \<Longrightarrow> data \<noteq> [] \<Longrightarrow>
     c = 1 \<and> (g = 0 \<and> taken \<noteq> [] \<or> g = Suc f \<and> Suc f < M \<and> taken \<noteq> data)"
  by (auto simp: write_try_def Let_def split: option.splits if_splits)

function retry_loop ::
  "(nat \<Rightarrow> string \<Rightarrow> write_round) \<Rightarrow> nat \<Rightarrow> nat \<Rightarrow> nat \<Rightarrow> string \<Rightarrow> string \<times> nat \<times> write_end" where
  "retry_loop world maxAttempts k failures data =
     (if data = [] then ([], 0, Written)
      else
        (case write_try maxAttempts (world k data) failures data of
           (c, taken, Inl r) \<Rightarrow> (taken, c, r)
         | (c, taken, Inr failures) \<Rightarrow>
             (case retry_loop world maxAttempts (Suc k) failures (drop (length taken) data) of
                (out, c', r) \<Rightarrow> (taken @ out, c + c', r))))"
  by pat_completeness auto
termination
  by (relation "measures [\<lambda>(_, _, _, _, data). length data, \<lambda>(_, maxAttempts, _, failures, _). maxAttempts - failures]")
    (auto dest: write_try_goes_on [OF sym])

declare retry_loop.simps [simp del]

definition writeAllWithRetry :: "(nat \<Rightarrow> string \<Rightarrow> write_round) \<Rightarrow> string \<Rightarrow> int \<Rightarrow> string \<times> nat \<times> write_end" where
  "writeAllWithRetry world data maxAttempts =
     retry_loop world (if maxAttempts \<le> 0 then 1 else nat maxAttempts) 0 0 data"

text \<open>
  What the loop hands the writer is a prefix of the data, all of it when it succeeds; and it makes
  at most \<open>maxAttempts\<close> calls of \<open>Write\<close> per byte.
\<close>

lemma retry_loop_step:
  assumes "data \<noteq> []" and "write_try M (world k data) f data = (c, taken, Inr g)"
    and "retry_loop world M (Suc k) g (drop (length taken) data) = (out, c', r)"
  shows "retry_loop world M k f data = (taken @ out, c + c', r)"
  using assms by (simp add: retry_loop.simps [of world M k f data])

lemma retry_loop_ends:
  "data \<noteq> [] \<Longrightarrow> write_try M (world k data) f data = (c, taken, Inl r) \<Longrightarrow> retry_loop world M k f data = (taken, c, r)"
  by (simp add: retry_loop.simps [of world M k f data])

lemma retry_loop_Nil [simp]: "retry_loop world M k f [] = ([], 0, Written)"
  by (simp add: retry_loop.simps)

text \<open>A proof about the loop goes by its rounds: the empty rest, a round that ends it, a round it goes on after.\<close>

lemma retry_loop_rounds [case_names Nil Ends GoesOn]:
  assumes "\<And>k f. P k f []"
    and "\<And>k f data c taken r. data \<noteq> [] \<Longrightarrow> write_try M (world k data) f data = (c, taken, Inl r) \<Longrightarrow> P k f data"
    and "\<And>k f data c taken g. data \<noteq> [] \<Longrightarrow> write_try M (world k data) f data = (c, taken, Inr g) \<Longrightarrow>
      P (Suc k) g (drop (length taken) data) \<Longrightarrow> P k f data"
  shows "P k f data"
proof -
  have "w = world \<Longrightarrow> N = M \<Longrightarrow> P k f data" for w N
  proof (induction w N k f data rule: retry_loop.induct)
    case (1 w N k f data)
    obtain c taken x where t: "write_try M (world k data) f data = (c, taken, x)" by (metis prod_cases3)
    show ?case
    proof (cases "data = []")
      case False
      show ?thesis
      proof (cases x)
        case (Inl r)
        with assms(2) [OF False] t show ?thesis by blast
      next
        case (Inr g)
        with "1.IH" [OF False] t "1.prems" have "P (Suc k) g (drop (length taken) data)" by metis
        with assms(3) [OF False] t Inr show ?thesis by blast
      qed
    qed (simp add: assms(1))
  qed
  then show ?thesis by simp
qed

lemma retry_loop_prefix:
  "prefix (fst (retry_loop world M k f data)) data
    \<and> (snd (snd (retry_loop world M k f data)) = Written \<longrightarrow> fst (retry_loop world M k f data) = data)"
proof (induction k f data rule: retry_loop_rounds [where world = world and M = M])
  case (Ends k f data c taken r)
  with write_try_prefix [OF Ends(2)] show ?case by (auto simp: retry_loop_ends)
next
  case (GoesOn k f data c taken g)
  obtain out c' r where rec: "retry_loop world M (Suc k) g (drop (length taken) data) = (out, c', r)" by (metis prod_cases3)
  from write_try_prefix [OF GoesOn(2)] have "take (length taken) data = taken" by (auto simp: prefix_def)
  with GoesOn(3) show ?case
    using prefix_take_drop [of out "length taken" data] append_take_drop_id [of "length taken" data]
    by (simp add: retry_loop_step [OF GoesOn(1,2) rec] rec)
qed simp

lemma retry_loop_calls:
  "f < M \<Longrightarrow> data \<noteq> [] \<Longrightarrow> fst (snd (retry_loop world M k f data)) + f \<le> M * length data"
proof (induction k f data rule: retry_loop_rounds [where world = world and M = M])
  case (Ends k f data c taken r)
  have "M \<le> M * length data" using Ends(1) by (cases data) simp_all
  moreover have "c \<le> 1" using write_try_prefix [OF Ends(2)] by simp
  ultimately have "c + f \<le> M * length data" using Ends.prems(1) by linarith
  then show ?case by (simp add: retry_loop_ends [where world = world, OF Ends(1,2)])
next
  case (GoesOn k f data c taken g)
  let ?rest = "drop (length taken) data"
  obtain out c' r where rec: "retry_loop world M (Suc k) g ?rest = (out, c', r)" by (metis prod_cases3)
  have step: "fst (snd (retry_loop world M k f data)) = 1 + c'"
    using write_try_goes_on [OF GoesOn(2,1)] by (auto simp: retry_loop_step [OF GoesOn(1,2) rec])
  from write_try_prefix [OF GoesOn(2)] have len: "length taken \<le> length data" "taken = take (length taken) data"
    by (auto simp: prefix_def)
  consider "g = 0" "taken \<noteq> []" | "g = Suc f" "Suc f < M" "taken \<noteq> data" using write_try_goes_on [OF GoesOn(2,1)] by blast
  then show ?case
  proof cases
    case 1
    have "c' \<le> M * length ?rest"
    proof (cases "?rest = []")
      case False
      with GoesOn 1 rec show ?thesis by simp
    qed (use rec 1 in simp)
    moreover have "M * length ?rest + M \<le> M * length data"
    proof -
      have "0 < length taken" using 1 by simp
      then have "length ?rest + 1 \<le> length data" using len(1) by (simp only: length_drop)
      then have "M * (length ?rest + 1) \<le> M * length data" by (rule mult_le_mono2)
      then show ?thesis by simp
    qed
    ultimately show ?thesis using step GoesOn.prems(1) by simp
  next
    case 2
    then have "?rest \<noteq> []" using len by auto
    with GoesOn 2 rec have "c' + Suc f \<le> M * length ?rest" by simp
    also have "\<dots> \<le> M * length data" by simp
    finally show ?thesis using step by simp
  qed
qed simp

text \<open>
  A good round: the context is alive and the writer takes something without an error. A writer that
  is never out of order for \<open>maxAttempts\<close> rounds in a row gets everything.
\<close>

definition good_round :: "(nat \<Rightarrow> string \<Rightarrow> write_round) \<Rightarrow> nat \<Rightarrow> bool" where
  "good_round world k \<longleftrightarrow> (\<forall>data. data \<noteq> [] \<longrightarrow> wr_err (world k data) = None \<and> 0 < wr_n (world k data))"

definition recovering_writer :: "nat \<Rightarrow> (nat \<Rightarrow> string \<Rightarrow> write_round) \<Rightarrow> bool" where
  "recovering_writer M world \<longleftrightarrow> honest_writer world
     \<and> (\<forall>k data. wr_ctx (world k data) = None \<and> wr_wait (world k data) = None)
     \<and> (\<forall>k data. data \<noteq> [] \<and> wr_err (world k data) \<noteq> None \<longrightarrow> wr_n (world k data) < int (length data))
     \<and> (\<forall>k. \<exists>d<M. good_round world (k + d))"

lemma recovering_try:
  assumes "recovering_writer M world" and "data \<noteq> []" and "d < M" and "good_round world (k + d)" and "f + d < M"
    and "write_try M (world k data) f data = (c, taken, x)"
  obtains "x = Inr 0" | d' where "d = Suc d'" "x = Inr (Suc f)"
proof -
  let ?a = "world k data"
  have a: "wr_ctx ?a = None" "wr_wait ?a = None" "0 \<le> wr_n ?a" "wr_n ?a \<le> int (length data)"
    "wr_err ?a \<noteq> None \<longrightarrow> wr_n ?a < int (length data)"
    using assms(1,2) by (auto simp: recovering_writer_def honest_writer_def)
  show thesis
  proof (cases "wr_err ?a = None \<and> 0 < wr_n ?a")
    case True
    with a assms(6) that(1) show thesis by (simp add: write_try_def Let_def)
  next
    case False
    then have "d \<noteq> 0" using assms(2,4) by (auto simp: good_round_def intro: ccontr)
    then obtain d' where d: "d = Suc d'" by (cases d) auto
    have "\<not> length data \<le> nat (wr_n ?a)" using False a assms(2) by auto
    moreover have "\<not> M \<le> Suc f" using assms(5) d by simp
    ultimately have "x = Inr (Suc f)" using a assms(6) False by (auto simp: write_try_def Let_def)
    with d that(2) show thesis by blast
  qed
qed

lemma recovering_written:
  assumes "recovering_writer M world"
  shows "d < M \<Longrightarrow> good_round world (k + d) \<Longrightarrow> f + d < M \<Longrightarrow> snd (snd (retry_loop world M k f data)) = Written"
proof (induction k f data arbitrary: d rule: retry_loop_rounds [where world = world and M = M])
  case (Ends k f data c taken r)
  from recovering_try [OF assms Ends(1) Ends.prems Ends(2)] show ?case by blast
next
  case (GoesOn k f data c taken g)
  obtain out c' r where rec: "retry_loop world M (Suc k) g (drop (length taken) data) = (out, c', r)" by (metis prod_cases3)
  have "\<exists>e. e < M \<and> good_round world (Suc k + e) \<and> g + e < M"
  proof (rule recovering_try [OF assms GoesOn(1) GoesOn.prems GoesOn(2)])
    assume "Inr g = (Inr 0 :: write_end + nat)"
    moreover obtain e where "e < M" "good_round world (Suc k + e)" using assms unfolding recovering_writer_def by blast
    ultimately show ?thesis by auto
  next
    fix d' assume "d = Suc d'" "Inr g = (Inr (Suc f) :: write_end + nat)"
    with GoesOn.prems show ?thesis by (intro exI [of _ d']) simp
  qed
  with GoesOn.IH rec have "r = Written" by auto
  then show ?case by (simp add: retry_loop_step [OF GoesOn(1,2) rec])
qed simp

text \<open>
  \<open>writeAllWithRetry\<close> hands the writer a prefix of the data, all of it when it reports success,
  in at most \<open>maxAttempts\<close> calls of \<open>Write\<close> per byte whatever the writer does; and it succeeds
  with every writer that never fails \<open>maxAttempts\<close> times in a row. (\<open>writeAll\<close>, without retries,
  keeps the first half of this with every writer that reports possible counts, and returns.)
\<close>

lemma write_retry_spec:
  assumes "writeAllWithRetry world data maxAttempts = (out, calls, r)"
  shows "prefix out data \<and> (r = Written \<longrightarrow> out = data)
    \<and> calls \<le> max 1 (nat maxAttempts) * length data
    \<and> (recovering_writer (max 1 (nat maxAttempts)) world \<longrightarrow> r = Written)
    \<and> (honest_writer world \<longrightarrow> (\<exists>out r. writeAll world 0 data = Some (out, r) \<and> prefix out data \<and> (r = Written \<longrightarrow> out = data)))"
proof -
  let ?M = "max 1 (nat maxAttempts)"
  have e: "retry_loop world ?M 0 0 data = (out, calls, r)"
  proof -
    have "(if maxAttempts \<le> 0 then 1 else nat maxAttempts) = ?M" by (simp add: max_def Suc_le_eq)
    with assms show ?thesis by (simp add: writeAllWithRetry_def)
  qed
  have "calls \<le> ?M * length data"
    using retry_loop_calls [of 0 ?M data world 0] e by (cases "data = []") simp_all
  moreover have "r = Written" if w: "recovering_writer ?M world"
  proof -
    from w obtain d where "d < ?M" "good_round world (0 + d)" unfolding recovering_writer_def by blast
    from recovering_written [OF w this, of 0 data] this e show ?thesis by simp
  qed
  ultimately show ?thesis using retry_loop_prefix [of world ?M 0 0 data] e writeAll_spec [of world 0 data] by simp
qed

definition flaky_writer :: "nat \<Rightarrow> string \<Rightarrow> write_round" where
  "flaky_writer k data = (if even k then \<lparr>wr_ctx = None, wr_n = 0, wr_err = Some ''EAGAIN'', wr_wait = None\<rparr>
     else \<lparr>wr_ctx = None, wr_n = min 2 (int (length data)), wr_err = None, wr_wait = None\<rparr>)"

lemma write_retry_spec_witness:
  "snd (snd (writeAllWithRetry flaky_writer ''hello'' 3)) = Written
    \<and> fst (snd (writeAllWithRetry flaky_writer ''hello'' 3)) \<le> 15"
proof -
  have "\<exists>d<3. good_round flaky_writer (k + d)" for k
  proof (cases "even k")
    case True
    then have "good_round flaky_writer (k + 1)" by (auto simp: good_round_def flaky_writer_def)
    then show ?thesis by (intro exI [of _ 1]) simp
  next
    case False
    then have "good_round flaky_writer (k + 0)" by (auto simp: good_round_def flaky_writer_def)
    then show ?thesis by (intro exI [of _ 0]) simp
  qed
  then have "recovering_writer (max 1 (nat 3)) flaky_writer"
    by (auto simp: recovering_writer_def honest_writer_def flaky_writer_def)
  moreover obtain out c r where e: "writeAllWithRetry flaky_writer ''hello'' 3 = (out, c, r)" by (metis prod_cases3)
  ultimately show ?thesis using write_retry_spec [OF e] e by simp
qed

end
