(* ===== verification/Utf8_Chunks.thy ===== *)
theory Utf8_Chunks
  imports Json
begin

text \<open>
  \<open>splitUTF8Chunks\<close> of \<open>internal/adapter/aiden.go\<close>: an input is cut into chunks of at most so
  many bytes, at rune boundaries. The loop works on the rest of the input.
\<close>

definition aidenInputChunkBytes :: nat where "aidenInputChunkBytes = 4 * 1024"

fun back_off :: "string \<Rightarrow> nat \<Rightarrow> nat" where
  "back_off s 0 = 0"
| "back_off s (Suc e) = (if Suc e < length s \<and> \<not> RuneStart (s ! Suc e) then back_off s e else Suc e)"

definition chunk_end :: "nat \<Rightarrow> string \<Rightarrow> nat" where
  "chunk_end maxBytes s =
     (let e = back_off s (min maxBytes (length s)) in if e = 0 then snd (DecodeRune s) else e)"

lemma back_off_le: "back_off s e \<le> e"
  by (induction e) auto

lemma back_off_boundary: "back_off s e = 0 \<or> length s \<le> back_off s e \<or> RuneStart (s ! back_off s e)"
  by (induction e) auto

lemma chunk_end_bounds: "s \<noteq> [] \<Longrightarrow> 0 < chunk_end m s \<and> chunk_end m s \<le> length s \<and> chunk_end m s \<le> max m 4"
  using DecodeRune_size [of s] back_off_le [of s "min m (length s)"] by (auto simp: chunk_end_def Let_def)

function chunks_loop :: "nat \<Rightarrow> string \<Rightarrow> string list" where
  "chunks_loop maxBytes s =
     (if s = [] then []
      else take (chunk_end maxBytes s) s # chunks_loop maxBytes (drop (chunk_end maxBytes s) s))"
  by pat_completeness auto
termination
  by (relation "measure (length \<circ> snd)") (use chunk_end_bounds in auto)

declare chunks_loop.simps [simp del]

definition splitUTF8Chunks :: "string \<Rightarrow> int \<Rightarrow> string list" where
  "splitUTF8Chunks input maxBytes =
     chunks_loop (if maxBytes \<le> 0 then aidenInputChunkBytes else nat maxBytes) input"

section \<open>Where valid UTF-8 may be cut\<close>

lemma ValidString_Nil [simp]: "ValidString []"
  by (simp add: ValidString_def)

lemma ValidString_split:
  assumes "s \<noteq> []"
  shows "ValidString s \<longleftrightarrow> \<not> bad_rune (DecodeRune s) \<and> ValidString (drop (snd (DecodeRune s)) s)"
proof -
  obtain c cs where s: "s = c # cs" using assms by (cases s) auto
  obtain r n where d: "DecodeRune s = (r, n)" by fastforce
  have n: "1 \<le> n" "n \<le> length s" using DecodeRune_size [OF assms] d by auto
  then have "rune_segs s = (r, take n s) # rune_segs (drop n s)"
    using d rune_segs.simps(2) [of c cs] unfolding s by (simp add: max_def)
  with d n show ?thesis by (auto simp: ValidString_def bad_rune_def min_def)
qed

lemma DecodeRune_take:
  assumes "s \<noteq> []" and "\<not> bad_rune (DecodeRune s)" and "snd (DecodeRune s) \<le> e"
  shows "DecodeRune (take e s) = DecodeRune s"
proof -
  obtain c cs where s: "s = c # cs" using assms(1) by (cases s) auto
  obtain k where e: "e = Suc k" using DecodeRune_size [OF assms(1)] assms(3) by (cases e) auto
  show ?thesis
  proof (cases "byte c < 0x80")
    case True
    then show ?thesis unfolding s e by (simp add: DecodeRune_ascii)
  next
    case False
    then have "0x80 \<le> byte c" by simp
    from assms(2) [unfolded s] this show ?thesis
    proof (cases rule: DecodeRune_good)
      case (two x t)
      then have "2 \<le> e" using assms(3) unfolding s by (simp add: DecodeRune_multi)
      then obtain j where "e = Suc (Suc j)" by (metis Suc_le_D numeral_2_eq_2 Suc_le_mono)
      with two show ?thesis unfolding s by (simp add: DecodeRune_multi)
    next
      case (three x y t)
      then have "3 \<le> e" using assms(3) unfolding s by (simp add: DecodeRune_multi)
      then obtain j where "e = Suc (Suc (Suc j))" by (metis Suc_le_D numeral_3_eq_3 Suc_le_mono)
      with three show ?thesis unfolding s by (simp add: DecodeRune_multi)
    next
      case (four x y z t)
      then have "4 \<le> e" using assms(3) unfolding s by (simp add: DecodeRune_multi)
      then have "e = Suc (Suc (Suc (Suc (e - 4))))" by simp
      then obtain j where "e = Suc (Suc (Suc (Suc j)))" by blast
      with four show ?thesis unfolding s by (simp add: DecodeRune_multi)
    qed
  qed
qed

lemma valid_cut:
  "ValidString s \<Longrightarrow> e \<le> length s \<Longrightarrow> e = length s \<or> RuneStart (s ! e) \<Longrightarrow> ValidString (take e s) \<and> ValidString (drop e s)"
proof (induction s arbitrary: e rule: length_induct)
  case (1 s)
  show ?case
  proof (cases "s = [] \<or> e = 0")
    case True
    with 1 show ?thesis by auto
  next
    case False
    let ?n = "snd (DecodeRune s)"
    have n: "1 \<le> ?n" "?n \<le> length s" using DecodeRune_size [of s] False by auto
    have good: "\<not> bad_rune (DecodeRune s)" and rest: "ValidString (drop ?n s)"
      using "1.prems"(1) ValidString_split [of s] False by auto
    have ne: "?n \<le> e"
    proof (rule ccontr)
      assume "\<not> ?n \<le> e"
      then have "is_cont (s ! e)" "e < length s" using DecodeRune_tail_cont [of e s] n False by auto
      with "1.prems"(3) show False by (auto simp: RuneStart_def)
    qed
    have "ValidString (take (e - ?n) (drop ?n s)) \<and> ValidString (drop (e - ?n) (drop ?n s))"
    proof (rule "1.IH" [rule_format])
      show "length (drop ?n s) < length s" using n False by simp
      show "ValidString (drop ?n s)" by (rule rest)
      show "e - ?n \<le> length (drop ?n s)" using "1.prems"(2) by simp
      show "e - ?n = length (drop ?n s) \<or> RuneStart (drop ?n s ! (e - ?n))" using "1.prems"(2,3) ne n by auto
    qed
    moreover have "drop ?n (take e s) = take (e - ?n) (drop ?n s)" by (simp add: drop_take)
    ultimately show ?thesis
      using False ne good DecodeRune_take [OF _ good ne] ValidString_split [of "take e s"] by auto
  qed
qed

section \<open>The chunks\<close>

lemma chunk_valid:
  assumes "ValidString s" and "s \<noteq> []"
  shows "ValidString (take (chunk_end m s) s) \<and> ValidString (drop (chunk_end m s) s)"
proof (rule valid_cut [OF assms(1)])
  show "chunk_end m s \<le> length s" using chunk_end_bounds [OF assms(2)] by simp
  show "chunk_end m s = length s \<or> RuneStart (s ! chunk_end m s)"
  proof (cases "back_off s (min m (length s)) = 0")
    case False
    then have e: "chunk_end m s = back_off s (min m (length s))" by (simp add: chunk_end_def)
    have "chunk_end m s \<le> length s" using chunk_end_bounds [OF assms(2)] by simp
    with False back_off_boundary [of s "min m (length s)"] show ?thesis unfolding e by (metis le_antisym)
  next
    case True
    let ?n = "snd (DecodeRune s)"
    have good: "ValidString (drop ?n s)" using assms ValidString_split by auto
    have "?n = length s \<or> RuneStart (s ! ?n)"
    proof (cases "drop ?n s")
      case Nil
      then show ?thesis using DecodeRune_size [OF assms(2)] by auto
    next
      case (Cons c t)
      with good have "\<not> bad_rune (DecodeRune (c # t))" using ValidString_split by fastforce
      then have "\<not> is_cont c" by (auto simp: bad_rune_def DecodeRune_def rune_len_def is_cont_def)
      moreover have "s ! ?n = c" using Cons by (metis hd_drop_conv_nth list.sel(1) list.discI drop_all not_le)
      ultimately show ?thesis by (simp add: RuneStart_def)
    qed
    with True show ?thesis by (simp add: chunk_end_def)
  qed
qed

lemma chunks_loop_spec:
  "concat (chunks_loop m s) = s
    \<and> (\<forall>c\<in>set (chunks_loop m s). c \<noteq> [] \<and> length c \<le> max m 4 \<and> (ValidString s \<longrightarrow> ValidString c))"
proof (induction m s rule: chunks_loop.induct)
  case (1 m s)
  show ?case
  proof (cases "s = []")
    case False
    from 1 [OF this] chunk_end_bounds [OF False, of m] chunk_valid [OF _ False, of m] False show ?thesis
      by (auto simp: chunks_loop.simps [of m s])
  qed (simp add: chunks_loop.simps)
qed

lemma chunks_concat: "concat (splitUTF8Chunks input m) = input"
  using chunks_loop_spec by (simp add: splitUTF8Chunks_def)

text \<open>
  C29: the chunks of an input, put together, are the input; none is empty, none is longer than the
  limit (or than one rune, where the limit is smaller than four bytes), and a valid UTF-8 input is
  never cut inside a rune: each chunk is valid UTF-8.
\<close>

theorem chunks_spec:
  "concat (splitUTF8Chunks input maxBytes) = input
    \<and> (\<forall>c\<in>set (splitUTF8Chunks input maxBytes).
         c \<noteq> [] \<and> length c \<le> max (if maxBytes \<le> 0 then aidenInputChunkBytes else nat maxBytes) 4
         \<and> (ValidString input \<longrightarrow> ValidString c))"
  unfolding splitUTF8Chunks_def by (rule chunks_loop_spec)

theorem chunks_spec_witness:
  "list_all (\<lambda>c. c \<noteq> [] \<and> length c \<le> 4 \<and> ValidString c) (splitUTF8Chunks ''hello'' 2)"
proof -
  have "ValidString ''hello''" by (rule ValidString_ascii) (simp add: byte_def)
  with chunks_spec [of "''hello''" 2] show ?thesis by (auto simp: list_all_iff)
qed

end
