(* ===== verification/Adapter_Contract.thy ===== *)
theory Adapter_Contract
  imports Adapter
begin

text \<open>
  What a worker relies on of an adapter (\<open>CliAdapter\<close> of \<open>internal/adapter/adapter.go\<close>), as two
  interfaces. An adapter that can be closed refuses every later start and input and is closed once
  for all; an adapter of a process starts at most one and kills it when it is closed. Besides
  \<open>Start\<close> and \<open>Close\<close> an adapter has other critical sections, which must leave this alone.
\<close>

datatype ('w, 'o) adapter_call = CallStart 'w | CallClose | CallSection 'o

text \<open>Calls in a row, and how many of the starts among them succeed.\<close>

fun adapter_act ::
  "('w \<Rightarrow> 'a \<Rightarrow> 'a \<times> (string + CliStartResult)) \<Rightarrow> ('a \<Rightarrow> 'a) \<Rightarrow> ('a \<Rightarrow> 'o \<Rightarrow> 'a) \<Rightarrow> 'a \<Rightarrow> ('w, 'o) adapter_call \<Rightarrow> 'a" where
  "adapter_act start close sect a (CallStart w) = fst (start w a)"
| "adapter_act start close sect a CallClose = close a"
| "adapter_act start close sect a (CallSection x) = sect a x"

fun adapter_starts ::
  "('w \<Rightarrow> 'a \<Rightarrow> 'a \<times> (string + CliStartResult)) \<Rightarrow> ('a \<Rightarrow> 'a) \<Rightarrow> ('a \<Rightarrow> 'o \<Rightarrow> 'a) \<Rightarrow> 'a \<Rightarrow> ('w, 'o) adapter_call list \<Rightarrow> nat" where
  "adapter_starts start close sect a [] = 0"
| "adapter_starts start close sect a (c # cs) =
     (case c of CallStart w \<Rightarrow> if isl (snd (start w a)) then 0 else 1 | _ \<Rightarrow> 0)
       + adapter_starts start close sect (adapter_act start close sect a c) cs"

text \<open>
  \<open>send\<close> gives what the tool gets and the error, or None when it does not return; \<open>closed\<close> is the
  adapter's own flag.
\<close>

locale closable_adapter =
  fixes start :: "'w \<Rightarrow> 'a \<Rightarrow> 'a \<times> (string + CliStartResult)"
    and send :: "'s \<Rightarrow> 'a \<Rightarrow> (string \<times> string option) option"
    and close :: "'a \<Rightarrow> 'a"
    and sect :: "'a \<Rightarrow> 'o \<Rightarrow> 'a"
    and closed :: "'a \<Rightarrow> bool"
  assumes start_closed: "closed a \<Longrightarrow> \<exists>e. start w a = (a, Inl e)"
    and start_open: "closed (fst (start w a)) = closed a"
    and send_closed: "closed a \<Longrightarrow> \<exists>e. send s a = Some ([], Some e)"
    and close_closes: "closed (close a)"
    and close_again: "closed a \<Longrightarrow> close a = a"
    and sect_closed: "closed (sect a x) = closed a"
begin

lemma act_closed: "closed (adapter_act start close sect a c) = (closed a \<or> c = CallClose)"
  by (cases c) (simp_all add: start_open close_closes sect_closed)

lemma run_closed: "closed (foldl (adapter_act start close sect) a cs) = (closed a \<or> CallClose \<in> set cs)"
  by (induction cs arbitrary: a) (auto simp: act_closed)

lemma closed_no_starts: "closed a \<Longrightarrow> adapter_starts start close sect a cs = 0"
proof (induction cs arbitrary: a)
  case (Cons c cs)
  have "closed (adapter_act start close sect a c)" using Cons.prems by (simp add: act_closed)
  with Cons.IH start_closed [OF Cons.prems] show ?case
    by (cases c) (auto, metis isl_def snd_conv)
qed simp

text \<open>After a close, whatever is called, nothing is started any more and no input reaches the tool.\<close>

lemma dead_after_close:
  assumes "CallClose \<in> set cs"
  shows "isl (snd (start w (foldl (adapter_act start close sect) a cs)))
    \<and> (\<exists>e. send s (foldl (adapter_act start close sect) a cs) = Some ([], Some e))"
proof -
  have c: "closed (foldl (adapter_act start close sect) a cs)" using assms by (simp add: run_closed)
  show ?thesis using start_closed [OF c, of w] send_closed [OF c, of s] by auto
qed

end

locale process_adapter = closable_adapter start send close sect closed
  for start :: "'w \<Rightarrow> 'a \<Rightarrow> 'a \<times> (string + CliStartResult)"
    and send :: "'s \<Rightarrow> 'a \<Rightarrow> (string \<times> string option) option"
    and close :: "'a \<Rightarrow> 'a"
    and sect :: "'a \<Rightarrow> 'o \<Rightarrow> 'a"
    and closed :: "'a \<Rightarrow> bool" +
  fixes started :: "'a \<Rightarrow> bool"
    and kills :: "'a \<Rightarrow> nat"
    and inv :: "'a \<Rightarrow> bool"
  assumes start_fails: "start w a = (a', Inl e) \<Longrightarrow> a' = a"
    and start_once: "started a \<Longrightarrow> \<exists>e. start w a = (a, Inl e)"
    and start_ok: "inv a \<Longrightarrow> start w a = (a', Inr r) \<Longrightarrow> started a' \<and> kills a' = kills a \<and> inv a'"
    and send_unstarted: "inv a \<Longrightarrow> \<not> started a \<Longrightarrow> \<exists>r. send s a = Some ([], r)"
    and close_kills: "inv a \<Longrightarrow> \<not> closed a \<Longrightarrow> kills (close a) = kills a + of_bool (started a)
        \<and> started (close a) = started a \<and> inv (close a)"
    and sect_keeps: "started (sect a x) = started a \<and> kills (sect a x) = kills a \<and> (inv a \<longrightarrow> inv (sect a x))"
begin

lemma kills_closed: "closed a \<Longrightarrow> kills (foldl (adapter_act start close sect) a cs) = kills a"
proof (induction cs arbitrary: a)
  case (Cons c cs)
  have "kills (adapter_act start close sect a c) = kills a"
    using start_closed [OF Cons.prems] close_again [OF Cons.prems] sect_keeps
    by (cases c) (auto, metis fst_conv)
  with Cons.IH [of "adapter_act start close sect a c"] Cons.prems show ?case by (simp add: act_closed)
qed simp

lemma started_no_starts:
  "started a \<Longrightarrow> inv a \<Longrightarrow> \<not> closed a \<Longrightarrow> adapter_starts start close sect a cs = 0
     \<and> kills (foldl (adapter_act start close sect) a cs) = kills a + of_bool (CallClose \<in> set cs)"
proof (induction cs arbitrary: a)
  case (Cons c cs)
  note a = Cons.prems
  show ?case
  proof (cases c)
    case (CallStart w)
    obtain e where "start w a = (a, Inl e)" using start_once [OF a(1), of w] by blast
    with Cons.IH [OF a] CallStart show ?thesis by simp
  next
    case CallClose
    with closed_no_starts [OF close_closes, of a cs] kills_closed [OF close_closes, of a cs] close_kills [OF a(2,3)] a(1)
    show ?thesis by simp
  next
    case (CallSection x)
    with Cons.IH [of "sect a x"] a sect_keeps [of a x] sect_closed [of a x] show ?thesis
      by simp
  qed
qed simp

text \<open>
  From an adapter that was not started: at most one start succeeds, and a process is killed exactly
  when one was started before the first close.
\<close>

lemma processes:
  "\<not> started a \<Longrightarrow> inv a \<Longrightarrow> \<not> closed a \<Longrightarrow> adapter_starts start close sect a cs \<le> 1
     \<and> kills (foldl (adapter_act start close sect) a cs)
         = kills a + of_bool (CallClose \<in> set cs) * adapter_starts start close sect a cs"
proof (induction cs arbitrary: a)
  case (Cons c cs)
  note a = Cons.prems
  show ?case
  proof (cases c)
    case (CallStart w)
    obtain a' r where s: "start w a = (a', r)" by fastforce
    show ?thesis
    proof (cases r)
      case (Inl e)
      with s start_fails [of w a a' e] Cons.IH [OF a] CallStart show ?thesis by simp
    next
      case (Inr res)
      from start_ok [OF a(2)] s Inr have a': "started a'" "kills a' = kills a" "inv a'" by auto
      have "\<not> closed a'" using start_open [of w a] s a(3) by simp
      from started_no_starts [OF a'(1,3) this, of cs] a'(2) s Inr CallStart show ?thesis
        by simp
    qed
  next
    case CallClose
    with closed_no_starts [OF close_closes, of a cs] kills_closed [OF close_closes, of a cs] close_kills [OF a(2,3)] a(1)
    show ?thesis by simp
  next
    case (CallSection x)
    with Cons.IH [of "sect a x"] a sect_keeps [of a x] sect_closed [of a x] show ?thesis
      by simp
  qed
qed simp

text \<open>No input reaches a tool before a start has succeeded.\<close>

lemma silent_before_start:
  "\<not> started a \<Longrightarrow> inv a \<Longrightarrow> \<not> closed a \<Longrightarrow> adapter_starts start close sect a cs = 0
     \<Longrightarrow> \<exists>r. send s (foldl (adapter_act start close sect) a cs) = Some ([], r)"
proof (induction cs arbitrary: a)
  case Nil
  then show ?case by (simp add: send_unstarted)
next
  case (Cons c cs)
  note a = Cons.prems
  show ?case
  proof (cases c)
    case (CallStart w)
    obtain a' r where s: "start w a = (a', r)" by fastforce
    with a(4) CallStart obtain e where "r = Inl e" by (cases r) auto
    with s start_fails [of w a a' e] have "start w a = (a, Inl e)" by simp
    with Cons.IH [OF a(1-3)] a(4) CallStart show ?thesis by simp
  next
    case CallClose
    have "closed (foldl (adapter_act start close sect) (close a) cs)" by (simp add: run_closed close_closes)
    from send_closed [OF this, of s] CallClose show ?thesis by auto
  next
    case (CallSection x)
    with Cons.IH [of "sect a x"] a sect_keeps [of a x] sect_closed [of a x] show ?thesis
      by simp
  qed
qed

end

end
