(* ===== verification/Aiden.thy ===== *)
theory Aiden
  imports Adapter_Io Utf8_Chunks Adapter_Contract
begin

text \<open>
  The Aiden adapter (\<open>internal/adapter/aiden.go\<close>): it types an input into the terminal of the tool
  in chunks and presses Enter until the tool prints something. The notification channels are
  numbers; \<open>closedChans\<close> lists the closed ones. \<open>look\<close> is \<open>exec.LookPath\<close>, \<open>pty\<close> the error of
  starting a command in a pseudo terminal, \<open>quote\<close> the verb \<open>%q\<close>.
\<close>

section \<open>The adapter and its start\<close>

record command =
  cm_bin :: string
  cm_args :: "string list"
  cm_dir :: string
  cm_env :: "string list"

definition terminal_env :: "string list \<Rightarrow> string list" where
  "terminal_env environ = environ @ [''TERM=xterm-256color'', ''LANG=en_US.UTF-8'', ''LC_ALL=en_US.UTF-8'']"

definition aidenChunkDelay :: duration where "aidenChunkDelay = 5 * Millisecond"
definition aidenSendDelay :: duration where "aidenSendDelay = 200 * Millisecond"
definition aidenWriteRetryAttempts :: int where "aidenWriteRetryAttempts = 3"
definition aidenWriteRetryDelay :: duration where "aidenWriteRetryDelay = 20 * Millisecond"
definition aidenMaxEnterAttempts :: int where "aidenMaxEnterAttempts = 3"
definition aidenEnterRetryDelay :: duration where "aidenEnterRetryDelay = 100 * Millisecond"
definition aidenConfirmTimeout :: duration where "aidenConfirmTimeout = 2 * Second"
definition aidenReadyDelay :: duration where "aidenReadyDelay = 6 * Second"

record AidenAdapter =
  aa_cmdPath :: string
  aa_model :: string
  aa_cmd :: "command option"
  aa_writer :: bool
  aa_closed :: bool
  aa_started :: bool
  aa_chunkBytes :: int
  aa_chunkDelay :: duration
  aa_sendDelay :: duration
  activitySeq :: u64
  activityNotify :: "chan option"
  aa_closedChans :: "chan list"
  aa_nextChan :: chan
  aa_writeRetryAttempts :: int
  aa_writeRetryDelay :: duration
  aa_maxEnterAttempts :: int
  aa_enterRetryDelay :: duration
  aa_confirmTimeout :: duration
  aa_kills :: nat

definition NewAidenAdapter :: "AdapterOptions \<Rightarrow> AidenAdapter" where
  "NewAidenAdapter opts =
     \<lparr>aa_cmdPath = (if ao_CliPath opts = [] then ''aiden'' else ao_CliPath opts),
      aa_model = ao_Model opts, aa_cmd = None, aa_writer = False, aa_closed = False, aa_started = False,
      aa_chunkBytes = int aidenInputChunkBytes, aa_chunkDelay = aidenChunkDelay, aa_sendDelay = aidenSendDelay,
      activitySeq = 0, activityNotify = Some 0, aa_closedChans = [], aa_nextChan = 1,
      aa_writeRetryAttempts = aidenWriteRetryAttempts, aa_writeRetryDelay = aidenWriteRetryDelay,
      aa_maxEnterAttempts = aidenMaxEnterAttempts, aa_enterRetryDelay = aidenEnterRetryDelay,
      aa_confirmTimeout = aidenConfirmTimeout, aa_kills = 0\<rparr>"

definition aiden_Name :: "AidenAdapter \<Rightarrow> string" where
  "aiden_Name a = ''aiden:'' @ aa_cmdPath a"

definition aiden_resolveBin :: "(string \<Rightarrow> string) \<Rightarrow> (string \<Rightarrow> string + string) \<Rightarrow> AidenAdapter \<Rightarrow> string + string" where
  "aiden_resolveBin quote look a =
     (if IsAbs (aa_cmdPath a) then Inr (aa_cmdPath a)
      else case look (aa_cmdPath a) of
        Inl e \<Rightarrow> Inl (''aiden binary '' @ quote (aa_cmdPath a) @ '' not found in PATH: '' @ e)
      | Inr p \<Rightarrow> Inr p)"

definition aiden_buildArgs :: "AidenAdapter \<Rightarrow> string list" where
  "aiden_buildArgs a = [''--permission-mode'', ''agentFull'']
     @ (if aa_model a \<noteq> [] then [''--model'', aa_model a] else [])"

definition aiden_Start ::
  "(string \<Rightarrow> string) \<Rightarrow> (string \<Rightarrow> string + string) \<Rightarrow> string list \<Rightarrow> (command \<Rightarrow> string option) \<Rightarrow> string
     \<Rightarrow> AidenAdapter \<Rightarrow> AidenAdapter \<times> (string + CliStartResult)" where
  "aiden_Start quote look environ pty workingDir a =
     (if aa_closed a then (a, Inl ''aiden adapter already closed'')
      else if aa_started a then (a, Inl ''aiden adapter already started'')
      else case aiden_resolveBin quote look a of
        Inl e \<Rightarrow> (a, Inl e)
      | Inr bin \<Rightarrow>
          let cmd = \<lparr>cm_bin = bin, cm_args = aiden_buildArgs a, cm_dir = workingDir, cm_env = terminal_env environ\<rparr> in
          (case pty cmd of
             Some e \<Rightarrow> (a, Inl (''pty start aiden: '' @ e))
           | None \<Rightarrow> (a\<lparr>aa_cmd := Some cmd, aa_writer := True, aa_started := True\<rparr>,
               Inr \<lparr>sr_hasReadyResult = False, sr_hasEvents = False, sr_StructuredOutput = False,
                    sr_ReadyDelay = aidenReadyDelay\<rparr>)))"

definition aiden_Close :: "AidenAdapter \<Rightarrow> AidenAdapter" where
  "aiden_Close a =
     (if aa_closed a then a
      else a\<lparr>aa_closed := True, aa_writer := False,
             aa_kills := (if aa_cmd a \<noteq> None then Suc (aa_kills a) else aa_kills a)\<rparr>)"

section \<open>Output notifications\<close>

definition NotifyOutput :: "AidenAdapter \<Rightarrow> AidenAdapter" where
  "NotifyOutput a =
     (let notify = activityNotify a;
          a = a\<lparr>activitySeq := activitySeq a + 1\<rparr>;
          a = a\<lparr>activityNotify := Some (aa_nextChan a), aa_nextChan := Suc (aa_nextChan a)\<rparr>
      in case notify of None \<Rightarrow> a | Some c \<Rightarrow> a\<lparr>aa_closedChans := c # aa_closedChans a\<rparr>)"

definition outputSubscription :: "AidenAdapter \<Rightarrow> AidenAdapter \<times> u64 \<times> chan" where
  "outputSubscription a =
     (case activityNotify a of
        Some c \<Rightarrow> (a, activitySeq a, c)
      | None \<Rightarrow>
          let c = aa_nextChan a
          in (a\<lparr>activityNotify := Some c, aa_nextChan := Suc c\<rparr>, activitySeq a, c))"

datatype output_wait = OutputNotified | OutputTimeout | OutputContext string

text \<open>\<open>waitForOutput\<close>, once its \<open>select\<close> has taken \<open>ev\<close>: an error, or whether output came.\<close>

definition waitForOutput :: "u64 \<Rightarrow> duration \<Rightarrow> output_wait \<Rightarrow> AidenAdapter \<Rightarrow> string + bool" where
  "waitForOutput baseline timeout ev a =
     (if timeout \<le> 0 then Inr True
      else case ev of
        OutputNotified \<Rightarrow> Inr (baseline < activitySeq a)
      | OutputTimeout \<Rightarrow> Inr False
      | OutputContext e \<Rightarrow> Inl e)"

section \<open>Sending an input\<close>

text \<open>
  What the world does in a \<open>Send\<close>: the writer's rounds and the wait after each chunk, the wait
  before the first Enter, and for each Enter the writer's rounds, what else happens to the adapter,
  how the wait for output ends, and the wait before the next.
\<close>

record send_world =
  sw_text :: "nat \<Rightarrow> nat \<Rightarrow> string \<Rightarrow> write_round"
  sw_textWait :: "nat \<Rightarrow> string option"
  sw_sendWait :: "string option"
  sw_enter :: "nat \<Rightarrow> nat \<Rightarrow> string \<Rightarrow> write_round"
  sw_env :: "nat \<Rightarrow> AidenAdapter \<Rightarrow> AidenAdapter"
  sw_event :: "nat \<Rightarrow> output_wait"
  sw_enterWait :: "nat \<Rightarrow> string option"

definition of_total :: "nat \<Rightarrow> nat \<Rightarrow> string" where
  "of_total i n = itoa (int i) @ ''/'' @ itoa (int n)"

fun send_chunks :: "send_world \<Rightarrow> AidenAdapter \<Rightarrow> nat \<Rightarrow> nat \<Rightarrow> string list \<Rightarrow> string \<times> string option" where
  "send_chunks w a cnt i [] = ([], None)"
| "send_chunks w a cnt i (chunk # chunks) =
     (case writeAllWithRetry (sw_text w i) chunk (aa_writeRetryAttempts a) of
        (out, _, WriteFails e) \<Rightarrow> (out, Some (''aiden write text chunk '' @ of_total (Suc i) cnt @ '': '' @ e))
      | (out, _, Written) \<Rightarrow>
          (case (if chunks \<noteq> [] then waitContext (sw_textWait w i) (aa_chunkDelay a) else None) of
             Some e \<Rightarrow> (out, Some e)
           | None \<Rightarrow> (case send_chunks w a cnt (Suc i) chunks of (out', r) \<Rightarrow> (out @ out', r))))"

text \<open>\<open>cf\<close> is the adapter when \<open>Send\<close> began: its settings are read then.\<close>

fun enter_loop :: "send_world \<Rightarrow> AidenAdapter \<Rightarrow> nat \<Rightarrow> nat \<Rightarrow> nat \<Rightarrow> AidenAdapter \<Rightarrow> AidenAdapter \<times> string \<times> string option" where
  "enter_loop w cf cnt attempt 0 a =
     (a, [], Some (''aiden submit not confirmed after '' @ itoa (int cnt) @ '' Enter attempts''))"
| "enter_loop w cf cnt attempt (Suc n) a =
     (case outputSubscription a of
        (a, seq, ch) \<Rightarrow>
          (case writeAllWithRetry (sw_enter w attempt) [CHR 0x0D] (aa_writeRetryAttempts cf) of
             (out, _, WriteFails e) \<Rightarrow> (a, out, Some (''aiden write enter attempt '' @ of_total attempt cnt @ '': '' @ e))
           | (out, _, Written) \<Rightarrow>
               let a = sw_env w attempt a in
               (case waitForOutput seq (aa_confirmTimeout cf) (sw_event w attempt) a of
                  Inl e \<Rightarrow> (a, out, Some e)
                | Inr True \<Rightarrow> (a, out, None)
                | Inr False \<Rightarrow>
                    (case (if attempt < cnt then waitContext (sw_enterWait w attempt) (aa_enterRetryDelay cf) else None) of
                       Some e \<Rightarrow> (a, out, Some e)
                     | None \<Rightarrow> (case enter_loop w cf cnt (Suc attempt) n a of (a, out', r) \<Rightarrow> (a, out @ out', r))))))"

text \<open>\<open>Send\<close>: the adapter, what the terminal got, and the error.\<close>

definition aiden_Send :: "send_world \<Rightarrow> string \<Rightarrow> AidenAdapter \<Rightarrow> AidenAdapter \<times> string \<times> string option" where
  "aiden_Send w input a =
     (if aa_closed a then (a, [], Some ''aiden adapter is closed'')
      else if \<not> aa_writer a then (a, [], Some ''aiden adapter not started'')
      else
        let normalized = normalizeAidenInput input in
        if TrimSpace normalized = [] then (a, [], None)
        else
          let chunks = splitUTF8Chunks normalized (aa_chunkBytes a) in
          (case send_chunks w a (length chunks) 0 chunks of
             (out, Some e) \<Rightarrow> (a, out, Some e)
           | (out, None) \<Rightarrow>
               (case waitContext (sw_sendWait w) (aa_sendDelay a) of
                  Some e \<Rightarrow> (a, out, Some e)
                | None \<Rightarrow>
                    let cnt = (if aa_maxEnterAttempts a \<le> 0 then 1 else nat (aa_maxEnterAttempts a)) in
                    (case enter_loop w a cnt 1 cnt a of (a, out', r) \<Rightarrow> (a, out @ out', r)))))"

text \<open>What the terminal gets is the start of the text followed by Enters.\<close>

lemma write_retry_written:
  assumes "writeAllWithRetry world data M = (out, c, r)"
  shows "prefix out data" "r = Written \<Longrightarrow> out = data"
  using retry_loop_prefix [of world "if M \<le> 0 then 1 else nat M" 0 0 data] assms
  by (simp_all add: writeAllWithRetry_def)

lemma send_chunks_prefix:
  "send_chunks w a cnt i chunks = (out, r) \<Longrightarrow> prefix out (concat chunks) \<and> (r = None \<longrightarrow> out = concat chunks)"
proof (induction w a cnt i chunks arbitrary: out r rule: send_chunks.induct)
  case (2 w a cnt i chunk chunks)
  obtain o1 c1 r1 where w1: "writeAllWithRetry (sw_text w i) chunk (aa_writeRetryAttempts a) = (o1, c1, r1)"
    by (metis prod_cases3)
  obtain o2 r2 where rec: "send_chunks w a cnt (Suc i) chunks = (o2, r2)" by fastforce
  show ?case
  proof (cases r1)
    case Written
    with write_retry_written [OF w1] have o1: "o1 = chunk" by simp
    show ?thesis
    proof (cases "if chunks \<noteq> [] then waitContext (sw_textWait w i) (aa_chunkDelay a) else None")
      case None
      from "2.IH" [OF w1 [symmetric] refl Written None rec] "2.prems" w1 rec Written None o1
      show ?thesis by auto
    next
      case (Some e)
      with "2.prems" w1 Written o1 show ?thesis by auto
    qed
  next
    case (WriteFails e)
    with "2.prems" w1 write_retry_written(1) [OF w1] show ?thesis by (auto intro: prefix_order.trans)
  qed
qed simp

lemma prefix_single: "prefix out [c] \<longleftrightarrow> out = [] \<or> out = [c]"
  by (cases out) auto

lemma enter_loop_spec:
  "enter_loop w cf cnt i n a = (a', out, r) \<Longrightarrow> \<exists>k\<le>n. out = replicate k (CHR 0x0D)
     \<and> (r = None \<longrightarrow> 1 \<le> k \<and> (aa_confirmTimeout cf \<le> 0 \<or> sw_event w (i + k - 1) = OutputNotified))"
proof (induction w cf cnt i n a arbitrary: a' out r rule: enter_loop.induct)
  case (2 w cf cnt i n a)
  obtain a1 q ch where sub: "outputSubscription a = (a1, q, ch)" by (metis prod_cases3)
  obtain o1 c1 r1 where w1: "writeAllWithRetry (sw_enter w i) [CHR 0x0D] (aa_writeRetryAttempts cf) = (o1, c1, r1)"
    by (metis prod_cases3)
  note o1 = write_retry_written [OF w1]
  let ?a = "sw_env w i a1"
  show ?case
  proof (cases r1)
    case (WriteFails e)
    with "2.prems" sub w1 have "out = o1" "r \<noteq> None" by auto
    with o1(1) show ?thesis
      by (auto simp: prefix_single intro: exI [of _ 0] exI [of _ "Suc 0"])
  next
    case Written
    then have oc: "o1 = [CHR 0x0D]" using o1(2) by simp
    have one: "out = o1 \<Longrightarrow> r = None \<longrightarrow> aa_confirmTimeout cf \<le> 0 \<or> sw_event w i = OutputNotified \<Longrightarrow> ?thesis"
      using oc by (intro exI [of _ "Suc 0"]) simp
    have yes: "waitForOutput q (aa_confirmTimeout cf) (sw_event w i) ?a = Inr True
        \<Longrightarrow> aa_confirmTimeout cf \<le> 0 \<or> sw_event w i = OutputNotified"
      by (auto simp: waitForOutput_def split: output_wait.splits if_splits)
    show ?thesis
    proof (cases "waitForOutput q (aa_confirmTimeout cf) (sw_event w i) ?a = Inr False
        \<and> (if i < cnt then waitContext (sw_enterWait w i) (aa_enterRetryDelay cf) else None) = None")
      case True
      obtain a2 o2 r2 where rec: "enter_loop w cf cnt (Suc i) n ?a = (a2, o2, r2)" by (metis prod_cases3)
      from "2.IH" [OF sub [symmetric] refl w1 [symmetric] refl Written refl] True rec
      obtain k where "k \<le> n" "o2 = replicate k (CHR 0x0D)"
        "r2 = None \<longrightarrow> 1 \<le> k \<and> (aa_confirmTimeout cf \<le> 0 \<or> sw_event w (Suc i + k - 1) = OutputNotified)" by blast
      moreover have "out = o1 @ o2 \<and> r = r2" using "2.prems" sub w1 Written True rec by auto
      ultimately show ?thesis using oc by (intro exI [of _ "Suc k"]) simp
    next
      case False
      with "2.prems" sub w1 Written show ?thesis
        using yes by (intro one) (auto simp: Let_def split: sum.splits bool.splits option.splits if_splits)
    qed
  qed
qed simp


definition sample_aiden :: AidenAdapter where
  "sample_aiden = fst (aiden_Start id (\<lambda>_. Inr ''/bin/aiden'') [] (\<lambda>_. None) ''/work''
     (NewAidenAdapter \<lparr>ao_CliType = ''aiden'', ao_CliPath = [], ao_Model = [], ao_Profile = [], ao_ResumeSessionID = []\<rparr>))"

definition prompt_terminal :: send_world where
  "prompt_terminal =
     \<lparr>sw_text = (\<lambda>_ _ data. \<lparr>wr_ctx = None, wr_n = int (length data), wr_err = None, wr_wait = None\<rparr>),
      sw_textWait = (\<lambda>_. None), sw_sendWait = None,
      sw_enter = (\<lambda>_ _ data. \<lparr>wr_ctx = None, wr_n = int (length data), wr_err = None, wr_wait = None\<rparr>),
      sw_env = (\<lambda>i a. if i = 2 then NotifyOutput a else a),
      sw_event = (\<lambda>i. if i = 2 then OutputNotified else OutputTimeout), sw_enterWait = (\<lambda>_. None)\<rparr>"


section \<open>No lost notification\<close>

datatype note_op = Notify | Subscribe

fun note_step :: "AidenAdapter \<Rightarrow> note_op \<Rightarrow> AidenAdapter" where
  "note_step a Notify = NotifyOutput a"
| "note_step a Subscribe = fst (outputSubscription a)"

definition notes_inv :: "AidenAdapter \<Rightarrow> bool" where
  "notes_inv a \<longleftrightarrow> (\<forall>c\<in>set (aa_closedChans a). c < aa_nextChan a \<and> activityNotify a \<noteq> Some c)
     \<and> (\<forall>c. activityNotify a = Some c \<longrightarrow> c < aa_nextChan a)"

lemma notes_inv_new: "notes_inv (NewAidenAdapter opts)"
  by (simp add: notes_inv_def NewAidenAdapter_def)

lemma notes_inv_step: "notes_inv a \<Longrightarrow> notes_inv (note_step a op)"
  by (cases op) (auto simp: notes_inv_def NotifyOutput_def outputSubscription_def Let_def less_Suc_eq split: option.split)

definition waiting_for :: "chan \<Rightarrow> u64 \<Rightarrow> nat \<Rightarrow> bool \<Rightarrow> AidenAdapter \<Rightarrow> bool" where
  "waiting_for ch baseline n noted a \<longleftrightarrow> notes_inv a \<and> ch < aa_nextChan a
     \<and> (if noted then ch \<in> set (aa_closedChans a) \<and> (\<exists>k. 1 \<le> k \<and> k \<le> n \<and> activitySeq a = baseline + of_nat k)
        else activityNotify a = Some ch \<and> ch \<notin> set (aa_closedChans a) \<and> activitySeq a = baseline)"

lemma waiting_step:
  "waiting_for ch q n noted a \<Longrightarrow> waiting_for ch q (Suc n) (noted \<or> op = Notify) (note_step a op)"
proof -
  assume w: "waiting_for ch q n noted a"
  then have inv: "notes_inv (note_step a op)" by (simp add: waiting_for_def notes_inv_step)
  show ?thesis
  proof (cases op)
    case Subscribe
    have "\<exists>k. 1 \<le> k \<and> k \<le> n \<and> activitySeq a = q + of_nat k \<Longrightarrow> \<exists>k. 1 \<le> k \<and> k \<le> Suc n \<and> activitySeq a = q + of_nat k"
      by (metis le_SucI)
    with Subscribe w inv show ?thesis
      by (simp add: waiting_for_def outputSubscription_def Let_def split: option.splits if_splits)
  next
    case Notify
    have "\<exists>k'. 1 \<le> k' \<and> k' \<le> Suc n \<and> q + of_nat k + 1 = q + of_nat k'" if "k \<le> n" for k
      using that by (intro exI [of _ "Suc k"]) simp
    from this [of 0] this Notify w inv show ?thesis
      by (auto simp: waiting_for_def NotifyOutput_def Let_def split: option.splits if_splits)
  qed
qed

lemma waiting_run:
  "waiting_for ch q n noted a \<Longrightarrow> waiting_for ch q (n + length ops) (noted \<or> Notify \<in> set ops) (foldl note_step a ops)"
proof (induction ops arbitrary: a n noted)
  case (Cons op ops)
  have "(noted \<or> op = Notify) \<or> Notify \<in> set ops \<longleftrightarrow> noted \<or> Notify \<in> set (op # ops)" by auto
  with Cons.IH [OF waiting_step [OF Cons.prems, of op]] show ?case by simp
qed simp

lemma subscription_waits:
  assumes "notes_inv a" and "outputSubscription a = (a1, q, ch)"
  shows "waiting_for ch q 0 False a1"
  using assms by (auto simp: waiting_for_def notes_inv_def outputSubscription_def Let_def less_Suc_eq split: option.splits)

section \<open>The contract of an adapter\<close>

definition aiden_inv :: "AidenAdapter \<Rightarrow> bool" where
  "aiden_inv a \<longleftrightarrow> (aa_cmd a \<noteq> None \<longleftrightarrow> aa_started a) \<and> (aa_writer a \<longrightarrow> aa_started a)"

definition aiden_start_call ::
  "(string \<Rightarrow> string) \<times> (string \<Rightarrow> string + string) \<times> string list \<times> (command \<Rightarrow> string option) \<times> string
     \<Rightarrow> AidenAdapter \<Rightarrow> AidenAdapter \<times> (string + CliStartResult)" where
  "aiden_start_call w = (case w of (quote, look, environ, pty, dir) \<Rightarrow> aiden_Start quote look environ pty dir)"

definition aiden_send_call :: "send_world \<times> string \<Rightarrow> AidenAdapter \<Rightarrow> (string \<times> string option) option" where
  "aiden_send_call s a = Some (snd (aiden_Send (fst s) (snd s) a))"

interpretation aiden_contract: process_adapter aiden_start_call aiden_send_call aiden_Close note_step aa_closed aa_started aa_kills aiden_inv
proof
  fix a x
  show "aa_closed (note_step a x) = aa_closed a"
    by (cases x) (simp_all add: NotifyOutput_def outputSubscription_def Let_def split: option.split)
  show "aa_started (note_step a x) = aa_started a \<and> aa_kills (note_step a x) = aa_kills a \<and> (aiden_inv a \<longrightarrow> aiden_inv (note_step a x))"
    by (cases x) (simp_all add: NotifyOutput_def outputSubscription_def aiden_inv_def Let_def split: option.split)
qed (auto simp: aiden_start_call_def aiden_Start_def aiden_Close_def aiden_send_call_def aiden_Send_def aiden_inv_def Let_def
    split: sum.splits option.splits if_splits)

section \<open>Waiting for output\<close>

lemma notes_inv_act: "notes_inv a \<Longrightarrow> notes_inv (adapter_act aiden_start_call aiden_Close note_step a c)"
proof (cases c)
  case (CallStart w)
  then show "notes_inv a \<Longrightarrow> ?thesis"
    by (cases w) (auto simp: aiden_start_call_def aiden_Start_def notes_inv_def Let_def split: sum.split option.split)
qed (simp_all add: notes_inv_step aiden_Close_def, simp_all add: notes_inv_def)

lemma notes_inv_reached: "notes_inv (foldl (adapter_act aiden_start_call aiden_Close note_step) (NewAidenAdapter opts) calls)"
proof -
  have "notes_inv a \<Longrightarrow> notes_inv (foldl (adapter_act aiden_start_call aiden_Close note_step) a calls)" for a
    by (induction calls arbitrary: a) (simp_all add: notes_inv_act)
  then show ?thesis using notes_inv_new by blast
qed

text \<open>
  C31: output is never missed, and never imagined. Take any adapter as it is after its creation and any
  calls, and subscribe; whatever notifications and further subscriptions follow, the channel the
  subscription gave is closed exactly when output was notified since, and then the wait on it confirms
  (as long as fewer than \<open>2 ^ 64\<close> notifications were ever counted).
\<close>

theorem output_confirmed_exactly:
  assumes "a = foldl (adapter_act aiden_start_call aiden_Close note_step) (NewAidenAdapter opts) calls"
    and "outputSubscription a = (a1, baseline, ch)" and "a' = foldl note_step a1 ops"
    and "unat baseline + length ops < 2 ^ 64"
  shows "(ch \<in> set (aa_closedChans a') \<longleftrightarrow> Notify \<in> set ops)
    \<and> (Notify \<in> set ops \<longrightarrow> waitForOutput baseline timeout OutputNotified a' = Inr True)"
proof -
  have "notes_inv a" unfolding assms(1) by (rule notes_inv_reached)
  then have w: "waiting_for ch baseline (length ops) (Notify \<in> set ops) a'"
    using waiting_run [OF subscription_waits [OF _ assms(2)], of ops] by (simp add: assms(3))
  have "baseline < activitySeq a'" if "Notify \<in> set ops"
  proof -
    from w that obtain k where k: "1 \<le> k" "k \<le> length ops" "activitySeq a' = baseline + of_nat k"
      by (auto simp: waiting_for_def)
    then have "unat (activitySeq a') = unat baseline + k" using unat_add_small [of baseline k] assms(4) by simp
    with k show ?thesis by (simp add: word_less_nat_alt)
  qed
  with w show ?thesis by (auto simp: waiting_for_def waitForOutput_def split: if_splits)
qed

theorem output_confirmed_exactly_witness:
  "waitForOutput 1 aidenConfirmTimeout OutputNotified
     (foldl note_step (fst (outputSubscription (NotifyOutput sample_aiden))) [Notify, Subscribe]) = Inr True"
proof -
  let ?calls = "[CallStart (id, \<lambda>_. Inr ''/bin/aiden'', [], \<lambda>_. None, ''/work''), CallSection Notify]"
  let ?opts = "\<lparr>ao_CliType = ''aiden'', ao_CliPath = [], ao_Model = [], ao_Profile = [], ao_ResumeSessionID = []\<rparr>"
  have a: "NotifyOutput sample_aiden = foldl (adapter_act aiden_start_call aiden_Close note_step) (NewAidenAdapter ?opts) ?calls"
    by (simp add: sample_aiden_def aiden_start_call_def)
  have s: "outputSubscription (NotifyOutput sample_aiden) = (fst (outputSubscription (NotifyOutput sample_aiden)), 1, 1)"
    by code_simp
  from output_confirmed_exactly [OF a s refl, of "[Notify, Subscribe]"] show ?thesis by simp
qed

end
