(* ===== verification/Codex_Screen.thy ===== *)
theory Codex_Screen
  imports Tui_Screen
begin

text \<open>
  How the Codex adapter sees that the tool is ready for input (\<open>internal/adapter/codex.go\<close>): it
  keeps the newest bytes of the terminal, takes out the control sequences, and looks for the
  prompt of the composer.
\<close>

section \<open>Control sequences\<close>

fun skip_csi :: "string \<Rightarrow> string" where
  "skip_csi [] = []"
| "skip_csi (b # bs) = (if csi_final b then bs else skip_csi bs)"

fun skip_osc :: "string \<Rightarrow> string" where
  "skip_osc [] = []"
| "skip_osc (b # bs) =
     (if b = BEL then bs
      else if b = ESC \<and> bs \<noteq> [] \<and> hd bs = CHR 0x5C then tl bs
      else skip_osc bs)"

lemma skip_shorter: "length (skip_csi s) \<le> length s" "length (skip_osc s) \<le> length s"
  by (induction s) auto

function stripCodexANSI :: "string \<Rightarrow> string" where
  "stripCodexANSI [] = []"
| "stripCodexANSI (c # cs) =
     (if c \<noteq> ESC then c # stripCodexANSI cs
      else
        (case cs of
           [] \<Rightarrow> []
         | d # ds \<Rightarrow>
             if d = CHR ''['' then stripCodexANSI (skip_csi ds)
             else if d = CHR '']'' then stripCodexANSI (skip_osc ds)
             else stripCodexANSI ds))"
  by pat_completeness auto
termination
  by (relation "measure length") (auto simp: le_imp_less_Suc le_SucI skip_shorter)

declare stripCodexANSI.simps(2) [simp del]

definition codex_plain :: "char \<Rightarrow> bool" where
  "codex_plain c = (c \<noteq> ESC)"

interpretation codex_screen: ansi_filter stripCodexANSI codex_plain
proof unfold_locales
  show "list_all codex_plain (stripCodexANSI s)" for s
  proof (induction s rule: length_induct)
    case (1 s)
    show ?case
    proof (cases s)
      case (Cons c cs)
      have IH: "length t \<le> length cs \<Longrightarrow> list_all codex_plain (stripCodexANSI t)" for t
        using 1 Cons by simp
      show ?thesis
      proof (cases "c = ESC")
        case True
        show ?thesis
          using IH unfolding Cons stripCodexANSI.simps(2) [of c cs]
          by (simp add: True le_SucI skip_shorter split: list.split)
      next
        case False
        then have "codex_plain c" by (simp add: codex_plain_def)
        with IH [of cs] False show ?thesis
          unfolding Cons stripCodexANSI.simps(2) [of c cs] by simp
      qed
    qed simp
  qed
  show "list_all codex_plain s \<Longrightarrow> stripCodexANSI s = s" for s
    by (induction s) (auto simp: stripCodexANSI.simps(2) codex_plain_def)
  show "\<not> codex_plain ESC" by (simp add: codex_plain_def)
qed

section \<open>The prompt of the composer\<close>

definition chevron :: string where "chevron = [CHR 0xE2, CHR 0x80, CHR 0xBA]"

text \<open>A numbered option of a menu: a digit, and a dot in the first eight bytes.\<close>

definition menu_option :: "string \<Rightarrow> bool" where
  "menu_option t = (2 \<le> length t \<and> is_digit (hd t) \<and> Contains (take (min (length t) 8) t) ''.'')"

definition after_chevron :: "string \<Rightarrow> string" where
  "after_chevron t = TrimLeft t [CHR '' '', CHR 0x09]"

function composer_loop :: "string \<Rightarrow> bool" where
  "composer_loop rest =
     (case Index rest chevron of
        None \<Rightarrow> False
      | Some i \<Rightarrow>
          let after = after_chevron (drop (i + length chevron) rest)
          in if \<not> menu_option after then True else composer_loop after)"
  by pat_completeness auto

lemma length_after_chevron: "length (after_chevron t) \<le> length t"
  by (simp add: after_chevron_def TrimLeft_def length_dropWhile_le)

termination composer_loop
proof (relation "measure length")
  fix rest i after
  assume i: "Index rest chevron = Some i" and a: "after = after_chevron (drop (i + length chevron) rest)"
  have "i + 3 \<le> length rest" using Index_Some [OF i] by (simp add: chevron_def)
  moreover have "length after \<le> length rest - (i + 3)"
    using length_after_chevron [of "drop (i + length chevron) rest"] by (simp add: a chevron_def)
  ultimately have "length after < length rest" by linarith
  then show "(after, rest) \<in> measure length" by simp
qed simp

declare composer_loop.simps [simp del]

definition codexComposerReady :: "string \<Rightarrow> bool" where
  "codexComposerReady screen =
     (if Contains screen ''Resuming session'' \<or> Contains screen ''model: loading''
         \<or> Contains screen ''Welcome to Codex'' \<or> Contains screen ''Sign in with'' then False
      else if Contains screen ''% left'' then True
      else composer_loop screen)"

text \<open>The search finds a prompt exactly when some chevron is not followed by a menu option.\<close>

lemma Index_first: "Index s sub = Some i \<Longrightarrow> j < i \<Longrightarrow> \<not> prefix sub (drop j s)"
proof (induction s arbitrary: i j)
  case (Cons c cs)
  then show ?case by (cases j) (auto split: if_splits)
qed (simp split: if_splits)

lemma chevron_twice:
  assumes "prefix chevron (drop i s)" and "prefix chevron (drop j s)" and "i < j"
  shows "i + length chevron \<le> j"
proof (rule ccontr)
  assume "\<not> i + length chevron \<le> j"
  with assms(3) have "j = i + 1 \<or> j = i + 2" by (auto simp: chevron_def)
  then have "j - i = 1 \<or> j - i = 2" by auto
  moreover obtain t where t: "drop i s = chevron @ t" using assms(1) by (auto simp: prefix_def)
  moreover have "drop j s = drop (j - i) (drop i s)" using assms(3) by simp
  ultimately show False using assms(2) by (auto simp: chevron_def)
qed

lemma composer_loop_iff:
  "composer_loop s \<longleftrightarrow> (\<exists>j. prefix chevron (drop j s) \<and> \<not> menu_option (after_chevron (drop (j + length chevron) s)))"
proof (induction s rule: composer_loop.induct)
  case (1 s)
  show ?case
  proof (cases "Index s chevron")
    case None
    have "\<not> prefix chevron (drop j s)" for j
    proof
      assume "prefix chevron (drop j s)"
      then obtain t where "s = take j s @ chevron @ t" by (metis append_take_drop_id prefixE)
      then have "Contains s chevron" by (metis Contains_append)
      with None show False by (simp add: Contains_def)
    qed
    with None show ?thesis by (simp add: composer_loop.simps [of s])
  next
    case (Some i)
    let ?t = "drop (i + length chevron) s"
    have at: "prefix chevron (drop i s)"
      using Index_Some [OF Some] by (metis take_is_prefix)
    show ?thesis
    proof (cases "menu_option (after_chevron ?t)")
      case False
      with Some at show ?thesis by (auto simp: composer_loop.simps [of s] Let_def)
    next
      case True
      obtain sp where sp: "?t = sp @ after_chevron ?t" "set sp \<subseteq> {CHR '' '', CHR 0x09}"
      proof
        show "?t = takeWhile (\<lambda>c. c \<in> set [CHR '' '', CHR 0x09]) ?t @ after_chevron ?t"
          by (simp add: after_chevron_def TrimLeft_def)
        show "set (takeWhile (\<lambda>c. c \<in> set [CHR '' '', CHR 0x09]) ?t) \<subseteq> {CHR '' '', CHR 0x09}"
          by (auto dest: set_takeWhileD)
      qed
      define u where "u = after_chevron ?t"
      define k where "k = i + length chevron + length sp"
      have u: "drop (k + m) s = drop m u" for m
      proof -
        have "drop (k + m) s = drop (length sp + m) ?t" by (simp add: k_def add_ac)
        then show ?thesis by (subst (asm) sp(1)) (simp add: u_def)
      qed
      have none: "\<not> prefix chevron (drop j s)" if ij: "i < j" and jk: "j < k" for j
      proof
        assume p: "prefix chevron (drop j s)"
        with at ij have "i + length chevron \<le> j" by (metis chevron_twice)
        then obtain m where m: "j = i + length chevron + m" "m < length sp" using jk by (auto simp: k_def le_iff_add)
        then have "drop j s = drop m ?t" by (simp add: add.commute)
        also have "\<dots> = drop m sp @ u" by (subst sp(1)) (use m(2) in \<open>simp add: u_def\<close>)
        also have "\<dots> = sp ! m # (drop (Suc m) sp @ u)" using m(2) by (simp add: Cons_nth_drop_Suc)
        finally have "sp ! m = CHR 0xE2" using p by (simp add: chevron_def)
        moreover have "sp ! m \<in> {CHR '' '', CHR 0x09}" using m(2) sp(2) by (meson nth_mem subsetD)
        ultimately show False by auto
      qed
      have "composer_loop s \<longleftrightarrow> composer_loop u"
        using Some True by (simp add: composer_loop.simps [of s] u_def Let_def)
      also have "\<dots> \<longleftrightarrow> (\<exists>m. prefix chevron (drop m u) \<and> \<not> menu_option (after_chevron (drop (m + length chevron) u)))"
        using 1 [OF Some refl] True by (simp add: u_def)
      also have "\<dots> \<longleftrightarrow> (\<exists>j. prefix chevron (drop j s) \<and> \<not> menu_option (after_chevron (drop (j + length chevron) s)))"
        (is "?L \<longleftrightarrow> ?R")
      proof
        assume ?L
        then obtain m where m: "prefix chevron (drop m u)" "\<not> menu_option (after_chevron (drop (m + length chevron) u))" by blast
        have "prefix chevron (drop (k + m) s)" using m(1) u [of m] by simp
        moreover have "drop (k + m + length chevron) s = drop (m + length chevron) u"
          using u [of "m + length chevron"] by (simp add: add.assoc)
        ultimately show ?R using m(2) by metis
      next
        assume ?R
        then obtain j where j: "prefix chevron (drop j s)" "\<not> menu_option (after_chevron (drop (j + length chevron) s))" by blast
        have "\<not> j < i" using Index_first [OF Some] j(1) by blast
        moreover have "j \<noteq> i" using j(2) True by auto
        ultimately have "k \<le> j" using none [of j] j(1) by (meson linorder_neqE_nat not_le)
        then obtain m where m: "j = k + m" by (auto simp: le_iff_add)
        have "prefix chevron (drop m u)" using j(1) u [of m] m by simp
        moreover have "drop (j + length chevron) s = drop (m + length chevron) u"
          using u [of "m + length chevron"] m by (simp add: add.assoc)
        ultimately show ?L using j(2) by metis
      qed
      finally show ?thesis .
    qed
  qed
qed

section \<open>The screen buffer\<close>

definition codexScreenBufferBytes :: nat where "codexScreenBufferBytes = 16 * 1024"

definition push_screen :: "string \<Rightarrow> string \<Rightarrow> string" where
  "push_screen screen chunk = keep_last codexScreenBufferBytes (screen @ chunk)"

lemma screen_of_chunks:
  "foldl push_screen (keep_last codexScreenBufferBytes s) chunks = keep_last codexScreenBufferBytes (s @ concat chunks)"
proof (induction chunks arbitrary: s)
  case (Cons c chunks)
  have "push_screen (keep_last codexScreenBufferBytes s) c = keep_last codexScreenBufferBytes (s @ c)"
    by (simp add: push_screen_def keep_last_append_keep_last)
  with Cons.IH [of "s @ c"] show ?case by simp
qed simp

end
