(* ===== verification/Codex_Files.thy ===== *)
theory Codex_Files
  imports Adapter Config Protocol_Codec
begin

text \<open>
  The two files the Codex adapter follows: the history, in which an input it typed appears with
  the id of its session (\<open>codex_history.go\<close>), and the transcript of that session, which tells how
  the turn ends (\<open>codex_transcript.go\<close>). A file is its bytes when it is read; both files only grow
  while they are followed, line by line.
\<close>

section \<open>Where the files are\<close>

definition codexHome :: "os_env \<Rightarrow> string" where
  "codexHome os =
     (if Getenv os ''CODEX_HOME'' \<noteq> [] then Getenv os ''CODEX_HOME''
      else case UserHomeDir os of None \<Rightarrow> ''.codex'' | Some home \<Rightarrow> path_join home ''.codex'')"

definition codexHistoryPath :: "os_env \<Rightarrow> string" where
  "codexHistoryPath os = path_join (codexHome os) ''history.jsonl''"

text \<open>\<open>stat\<close> gives the size of a file, \<open>None\<close> an error.\<close>

definition currentFileSize :: "(string \<Rightarrow> int option) \<Rightarrow> string \<Rightarrow> int" where
  "currentFileSize stat path = (case stat path of None \<Rightarrow> 0 | Some n \<Rightarrow> n)"

text \<open>The adapter and the profile check look in the same directory.\<close>

lemma same_codex_home: "codexHome os = CodexHome os"
  by (simp add: codexHome_def CodexHome_def Let_def)

section \<open>Complete lines\<close>

text \<open>
  Both readers take what ends in a line feed: up to the last one, split at the others. \<open>None\<close> when
  there is none.
\<close>

definition last_newline :: "string \<Rightarrow> nat option" where
  "last_newline s =
     (if CHR 0x0A \<in> set s then Some (length s - Suc (length (takeWhile (\<lambda>c. c \<noteq> CHR 0x0A) (rev s)))) else None)"

definition complete_lines :: "string \<Rightarrow> string list" where
  "complete_lines s = (case last_newline s of None \<Rightarrow> [] | Some i \<Rightarrow> split_byte (CHR 0x0A) (take i s))"

definition complete_length :: "string \<Rightarrow> nat" where
  "complete_length s = (case last_newline s of None \<Rightarrow> 0 | Some i \<Rightarrow> Suc i)"

lemma last_newline_append:
  "CHR 0x0A \<notin> set t \<Longrightarrow> last_newline (s @ CHR 0x0A # t) = Some (length s)"
proof -
  assume t: "CHR 0x0A \<notin> set t"
  then have "takeWhile (\<lambda>c. c \<noteq> CHR 0x0A) (rev t @ CHR 0x0A # rev s) = rev t"
    by (subst takeWhile_append2) auto
  then show ?thesis by (simp add: last_newline_def)
qed

lemma newline_split: "CHR 0x0A \<notin> set s \<or> (\<exists>a t. s = a @ CHR 0x0A # t \<and> CHR 0x0A \<notin> set t)"
  using split_list_last [of "CHR 0x0A" s] by auto

lemma complete_none: "CHR 0x0A \<notin> set s \<Longrightarrow> complete_lines s = [] \<and> complete_length s = 0"
  by (simp add: complete_lines_def complete_length_def last_newline_def)

lemma complete_some:
  "CHR 0x0A \<notin> set t \<Longrightarrow> complete_lines (a @ CHR 0x0A # t) = split_byte (CHR 0x0A) a
     \<and> complete_length (a @ CHR 0x0A # t) = Suc (length a)"
  by (simp add: complete_lines_def complete_length_def last_newline_append)

lemma split_byte_glue: "split_byte c (a @ c # b) = split_byte c a @ split_byte c b"
proof (induction a)
  case (Cons x a)
  then show ?case by (cases "split_byte c a") simp_all
qed simp

text \<open>More bytes after a line feed do not change the lines before it.\<close>

lemma complete_lines_glue:
  "complete_lines (a @ CHR 0x0A # b) = split_byte (CHR 0x0A) a @ complete_lines b"
proof (cases "CHR 0x0A \<in> set b")
  case False
  then show ?thesis by (simp add: complete_some complete_none)
next
  case True
  with newline_split [of b] obtain c t where b: "b = c @ CHR 0x0A # t" "CHR 0x0A \<notin> set t" by auto
  have "complete_lines ((a @ CHR 0x0A # c) @ CHR 0x0A # t) = split_byte (CHR 0x0A) (a @ CHR 0x0A # c)"
    using complete_some [OF b(2)] by blast
  then show ?thesis using complete_some [OF b(2), of c] b(1) by (simp add: split_byte_glue)
qed

lemma complete_lines_split:
  "complete_lines (s @ t) = complete_lines s @ complete_lines (drop (complete_length s) s @ t)"
proof (cases "CHR 0x0A \<in> set s")
  case True
  with newline_split [of s] obtain a r where s: "s = a @ CHR 0x0A # r" "CHR 0x0A \<notin> set r" by auto
  have "complete_lines (s @ t) = split_byte (CHR 0x0A) a @ complete_lines (r @ t)"
    using complete_lines_glue [of a "r @ t"] s(1) by simp
  with complete_some [OF s(2), of a] s(1) show ?thesis by simp
qed (simp add: complete_none)

lemma complete_length_le: "complete_length s \<le> length s"
  using newline_split [of s] complete_some complete_none by fastforce

lemma complete_length_split:
  "complete_length (s @ t) = complete_length s + complete_length (drop (complete_length s) s @ t)"
proof (cases "CHR 0x0A \<in> set s")
  case True
  with newline_split [of s] obtain a r where s: "s = a @ CHR 0x0A # r" "CHR 0x0A \<notin> set r" by auto
  have d: "drop (complete_length s) s @ t = r @ t" "complete_length s = Suc (length a)"
    using complete_some [OF s(2), of a] s(1) by simp_all
  show ?thesis
  proof (cases "CHR 0x0A \<in> set (r @ t)")
    case False
    then show ?thesis using complete_some [OF False, of a] complete_none [OF False] d s(1) by simp
  next
    case True
    with newline_split [of "r @ t"] obtain b u where rt: "r @ t = b @ CHR 0x0A # u" "CHR 0x0A \<notin> set u" by auto
    have "s @ t = (a @ CHR 0x0A # b) @ CHR 0x0A # u" using s(1) rt(1) by simp
    then have "complete_length (s @ t) = Suc (length (a @ CHR 0x0A # b))"
      using complete_some [OF rt(2)] by metis
    with d complete_some [OF rt(2), of b] rt(1) show ?thesis by simp
  qed
qed (simp add: complete_none)

section \<open>The history\<close>

definition codexHistoryTextMatches :: "string \<Rightarrow> string \<Rightarrow> bool" where
  "codexHistoryTextMatches actual expected = (normalizeCodexInput actual = normalizeCodexInput expected)"

record codexHistoryEntry =
  he_SessionID :: string
  he_Text :: string

definition history_fields :: "codexHistoryEntry field list" where
  "history_fields =
     [(''session_id'', string_field (\<lambda>s e. e\<lparr>he_SessionID := s\<rparr>)),
      (''text'', string_field (\<lambda>s e. e\<lparr>he_Text := s\<rparr>))]"

definition history_entry :: "string \<Rightarrow> codexHistoryEntry option" where
  "history_entry line = unmarshal history_fields \<lparr>he_SessionID = [], he_Text = []\<rparr> line"

fun match_lines :: "string \<Rightarrow> (string \<Rightarrow> bool) option \<Rightarrow> string list \<Rightarrow> string option" where
  "match_lines expected accept [] = None"
| "match_lines expected accept (line # ls) =
     (case history_entry line of
        None \<Rightarrow> match_lines expected accept ls
      | Some entry \<Rightarrow>
          if \<not> codexHistoryTextMatches (he_Text entry) expected then match_lines expected accept ls
          else if accept \<noteq> None \<and> \<not> the accept (he_SessionID entry) then match_lines expected accept ls
          else if he_SessionID entry = [] then match_lines expected accept ls
          else Some (he_SessionID entry))"

text \<open>\<open>data\<close> is what reading the history gives, \<open>None\<close> an error.\<close>

definition matchCodexHistoryDelta ::
  "string option \<Rightarrow> int \<Rightarrow> string \<Rightarrow> (string \<Rightarrow> bool) option \<Rightarrow> string option" where
  "matchCodexHistoryDelta data from expected accept =
     (case data of
        None \<Rightarrow> None
      | Some data \<Rightarrow>
          if int (length data) \<le> from then None
          else
            let from = (if from < 0 \<or> int (length data) < from then 0 else from);
                delta = drop (nat from) data
            in (case last_newline delta of
                  None \<Rightarrow> None
                | Some i \<Rightarrow> match_lines expected accept (split_byte (CHR 0x0A) (take i delta))))"

definition codexHistoryPollInterval :: duration where "codexHistoryPollInterval = 100 * Millisecond"
definition codexHistoryWaitTimeout :: duration where "codexHistoryWaitTimeout = 3 * Second"

text \<open>
  \<open>waitForCodexHistory\<close>: \<open>file k\<close> is the history at poll \<open>k\<close>; between two polls the \<open>select\<close>
  takes one of three events; \<open>accept k\<close> is the test then. A list of events that ends is a wait that still goes on.
\<close>

datatype history_event = HistoryContext string | HistoryDeadline | HistoryTick

fun waitForCodexHistory ::
  "(nat \<Rightarrow> string option) \<Rightarrow> nat \<Rightarrow> int \<Rightarrow> string \<Rightarrow> (nat \<Rightarrow> (string \<Rightarrow> bool) option) \<Rightarrow> history_event list
     \<Rightarrow> (string + string) option" where
  "waitForCodexHistory file k from expected accept evs =
     (case matchCodexHistoryDelta (file k) from expected (accept k) of
        Some sessionID \<Rightarrow> Some (Inr sessionID)
      | None \<Rightarrow>
          (case evs of
             [] \<Rightarrow> None
           | HistoryContext e # _ \<Rightarrow> Some (Inl e)
           | HistoryDeadline # _ \<Rightarrow> Some (Inl ''codex history confirmation timeout'')
           | HistoryTick # evs \<Rightarrow> waitForCodexHistory file (Suc k) from expected accept evs))"

declare waitForCodexHistory.simps [simp del]

lemma match_lines_append:
  "match_lines expected accept ls = Some sid \<Longrightarrow> match_lines expected accept (ls @ ms) = Some sid"
  by (induction ls) (auto split: option.splits if_splits)

text \<open>The history grows by appending; a match found once is found again.\<close>

lemma match_stable:
  assumes "matchCodexHistoryDelta (Some data) from expected accept = Some sid" and "prefix data data'"
  shows "matchCodexHistoryDelta (Some data') from expected accept = Some sid"
proof -
  obtain ext where ext: "data' = data @ ext" using assms(2) by (auto simp: prefix_def)
  let ?f = "nat (if from < 0 then 0 else from)"
  have lt: "\<not> int (length data) \<le> from" using assms(1) by (auto simp: matchCodexHistoryDelta_def)
  then have f: "?f \<le> length data" by auto
  have e: "matchCodexHistoryDelta (Some d) from expected accept = match_lines expected accept (complete_lines (drop ?f d))"
    if "length data \<le> length d" for d
    using lt that by (auto simp: matchCodexHistoryDelta_def complete_lines_def Let_def split: option.split)
  have "match_lines expected accept (complete_lines (drop ?f data)) = Some sid" using assms(1) e [of data] by simp
  moreover have "drop ?f data' = drop ?f data @ ext" using f ext by simp
  ultimately show ?thesis
    using e [of data'] ext match_lines_append complete_lines_split [of "drop ?f data" ext] by simp
qed

lemma match_lines_sound:
  "match_lines expected accept ls = Some sid \<Longrightarrow>
     \<exists>line\<in>set ls. \<exists>entry. history_entry line = Some entry \<and> he_SessionID entry = sid \<and> sid \<noteq> []
       \<and> codexHistoryTextMatches (he_Text entry) expected \<and> (accept \<noteq> None \<longrightarrow> the accept sid)"
  by (induction ls) (auto split: option.splits if_splits)

lemma wait_history_match:
  "waitForCodexHistory file k from expected accept evs = Some (Inr sid) \<Longrightarrow>
     \<exists>j\<ge>k. matchCodexHistoryDelta (file j) from expected (accept j) = Some sid"
proof (induction evs arbitrary: k)
  case Nil
  then show ?case by (auto simp: waitForCodexHistory.simps [of "file" k] split: option.splits)
next
  case (Cons ev evs)
  show ?case
  proof (cases "matchCodexHistoryDelta (file k) from expected (accept k)")
    case None
    with Cons.prems have "waitForCodexHistory file (Suc k) from expected accept evs = Some (Inr sid)"
      by (auto simp: waitForCodexHistory.simps [of "file" k] split: history_event.splits)
    with Cons.IH show ?thesis by (meson Suc_leD)
  qed (use Cons.prems in \<open>auto simp: waitForCodexHistory.simps [of "file" k]\<close>)
qed

lemma match_delta_sound:
  assumes "matchCodexHistoryDelta (Some data) from expected accept = Some sid"
  shows "sid \<noteq> [] \<and> (accept \<noteq> None \<longrightarrow> the accept sid)
    \<and> (\<exists>line entry. line \<in> set (complete_lines (drop (nat from) data)) \<and> history_entry line = Some entry
         \<and> he_SessionID entry = sid \<and> codexHistoryTextMatches (he_Text entry) expected)"
proof -
  let ?lines = "complete_lines (drop (nat from) data)"
  have "\<not> int (length data) \<le> from" using assms by (auto simp: matchCodexHistoryDelta_def)
  then have "match_lines expected accept ?lines = Some sid"
    using assms by (auto simp: matchCodexHistoryDelta_def complete_lines_def Let_def split: option.splits if_splits)
  from match_lines_sound [OF this] show ?thesis by blast
qed

lemma growing_prefix: "\<forall>k. prefix (d k) (d (Suc k)) \<Longrightarrow> j \<le> k \<Longrightarrow> prefix (d j) (d k)"
  by (rule prefix_order.lift_Suc_mono_le [of d]) auto

lemma wait_history_returns:
  "\<exists>e\<in>set evs. e \<noteq> HistoryTick \<Longrightarrow> waitForCodexHistory file k from expected accept evs \<noteq> None"
proof (induction evs arbitrary: k)
  case (Cons ev evs)
  then show ?case
    by (cases ev) (auto simp: waitForCodexHistory.simps [of "file" k] split: option.split)
qed simp

text \<open>
  C25: when \<open>waitForCodexHistory\<close> confirms an input with a session id, the id is not empty, the caller's
  filter accepts it (if it passed one), and the history holds, in a complete line written after the
  offset, an entry with that id and the text of the input, up to line ends; as the history grows the
  answer stays the same. And the wait always returns by its deadline.
\<close>

theorem submission_confirmed:
  assumes "\<forall>k. prefix (d k) (d (Suc k))"
    and "waitForCodexHistory (\<lambda>k. Some (d k)) 0 from expected accept evs = r"
  shows "(\<forall>sid. r = Some (Inr sid) \<longrightarrow> sid \<noteq> []
      \<and> (\<exists>j. (accept j \<noteq> None \<longrightarrow> the (accept j) sid) \<and> (\<exists>line entry. line \<in> set (complete_lines (drop (nat from) (d j))) \<and> history_entry line = Some entry
                \<and> he_SessionID entry = sid \<and> codexHistoryTextMatches (he_Text entry) expected)
           \<and> (\<forall>k\<ge>j. matchCodexHistoryDelta (Some (d k)) from expected (accept j) = Some sid)))
    \<and> (HistoryDeadline \<in> set evs \<longrightarrow> r \<noteq> None)"
proof (intro conjI allI impI)
  fix sid assume "r = Some (Inr sid)"
  with assms(2) wait_history_match obtain j where j: "matchCodexHistoryDelta (Some (d j)) from expected (accept j) = Some sid"
    by blast
  note sound = match_delta_sound [OF j]
  show "sid \<noteq> []" using sound by simp
  have "matchCodexHistoryDelta (Some (d k)) from expected (accept j) = Some sid" if "j \<le> k" for k
    by (rule match_stable [OF j growing_prefix [OF assms(1) that]])
  with sound show "\<exists>j. (accept j \<noteq> None \<longrightarrow> the (accept j) sid) \<and> (\<exists>line entry. line \<in> set (complete_lines (drop (nat from) (d j))) \<and> history_entry line = Some entry
        \<and> he_SessionID entry = sid \<and> codexHistoryTextMatches (he_Text entry) expected)
      \<and> (\<forall>k\<ge>j. matchCodexHistoryDelta (Some (d k)) from expected (accept j) = Some sid)" by blast
next
  assume "HistoryDeadline \<in> set evs"
  then show "r \<noteq> None" using wait_history_returns [of evs "\<lambda>k. Some (d k)" 0 "from" expected accept] assms(2) by fastforce
qed

definition sample_history :: "nat \<Rightarrow> string" where
  "sample_history k = concat (replicate (min k 1)
     (json_encode (JObj [(''session_id'', JStr ''s9''), (''text'', JStr ''hi'')]) @ [CHR 0x0A]))"

theorem submission_confirmed_witness:
  "\<exists>j. matchCodexHistoryDelta (Some (sample_history j)) 0 ''hi'' (Some (\<lambda>s. s = ''s9'')) = Some ''s9''"
proof -
  let ?r = "waitForCodexHistory (\<lambda>k. Some (sample_history k)) 0 0 ''hi'' (\<lambda>_. Some (\<lambda>s. s = ''s9'')) [HistoryTick, HistoryDeadline]"
  have "prefix (sample_history k) (sample_history (Suc k))" for k
    by (cases k) (simp_all add: sample_history_def)
  moreover have "?r = Some (Inr ''s9'')" by code_simp
  ultimately show ?thesis using submission_confirmed [of sample_history 0 "''hi''" "\<lambda>_. Some (\<lambda>s. s = ''s9'')" _ ?r] by blast
qed

end
