(* ===== verification/Codex_Transcript.thy ===== *)
theory Codex_Transcript
  imports Codex_Files
begin

text \<open>
  The transcript cursor (\<open>internal/adapter/codex_transcript.go\<close>): it reads what was appended to
  the rollout file since the last poll, waits for the record of its own input, and reports how
  the turn ends.
\<close>

section \<open>Values of any type\<close>

text \<open>
  Decoding into \<open>any\<close> turns numbers into \<open>float64\<close> and fails on one that is out of range. Where
  that is: at or above the midpoint between the largest float and the next power of two. As in
  \<open>strconv\<close>, digits of the exponent are ignored once it has reached 10000.
\<close>

definition float_limit :: int where "float_limit = 2 ^ 1024 - 2 ^ 970"

definition number_exponent :: "string \<Rightarrow> int" where
  "number_exponent s =
     (let ds = filter is_digit s;
          e = foldl (\<lambda>e c. if e < 10000 then e * 10 + (byte c - 48) else e) 0 ds
      in if CHR ''-'' \<in> set s then - int e else int e)"

definition number_fits :: "string \<Rightarrow> bool" where
  "number_fits l =
     (let is_e = (\<lambda>c. c = CHR ''e'' \<or> c = CHR ''E'');
          mant = filter (\<lambda>c. c \<noteq> CHR ''-'') (takeWhile (\<lambda>c. \<not> is_e c) l);
          frac = drop 1 (dropWhile (\<lambda>c. c \<noteq> CHR ''.'') mant);
          m = int (digits_value (filter is_digit mant));
          e = number_exponent (dropWhile (\<lambda>c. \<not> is_e c) l) - int (length frac)
      in if 0 \<le> e then m * 10 ^ nat e < float_limit else m < float_limit * 10 ^ nat (- e))"

fun any_fits :: "json \<Rightarrow> bool" where
  "any_fits (JNum l) = number_fits l"
| "any_fits (JArr vs) = (\<forall>v\<in>set vs. any_fits v)"
| "any_fits (JObj ms) = (\<forall>(k, v)\<in>set ms. any_fits v)"
| "any_fits v = True"

text \<open>\<open>json.Unmarshal\<close> of raw JSON into \<open>map[string]any\<close>: of several members of one name the last counts.\<close>

definition any_map :: "json option \<Rightarrow> (string \<rightharpoonup> json) option" where
  "any_map raw =
     (case raw of
        Some (JObj ms) \<Rightarrow> if any_fits (JObj ms) then Some (map_of (rev ms)) else None
      | Some JNull \<Rightarrow> Some Map.empty
      | _ \<Rightarrow> None)"

definition any_string :: "json option \<Rightarrow> string" where
  "any_string v = (case v of Some (JStr s) \<Rightarrow> s | _ \<Rightarrow> [])"

section \<open>The cursor\<close>

record codexTranscriptCursor =
  cu_Path :: string
  cu_Offset :: int
  cu_Armed :: bool
  cu_Input :: string
  cu_terminal :: bool

record codexRolloutRecord =
  rr_Type :: string
  rr_Payload :: "json option"

definition rollout_fields :: "codexRolloutRecord field list" where
  "rollout_fields =
     [(''type'', string_field (\<lambda>s r. r\<lparr>rr_Type := s\<rparr>)),
      (''payload'', \<lambda>v r. Some (r\<lparr>rr_Payload := Some v\<rparr>))]"

definition rollout_record :: "string \<Rightarrow> codexRolloutRecord option" where
  "rollout_record line = unmarshal rollout_fields \<lparr>rr_Type = [], rr_Payload = None\<rparr> line"

definition content_block :: "string \<Rightarrow> json \<Rightarrow> string" where
  "content_block contentType v =
     (case v of
        JObj ms \<Rightarrow>
          if map_of (rev ms) ''type'' \<noteq> Some (JStr contentType) then []
          else any_string (map_of (rev ms) ''text'')
      | _ \<Rightarrow> [])"

definition codexContentText :: "json option \<Rightarrow> string \<Rightarrow> string" where
  "codexContentText raw contentType =
     (case raw of Some (JArr blocks) \<Rightarrow> concat (map (content_block contentType) blocks) | _ \<Rightarrow> [])"

definition safeCodexErrorDetail :: "string \<Rightarrow> string" where
  "safeCodexErrorDetail raw = (let raw = TrimSpace raw in if 320 < length raw then take 320 raw else raw)"

definition parseLine :: "string \<Rightarrow> codexTranscriptCursor \<Rightarrow> codexTranscriptCursor \<times> AdapterEvent list" where
  "parseLine line c =
     (case rollout_record line of
        None \<Rightarrow> (c, [])
      | Some record \<Rightarrow>
          (case any_map (rr_Payload record) of
             None \<Rightarrow> (c, [])
           | Some payload \<Rightarrow>
               if rr_Type record = ''response_item'' \<and> payload ''type'' = Some (JStr ''message'')
                  \<and> payload ''role'' = Some (JStr ''user'') then
                 let text_of = codexContentText (payload ''content'') ''input_text''
                 in (if codexHistoryTextMatches text_of (cu_Input c) then c\<lparr>cu_Armed := True\<rparr> else c, [])
               else if \<not> cu_Armed c \<or> cu_terminal c \<or> rr_Type record \<noteq> ''event_msg'' then (c, [])
               else if any_string (payload ''turn_id'') = [] then (c, [])
               else if payload ''type'' = Some (JStr ''task_complete'') then
                 (c\<lparr>cu_terminal := True\<rparr>,
                  [output_event (any_string (payload ''last_agent_message'')), terminal_event ATurnCompleted [] []])
               else if payload ''type'' = Some (JStr ''turn_aborted'') then
                 (c\<lparr>cu_terminal := True\<rparr>,
                  [terminal_event ATurnAborted ''codex_turn_aborted''
                     (safeCodexErrorDetail (any_string (payload ''reason'')))])
               else (c, [])))"

fun parse_lines :: "string list \<Rightarrow> codexTranscriptCursor \<Rightarrow> codexTranscriptCursor \<times> AdapterEvent list" where
  "parse_lines [] c = (c, [])"
| "parse_lines (l # ls) c =
     (let (c, ev) = parseLine l c; (c, evs) = parse_lines ls c in (c, ev @ evs))"

text \<open>\<open>file\<close> is what reading the file gives: an error, or its bytes.\<close>

definition ReadNew :: "string + string \<Rightarrow> codexTranscriptCursor \<Rightarrow> codexTranscriptCursor \<times> (string + AdapterEvent list)" where
  "ReadNew bytes c =
     (case bytes of
        Inl e \<Rightarrow> (c, Inl e)
      | Inr data \<Rightarrow>
          let c = (if cu_Offset c < 0 \<or> int (length data) < cu_Offset c then c\<lparr>cu_Offset := 0\<rparr> else c);
              delta = drop (nat (cu_Offset c)) data
          in (case last_newline delta of
                None \<Rightarrow> (c, Inr [])
              | Some i \<Rightarrow>
                  let c = c\<lparr>cu_Offset := cu_Offset c + int (i + 1)\<rparr>;
                      (c, events) = parse_lines (split_byte (CHR 0x0A) (take i delta)) c
                  in (c, Inr events)))"

definition cursor_String :: "codexTranscriptCursor \<Rightarrow> string" where
  "cursor_String c = ''codexTranscriptCursor(path='' @ cu_Path c @ '', offset='' @ itoa (cu_Offset c) @ '')''"

text \<open>
  \<open>findCodexRolloutBySessionID\<close>: \<open>entries\<close> are what walking the sessions directory visits, in its
  order, each with its path, its name, and whether it is to be passed over (an error, a directory).
\<close>

definition findCodexRolloutBySessionID :: "(string \<times> string \<times> bool) list \<Rightarrow> string \<Rightarrow> string option" where
  "findCodexRolloutBySessionID entries sessionID =
     (if sessionID = [] then None
      else
        let suff = ''-'' @ sessionID @ ''.jsonl'' in
        (case List.find (\<lambda>(path, name, passed). \<not> passed \<and> HasSuffix name suff) entries of
           None \<Rightarrow> None
         | Some (path, _, _) \<Rightarrow> if path = [] then None else Some path))"

section \<open>Polling a growing transcript\<close>

lemma parse_lines_append:
  "parse_lines (ls @ ms) c =
     (let (c1, e1) = parse_lines ls c; (c2, e2) = parse_lines ms c1 in (c2, e1 @ e2))"
  by (induction ls arbitrary: c) (auto simp: Let_def split: prod.splits)

lemma parseLine_offset: "parseLine l (c\<lparr>cu_Offset := k\<rparr>) = (fst (parseLine l c)\<lparr>cu_Offset := k\<rparr>, snd (parseLine l c))"
  by (simp add: parseLine_def Let_def split: option.split)

lemma parse_lines_offset:
  "parse_lines ls (c\<lparr>cu_Offset := k\<rparr>) = (fst (parse_lines ls c)\<lparr>cu_Offset := k\<rparr>, snd (parse_lines ls c))"
proof (induction ls arbitrary: c)
  case (Cons l ls)
  then show ?case by (simp add: parseLine_offset Let_def case_prod_unfold)
qed simp

lemma offset_update [simp]: "c\<lparr>cu_Offset := cu_Offset c\<rparr> = c"
  by simp

definition cursor_in :: "string \<Rightarrow> codexTranscriptCursor \<Rightarrow> bool" where
  "cursor_in data c \<longleftrightarrow> 0 \<le> cu_Offset c \<and> cu_Offset c \<le> int (length data)"

text \<open>One poll: the lines completed since the offset, and the offset behind the last of them.\<close>

lemma ReadNew_in:
  assumes "cursor_in data c"
  defines "delta \<equiv> drop (nat (cu_Offset c)) data"
  shows "ReadNew (Inr data) c =
    ((fst (parse_lines (complete_lines delta) c))\<lparr>cu_Offset := cu_Offset c + int (complete_length delta)\<rparr>,
     Inr (snd (parse_lines (complete_lines delta) c)))"
proof -
  have c: "\<not> (cu_Offset c < 0 \<or> int (length data) < cu_Offset c)" using assms(1) by (auto simp: cursor_in_def)
  show ?thesis
  proof (cases "last_newline delta")
    case None
    with c show ?thesis
      by (simp add: ReadNew_def delta_def complete_lines_def complete_length_def)
  next
    case (Some i)
    with c show ?thesis
      by (simp add: ReadNew_def delta_def [symmetric] complete_lines_def complete_length_def case_prod_unfold
          parse_lines_offset Let_def)
  qed
qed

lemma ReadNew_stays:
  assumes "cursor_in data c" and "ReadNew (Inr data) c = (c', r)"
  shows "cursor_in data c'"
  using assms complete_length_le [of "drop (nat (cu_Offset c)) data"] ReadNew_in [OF assms(1)]
  by (auto simp: cursor_in_def)

fun polls :: "string list \<Rightarrow> codexTranscriptCursor \<Rightarrow> codexTranscriptCursor \<times> AdapterEvent list" where
  "polls [] c = (c, [])"
| "polls (data # ds) c =
     (case ReadNew (Inr data) c of
        (c, Inl _) \<Rightarrow> (c, [])
      | (c, Inr events) \<Rightarrow> (case polls ds c of (c, evs) \<Rightarrow> (c, events @ evs)))"

lemma two_polls:
  assumes "cursor_in data c" and "prefix data data'" and "ReadNew (Inr data) c = (c1, Inr e1)"
    and "ReadNew (Inr data') c1 = (c2, Inr e2)"
  shows "ReadNew (Inr data') c = (c2, Inr (e1 @ e2))"
proof -
  obtain t where t: "data' = data @ t" using assms(2) by (auto simp: prefix_def)
  let ?k = "nat (cu_Offset c)"
  let ?d = "drop ?k data"
  let ?p = "parse_lines (complete_lines ?d) c"
  have k: "?k \<le> length data" using assms(1) by (auto simp: cursor_in_def)
  have c1: "c1 = (fst ?p)\<lparr>cu_Offset := cu_Offset c + int (complete_length ?d)\<rparr>" "e1 = snd ?p"
    using assms(3) ReadNew_in [OF assms(1)] by auto
  have in1: "cursor_in data' c1"
    using ReadNew_stays [OF assms(1,3)] t by (simp add: cursor_in_def)
  have in': "cursor_in data' c" using assms(1) t by (simp add: cursor_in_def)
  have "nat (cu_Offset c1) = ?k + complete_length ?d"
    using assms(1) by (simp add: c1 cursor_in_def nat_add_distrib)
  then have d1: "drop (nat (cu_Offset c1)) data' = drop (complete_length ?d) ?d @ t"
    using k complete_length_le [of ?d] t by (simp add: add.commute)
  have d: "drop ?k data' = ?d @ t" using k t by simp
  let ?q = "parse_lines (complete_lines (drop (complete_length ?d) ?d @ t)) (fst ?p)"
  have q: "parse_lines (complete_lines (drop (complete_length ?d) ?d @ t)) c1
      = ((fst ?q)\<lparr>cu_Offset := cu_Offset c1\<rparr>, snd ?q)"
    using parse_lines_offset [where c = "fst ?p"] c1(1) by simp
  have "parse_lines (complete_lines (?d @ t)) c = (fst ?q, snd ?p @ snd ?q)"
    by (simp add: complete_lines_split [of ?d t] parse_lines_append case_prod_unfold Let_def)
  with ReadNew_in [OF in'] ReadNew_in [OF in1] assms(4) d d1 q c1 complete_length_split [of ?d t]
  show ?thesis by (auto simp: add.assoc)
qed

lemma ReadNew_Inr: "\<exists>c' evs. ReadNew (Inr data) c = (c', Inr evs)"
  by (simp add: ReadNew_def Let_def case_prod_unfold split: option.split)

lemma polls_last:
  "cursor_in d c \<Longrightarrow> sorted_wrt prefix (d # ds) \<Longrightarrow>
     ReadNew (Inr (last (d # ds))) c = (fst (polls (d # ds) c), Inr (snd (polls (d # ds) c)))"
proof (induction ds arbitrary: d c)
  case Nil
  obtain c' evs where "ReadNew (Inr d) c = (c', Inr evs)" using ReadNew_Inr by blast
  then show ?case by simp
next
  case (Cons d2 ds)
  obtain c1 e1 where r1: "ReadNew (Inr d) c = (c1, Inr e1)" using ReadNew_Inr by blast
  have p: "prefix d d2" "prefix d (last (d2 # ds))" using Cons.prems(2) by auto
  have in1: "cursor_in d2 c1"
    using ReadNew_stays [OF Cons.prems(1) r1] prefix_length_le [OF p(1)] by (simp add: cursor_in_def)
  have "ReadNew (Inr (last (d2 # ds))) c1 = (fst (polls (d2 # ds) c1), Inr (snd (polls (d2 # ds) c1)))"
    using Cons.IH [OF in1] Cons.prems(2) by simp
  moreover have "polls (d # d2 # ds) c = (fst (polls (d2 # ds) c1), e1 @ snd (polls (d2 # ds) c1))"
    unfolding polls.simps(2) [of d "d2 # ds" c] by (simp only: r1 prod.case sum.case case_prod_unfold fst_conv snd_conv)
  ultimately show ?case using two_polls [OF Cons.prems(1) p(2) r1] by simp
qed

section \<open>What is reported\<close>

text \<open>Events come from one line only, and end with the terminal.\<close>

definition turn_events :: "AdapterEvent list \<Rightarrow> bool" where
  "turn_events evs \<longleftrightarrow> evs = [] \<or> (ev_Kind (last evs) = AdapterTurnTerminal
     \<and> list_all (\<lambda>e. ev_Kind e = AdapterOutput) (butlast evs))"

lemma parseLine_cases:
  "snd (parseLine l c) = [] \<and> cu_terminal (fst (parseLine l c)) = cu_terminal c
   \<or> \<not> cu_terminal c \<and> cu_terminal (fst (parseLine l c)) \<and> snd (parseLine l c) \<noteq> [] \<and> turn_events (snd (parseLine l c))"
  by (simp add: parseLine_def Let_def turn_events_def terminal_event_def output_event_def split: option.split)

lemma parse_lines_events:
  "(cu_terminal c \<longrightarrow> snd (parse_lines ls c) = [] \<and> cu_terminal (fst (parse_lines ls c)))
   \<and> turn_events (snd (parse_lines ls c))
   \<and> (snd (parse_lines ls c) = [] \<longrightarrow> cu_terminal (fst (parse_lines ls c)) = cu_terminal c)"
proof (induction ls arbitrary: c)
  case (Cons l ls)
  from Cons.IH [of "fst (parseLine l c)"] parseLine_cases [of l c] show ?case
    by (auto simp: Let_def case_prod_unfold turn_events_def)
qed (simp add: turn_events_def)

text \<open>
  C26: polling a transcript that grows by appending reports exactly what one read of the final file
  reports: whatever the file's contents at the polls, the events are the same, each complete line
  counts once, and the cursor ends in the same state. The events are empty or some output followed
  by one terminal, the last of them.
\<close>

theorem transcript_polls_exact:
  assumes "0 \<le> cu_Offset c" and "cu_Offset c \<le> int (length d)" and "sorted_wrt prefix (d # ds)"
  shows "ReadNew (Inr (last (d # ds))) c = (fst (polls (d # ds) c), Inr (snd (polls (d # ds) c)))
    \<and> turn_events (snd (polls (d # ds) c))"
proof -
  have c: "cursor_in d c" using assms by (simp add: cursor_in_def)
  note l = polls_last [OF c assms(3)]
  have "prefix d (last (d # ds))" using assms(3) by auto
  then have "cursor_in (last (d # ds)) c" using c prefix_length_le by (fastforce simp: cursor_in_def)
  from ReadNew_in [OF this] l have "snd (polls (d # ds) c) = snd (parse_lines (complete_lines (drop (nat (cu_Offset c)) (last (d # ds)))) c)"
    by simp
  with l parse_lines_events show ?thesis by metis
qed

definition sample_user_line :: string where
  "sample_user_line = json_encode (JObj [(''type'', JStr ''response_item''), (''payload'', JObj
     [(''type'', JStr ''message''), (''role'', JStr ''user''),
      (''content'', JArr [JObj [(''type'', JStr ''input_text''), (''text'', JStr ''hi'')]])])]) @ [CHR 0x0A]"

definition sample_end_line :: string where
  "sample_end_line = json_encode (JObj [(''type'', JStr ''event_msg''), (''payload'', JObj
     [(''type'', JStr ''task_complete''), (''turn_id'', JStr ''t1''), (''last_agent_message'', JStr ''bye'')])]) @ [CHR 0x0A]"

definition sample_cursor :: codexTranscriptCursor where
  "sample_cursor = \<lparr>cu_Path = ''r'', cu_Offset = 0, cu_Armed = False, cu_Input = ''hi'', cu_terminal = False\<rparr>"

lemma sample_transcript:
  "map ev_Kind (snd (parse_lines (complete_lines (sample_user_line @ sample_end_line)) sample_cursor)) = [AdapterOutput, AdapterTurnTerminal]"
  by code_simp

theorem transcript_polls_exact_witness:
  "map ev_Kind (snd (polls [take 40 sample_user_line, sample_user_line @ take 10 sample_end_line, sample_user_line @ sample_end_line] sample_cursor))
     = [AdapterOutput, AdapterTurnTerminal]"
proof -
  let ?d = "take 40 sample_user_line" and ?ds = "[sample_user_line @ take 10 sample_end_line, sample_user_line @ sample_end_line]"
  have "prefix ?d (sample_user_line @ s)" for s by (metis append_take_drop_id append.assoc prefixI)
  then have p: "sorted_wrt prefix (?d # ?ds)" by (simp add: take_is_prefix)
  have c: "0 \<le> cu_Offset sample_cursor" "cu_Offset sample_cursor \<le> int (length ?d)" by (simp_all add: sample_cursor_def)
  from transcript_polls_exact [OF c p]
  have "ReadNew (Inr (sample_user_line @ sample_end_line)) sample_cursor = (fst (polls (?d # ?ds) sample_cursor), Inr (snd (polls (?d # ?ds) sample_cursor)))"
    by simp
  moreover have "cursor_in (sample_user_line @ sample_end_line) sample_cursor" by (simp add: cursor_in_def sample_cursor_def)
  from ReadNew_in [OF this] have "snd (ReadNew (Inr (sample_user_line @ sample_end_line)) sample_cursor)
      = Inr (snd (parse_lines (complete_lines (sample_user_line @ sample_end_line)) sample_cursor))"
    by (simp add: sample_cursor_def)
  ultimately show ?thesis using sample_transcript by simp
qed

end
