(* ===== verification/Codex_Process.thy ===== *)
theory Codex_Process
  imports Go_Strings
begin

text \<open>
  Which sessions a Codex process owns (\<open>internal/adapter/codex_history.go\<close>): the processes below it
  are collected through \<open>pgrep\<close>, their open files through \<open>/proc\<close> or \<open>lsof\<close>, and the session ids
  are read off the paths of the rollout files among them. The runs of the two programs and the
  contents of \<open>/proc\<close> are parameters.
\<close>

section \<open>Session ids in rollout paths\<close>

definition hex_digit_lower :: "char \<Rightarrow> bool" where
  "hex_digit_lower c = (is_digit c \<or> (97 \<le> byte c \<and> byte c \<le> 102))"

definition uuid_ok :: "string \<Rightarrow> bool" where
  "uuid_ok u = (length u = 36
     \<and> list_all (\<lambda>i. if i \<in> {8, 13, 18, 23} then u ! i = CHR ''-'' else hex_digit_lower (u ! i)) [0..<36])"

text \<open>
  The pattern \<open>rollout-.*-(uuid)\.jsonl$\<close>: the text ends in \<open>.jsonl\<close>, before it come a uuid and a
  dash, and before those there is a \<open>rollout-\<close> with no line feed after it.
\<close>

definition rollout_match :: "string \<Rightarrow> string option" where
  "rollout_match p =
     (let stem = TrimSuffix p ''.jsonl'';
          u = drop (length stem - 36) stem;
          pre = take (length stem - 36) stem
      in if HasSuffix p ''.jsonl'' \<and> uuid_ok u \<and> HasSuffix pre ''-''
            \<and> Contains (rev (takeWhile (\<lambda>c. c \<noteq> CHR 0x0A) (rev (butlast pre)))) ''rollout-''
         then Some u else None)"

definition codexSessionIDFromRolloutPath :: "string \<Rightarrow> string option" where
  "codexSessionIDFromRolloutPath path = (if \<not> Contains path ''/sessions/'' then None else rollout_match path)"

section \<open>Processes and their files\<close>

fun fields_of :: "(nat \<times> string) list \<Rightarrow> string \<Rightarrow> string list" where
  "fields_of [] acc = (if acc = [] then [] else [acc])"
| "fields_of ((r, b) # segs) acc =
     (if IsSpace r then (if acc = [] then fields_of segs [] else acc # fields_of segs [])
      else fields_of segs (acc @ b))"

definition Fields :: "string \<Rightarrow> string list" where
  "Fields s = fields_of (rune_segs s) []"

datatype run_result = RunOutput string | RunExit int string | RunFails string

definition codexChildPIDs :: "(int \<Rightarrow> run_result) \<Rightarrow> int \<Rightarrow> string + int list" where
  "codexChildPIDs pgrep pid =
     (case pgrep pid of
        RunOutput out \<Rightarrow> Inr (List.map_filter Atoi (Fields out))
      | RunExit code e \<Rightarrow>
          if code = 1 then Inr []
          else Inl (''list child processes for pid '' @ itoa pid @ '': '' @ e)
      | RunFails e \<Rightarrow> Inl (''list child processes for pid '' @ itoa pid @ '': '' @ e))"

fun add_children :: "int list \<Rightarrow> int list \<Rightarrow> int set \<Rightarrow> int list \<times> int set" where
  "add_children [] pids seen = (pids, seen)"
| "add_children (child # cs) pids seen =
     (if child \<in> seen then add_children cs pids seen
      else add_children cs (pids @ [child]) (insert child seen))"

text \<open>The loop of \<open>codexProcessTreePIDs\<close>; \<open>None\<close> is a loop that never ends.\<close>

partial_function (option) tree_loop ::
  "(int \<Rightarrow> string + int list) \<Rightarrow> nat \<Rightarrow> int list \<Rightarrow> int set \<Rightarrow> (string + int list) option" where
  "tree_loop children index pids seen =
     (if index < length pids then
        (case children (pids ! index) of
           Inl e \<Rightarrow> Some (Inl e)
         | Inr cs \<Rightarrow> tree_loop children (Suc index) (fst (add_children cs pids seen)) (snd (add_children cs pids seen)))
      else Some (Inr pids))"

definition codexProcessTreePIDs :: "(int \<Rightarrow> string + int list) \<Rightarrow> int \<Rightarrow> (string + int list) option" where
  "codexProcessTreePIDs children root = tree_loop children 0 [root] {root}"

text \<open>
  \<open>codexProcessOpenTargets\<close>: \<open>fds\<close> are the names in \<open>/proc/pid/fd\<close> with what their links point at,
  \<open>None\<close> when the directory cannot be read (or the system is not Linux).
\<close>

definition codexProcessOpenTargets ::
  "(int \<Rightarrow> (string \<times> string option) list option) \<Rightarrow> (int \<Rightarrow> run_result) \<Rightarrow> int \<Rightarrow> string + string list" where
  "codexProcessOpenTargets fds lsof pid =
     (case fds pid of
        Some entries \<Rightarrow> Inr (List.map_filter snd entries)
      | None \<Rightarrow>
          (case lsof pid of
             RunOutput out \<Rightarrow>
               Inr (map (\<lambda>line. TrimPrefix line ''n'')
                 (filter (\<lambda>line. HasPrefix line ''n/'') (split_byte (CHR 0x0A) out)))
           | RunExit _ e \<Rightarrow> Inl (''list open files for pid '' @ itoa pid @ '': '' @ e)
           | RunFails e \<Rightarrow> Inl (''list open files for pid '' @ itoa pid @ '': '' @ e)))"

fun owned_loop ::
  "(int \<Rightarrow> string + string list) \<Rightarrow> int list \<Rightarrow> string set \<Rightarrow> string option \<Rightarrow> nat \<Rightarrow> string set \<times> string option \<times> nat" where
  "owned_loop openTargets [] owned lastErr successes = (owned, lastErr, successes)"
| "owned_loop openTargets (pid # pids) owned lastErr successes =
     (case openTargets pid of
        Inl e \<Rightarrow> owned_loop openTargets pids owned (Some e) successes
      | Inr targets \<Rightarrow>
          owned_loop openTargets pids
            (owned \<union> set (map ToLower (List.map_filter codexSessionIDFromRolloutPath targets)))
            lastErr (Suc successes))"

definition codexRolloutsOwnedByPIDs :: "int list \<Rightarrow> (int \<Rightarrow> string + string list) \<Rightarrow> string + string set" where
  "codexRolloutsOwnedByPIDs pids openTargets =
     (case owned_loop openTargets pids {} None 0 of
        (owned, lastErr, successes) \<Rightarrow>
          if successes = 0 \<and> lastErr \<noteq> None then Inl (the lastErr) else Inr owned)"

definition codexRolloutsOwnedByPID ::
  "(int \<Rightarrow> run_result) \<Rightarrow> (int \<Rightarrow> string + string list) \<Rightarrow> int \<Rightarrow> (string + string set) option" where
  "codexRolloutsOwnedByPID pgrep openTargets pid =
     (if pid \<le> 0 then Some (Inl (''invalid pid '' @ itoa pid))
      else case codexProcessTreePIDs (codexChildPIDs pgrep) pid of
        None \<Rightarrow> None
      | Some (Inl e) \<Rightarrow> Some (Inl e)
      | Some (Inr pids) \<Rightarrow> Some (codexRolloutsOwnedByPIDs pids openTargets))"

section \<open>The process tree\<close>

definition child_of :: "(int \<Rightarrow> string + int list) \<Rightarrow> int \<Rightarrow> int \<Rightarrow> bool" where
  "child_of children p q \<longleftrightarrow> (\<exists>cs. children p = Inr cs \<and> q \<in> set cs)"

definition descendants :: "(int \<Rightarrow> string + int list) \<Rightarrow> int \<Rightarrow> int set" where
  "descendants children root = {q. (child_of children)\<^sup>*\<^sup>* root q}"

lemma add_children_spec:
  "seen = set pids \<Longrightarrow> distinct pids \<Longrightarrow>
     \<exists>new. fst (add_children cs pids seen) = pids @ new \<and> distinct (pids @ new)
       \<and> snd (add_children cs pids seen) = set (pids @ new) \<and> set (pids @ new) = set pids \<union> set cs"
proof (induction cs arbitrary: pids seen)
  case (Cons c cs)
  show ?case
  proof (cases "c \<in> set pids")
    case True
    with Cons.IH [OF Cons.prems] Cons.prems show ?thesis by auto
  next
    case False
    with Cons.prems have "insert c seen = set (pids @ [c])" "distinct (pids @ [c])" by auto
    from Cons.IH [OF this] False Cons.prems show ?thesis by fastforce
  qed
qed auto

definition tree_inv :: "(int \<Rightarrow> string + int list) \<Rightarrow> int \<Rightarrow> nat \<Rightarrow> int list \<Rightarrow> bool" where
  "tree_inv children root index pids \<longleftrightarrow> distinct pids \<and> root \<in> set pids \<and> set pids \<subseteq> descendants children root
     \<and> (\<forall>i<index. i < length pids \<longrightarrow> (\<exists>cs. children (pids ! i) = Inr cs \<and> set cs \<subseteq> set pids))"

lemma descendants_closed:
  "p \<in> descendants children root \<Longrightarrow> children p = Inr cs \<Longrightarrow> set cs \<subseteq> descendants children root"
  by (auto simp: descendants_def child_of_def intro: rtranclp.rtrancl_into_rtrancl)

lemma tree_done:
  assumes "tree_inv children root index pids" and "length pids \<le> index"
  shows "set pids = descendants children root" "\<forall>p\<in>set pids. \<exists>cs. children p = Inr cs"
proof -
  show "\<forall>p\<in>set pids. \<exists>cs. children p = Inr cs"
  proof
    fix p assume "p \<in> set pids"
    then obtain i where "i < length pids" "pids ! i = p" by (auto simp: in_set_conv_nth)
    moreover from this(1) have "i < index" using assms(2) by simp
    ultimately show "\<exists>cs. children p = Inr cs" using assms(1) unfolding tree_inv_def by blast
  qed
  show "set pids = descendants children root"
  proof
    show "set pids \<subseteq> descendants children root" using assms(1) by (simp add: tree_inv_def)
    show "descendants children root \<subseteq> set pids"
    proof
      fix q assume "q \<in> descendants children root"
      then have "(child_of children)\<^sup>*\<^sup>* root q" by (simp add: descendants_def)
      then show "q \<in> set pids"
      proof induction
        case base
        then show ?case using assms(1) by (simp add: tree_inv_def)
      next
        case (step p q)
        then obtain i where "i < length pids" "pids ! i = p" by (auto simp: in_set_conv_nth)
        moreover have "i < index" using \<open>i < length pids\<close> assms(2) by simp
        ultimately obtain cs where "children p = Inr cs" "set cs \<subseteq> set pids" using assms(1) unfolding tree_inv_def by blast
        with step(2) show ?case by (auto simp: child_of_def)
      qed
    qed
  qed
qed

lemma tree_inv_step:
  assumes "tree_inv children root index pids" and "index < length pids" and "children (pids ! index) = Inr cs"
  shows "tree_inv children root (Suc index) (fst (add_children cs pids (set pids)))
    \<and> snd (add_children cs pids (set pids)) = set (fst (add_children cs pids (set pids)))"
proof -
  have d: "distinct pids" using assms(1) by (simp add: tree_inv_def)
  from add_children_spec [OF refl d, of cs] obtain new where new:
    "fst (add_children cs pids (set pids)) = pids @ new" "distinct (pids @ new)"
    "snd (add_children cs pids (set pids)) = set (pids @ new)" "set (pids @ new) = set pids \<union> set cs" by blast
  have "set cs \<subseteq> descendants children root"
  proof (rule descendants_closed [where p = "pids ! index"])
    show "pids ! index \<in> descendants children root" using assms(1,2) nth_mem by (fastforce simp: tree_inv_def)
    show "children (pids ! index) = Inr cs" by (rule assms(3))
  qed
  moreover have "\<exists>ds. children ((pids @ new) ! i) = Inr ds \<and> set ds \<subseteq> set (pids @ new)" if "i < Suc index" for i
  proof (cases "i = index")
    case True
    with assms(2,3) new(4) show ?thesis by (simp add: nth_append)
  next
    case False
    with that have i: "i < index" "i < length pids" using assms(2) by auto
    with assms(1) obtain ds where "children (pids ! i) = Inr ds" "set ds \<subseteq> set pids" unfolding tree_inv_def by blast
    with i show ?thesis by (auto simp: nth_append)
  qed
  ultimately show ?thesis using assms(1) new by (auto simp: tree_inv_def)
qed

lemma tree_loop_result:
  assumes "finite (descendants children root)"
  shows "tree_inv children root index pids \<Longrightarrow>
    (\<exists>out. tree_loop children index pids (set pids) = Some (Inr out) \<and> distinct out \<and> set out = descendants children root
      \<and> (\<forall>p\<in>descendants children root. \<exists>cs. children p = Inr cs))
    \<or> (\<exists>e. tree_loop children index pids (set pids) = Some (Inl e) \<and> (\<exists>p\<in>descendants children root. children p = Inl e))"
proof (induction "card (descendants children root) - index" arbitrary: index pids rule: less_induct)
  case less
  show ?case
  proof (cases "index < length pids")
    case False
    with tree_done [OF less.prems] less.prems show ?thesis
      by (subst (1) tree_loop.simps) (simp add: tree_inv_def)
  next
    case True
    have len: "length pids \<le> card (descendants children root)"
      using less.prems assms card_mono [of "descendants children root" "set pids"] distinct_card [of pids]
      by (simp add: tree_inv_def)
    show ?thesis
    proof (cases "children (pids ! index)")
      case (Inl e)
      have "pids ! index \<in> descendants children root" using less.prems True nth_mem by (fastforce simp: tree_inv_def)
      with Inl True have "tree_loop children index pids (set pids) = Some (Inl e)" by (subst tree_loop.simps) simp
      with Inl \<open>pids ! index \<in> _\<close> show ?thesis by blast
    next
      case (Inr cs)
      let ?pids = "fst (add_children cs pids (set pids))"
      note step = tree_inv_step [OF less.prems True Inr]
      have "card (descendants children root) - Suc index < card (descendants children root) - index"
        using True len by simp
      from less.hyps [OF this step [THEN conjunct1]] have
        "(\<exists>out. tree_loop children (Suc index) ?pids (set ?pids) = Some (Inr out) \<and> distinct out \<and> set out = descendants children root
           \<and> (\<forall>p\<in>descendants children root. \<exists>cs. children p = Inr cs))
         \<or> (\<exists>e. tree_loop children (Suc index) ?pids (set ?pids) = Some (Inl e) \<and> (\<exists>p\<in>descendants children root. children p = Inl e))" .
      moreover have "tree_loop children index pids (set pids) = tree_loop children (Suc index) ?pids (set ?pids)"
        using True Inr step by (subst tree_loop.simps) simp
      ultimately show ?thesis by simp
    qed
  qed
qed

text \<open>The sessions whose rollouts a process has open, as far as its files can be listed.\<close>

definition sessions_held :: "(int \<Rightarrow> string + string list) \<Rightarrow> int \<Rightarrow> string set" where
  "sessions_held openTargets pid =
     (case openTargets pid of
        Inl e \<Rightarrow> {}
      | Inr targets \<Rightarrow> set (map ToLower (List.map_filter codexSessionIDFromRolloutPath targets)))"

lemma owned_loop_sessions:
  "fst (owned_loop openTargets pids owned lastErr n) = owned \<union> (\<Union>pid\<in>set pids. sessions_held openTargets pid)"
  by (induction pids arbitrary: owned lastErr n) (auto simp: sessions_held_def split: sum.split)

lemma owned_loop_successes:
  "n \<le> snd (snd (owned_loop openTargets pids owned lastErr n))
   \<and> (snd (snd (owned_loop openTargets pids owned lastErr n)) = n \<longleftrightarrow> (\<forall>pid\<in>set pids. \<exists>e. openTargets pid = Inl e))
   \<and> (fst (snd (owned_loop openTargets pids owned lastErr n)) = None \<longleftrightarrow>
        lastErr = None \<and> (\<forall>pid\<in>set pids. \<exists>ts. openTargets pid = Inr ts))"
proof (induction pids arbitrary: owned lastErr n)
  case (Cons pid pids)
  show ?case
  proof (cases "openTargets pid")
    case (Inl e)
    with Cons.IH [where owned = owned and lastErr = "Some e" and n = n] show ?thesis by simp
  next
    case (Inr ts)
    with Cons.IH [where owned = "owned \<union> set (map ToLower (List.map_filter codexSessionIDFromRolloutPath ts))" and lastErr = lastErr and n = "Suc n"]
    show ?thesis by auto
  qed
qed simp

lemma owned_loop_error:
  "fst (snd (owned_loop openTargets pids owned lastErr n)) = Some e \<Longrightarrow> lastErr = Some e \<or> (\<exists>pid\<in>set pids. openTargets pid = Inl e)"
  by (induction pids arbitrary: owned lastErr n) (force split: sum.splits)+

lemma owned_by_pids:
  "pids \<noteq> [] \<Longrightarrow> \<forall>pid\<in>set pids. \<exists>e. openTargets pid = Inl e \<Longrightarrow>
     \<exists>e. codexRolloutsOwnedByPIDs pids openTargets = Inl e \<and> (\<exists>pid\<in>set pids. openTargets pid = Inl e)"
  "\<exists>pid\<in>set pids. \<exists>ts. openTargets pid = Inr ts \<Longrightarrow>
     codexRolloutsOwnedByPIDs pids openTargets = Inr (\<Union>pid\<in>set pids. sessions_held openTargets pid)"
proof -
  obtain owned le n where o: "owned_loop openTargets pids {} None 0 = (owned, le, n)" by (metis prod_cases3)
  have u: "owned = (\<Union>pid\<in>set pids. sessions_held openTargets pid)"
    using owned_loop_sessions [of openTargets pids "{}" None 0] o by simp
  have n: "n = 0 \<longleftrightarrow> (\<forall>pid\<in>set pids. \<exists>e. openTargets pid = Inl e)"
    "le = None \<longleftrightarrow> (\<forall>pid\<in>set pids. \<exists>ts. openTargets pid = Inr ts)"
    using owned_loop_successes [where n = 0 and openTargets = openTargets and pids = pids and owned = "{}" and lastErr = None] o by simp_all
  show "\<exists>e. codexRolloutsOwnedByPIDs pids openTargets = Inl e \<and> (\<exists>pid\<in>set pids. openTargets pid = Inl e)"
    if "pids \<noteq> []" and all: "\<forall>pid\<in>set pids. \<exists>e. openTargets pid = Inl e"
  proof -
    have "le \<noteq> None" using that n(2) by (cases pids) auto
    then obtain e where e: "le = Some e" by blast
    with owned_loop_error [of openTargets pids "{}" None 0 e] o n(1) all show ?thesis
      by (simp add: codexRolloutsOwnedByPIDs_def)
  qed
  show "codexRolloutsOwnedByPIDs pids openTargets = Inr (\<Union>pid\<in>set pids. sessions_held openTargets pid)"
    if "\<exists>pid\<in>set pids. \<exists>ts. openTargets pid = Inr ts"
  proof -
    have "n \<noteq> 0" using that n(1) by fastforce
    with o u show ?thesis by (simp add: codexRolloutsOwnedByPIDs_def)
  qed
qed

text \<open>
  C27: the sessions a process owns, when the process has finitely many descendants (so that the search
  ends). If the children of every descendant can be listed, the search gives each descendant once, the
  process included; then, if the files of at least one of them can be listed, the owned sessions are exactly
  those whose rollouts some of them holds open, as far as the files can be listed, and if the files of none
  can be listed, the result is the error of one of them. If the children of some descendant cannot be
  listed, the result is the error of one such descendant.
\<close>

theorem process_sessions_exact:
  assumes "finite (descendants (codexChildPIDs pgrep) pid)" and "0 < pid"
  defines "tree \<equiv> descendants (codexChildPIDs pgrep) pid"
  shows "((\<forall>p\<in>tree. \<exists>cs. codexChildPIDs pgrep p = Inr cs) \<longrightarrow>
      (\<exists>pids. codexProcessTreePIDs (codexChildPIDs pgrep) pid = Some (Inr pids) \<and> distinct pids \<and> set pids = tree)
      \<and> ((\<exists>p\<in>tree. \<exists>ts. openTargets p = Inr ts) \<longrightarrow>
           codexRolloutsOwnedByPID pgrep openTargets pid = Some (Inr (\<Union>p\<in>tree. sessions_held openTargets p)))
      \<and> ((\<forall>p\<in>tree. \<exists>e. openTargets p = Inl e) \<longrightarrow>
           (\<exists>e. codexRolloutsOwnedByPID pgrep openTargets pid = Some (Inl e) \<and> (\<exists>p\<in>tree. openTargets p = Inl e))))
    \<and> ((\<exists>p\<in>tree. \<exists>e. codexChildPIDs pgrep p = Inl e) \<longrightarrow>
      (\<exists>e. codexRolloutsOwnedByPID pgrep openTargets pid = Some (Inl e) \<and> (\<exists>p\<in>tree. codexChildPIDs pgrep p = Inl e)))"
proof -
  have inv: "tree_inv (codexChildPIDs pgrep) pid 0 [pid]" by (simp add: tree_inv_def descendants_def)
  from tree_loop_result [OF assms(1) inv] consider
      (pids) pids where "codexProcessTreePIDs (codexChildPIDs pgrep) pid = Some (Inr pids)" "distinct pids" "set pids = tree"
        "\<forall>p\<in>tree. \<exists>cs. codexChildPIDs pgrep p = Inr cs"
    | (err) e where "codexProcessTreePIDs (codexChildPIDs pgrep) pid = Some (Inl e)" "\<exists>p\<in>tree. codexChildPIDs pgrep p = Inl e"
    by (auto simp: codexProcessTreePIDs_def tree_def)
  then show ?thesis
  proof cases
    case pids
    then have r: "codexRolloutsOwnedByPID pgrep openTargets pid = Some (codexRolloutsOwnedByPIDs pids openTargets)"
      using assms(2) by (simp add: codexRolloutsOwnedByPID_def)
    have "\<not> (\<exists>p\<in>tree. \<exists>e. codexChildPIDs pgrep p = Inl e)" using pids(4) by force
    moreover have "pid \<in> tree" by (simp add: tree_def descendants_def)
    then have "pids \<noteq> []" using pids(3) by auto
    ultimately show ?thesis using pids r owned_by_pids [of pids openTargets, unfolded pids(3)] by auto
  next
    case err
    then have "\<not> (\<forall>p\<in>tree. \<exists>cs. codexChildPIDs pgrep p = Inr cs)" by force
    moreover have "codexRolloutsOwnedByPID pgrep openTargets pid = Some (Inl e)"
      using err(1) assms(2) by (simp add: codexRolloutsOwnedByPID_def)
    ultimately show ?thesis using err(2) by blast
  qed
qed

definition sample_pgrep :: "int \<Rightarrow> run_result" where
  "sample_pgrep pid = (if pid = 7 then RunOutput (''8'' @ [CHR 0x0A]) else RunExit 1 ''exit status 1'')"

lemma sample_children: "codexChildPIDs sample_pgrep p = Inr (if p = 7 then [8] else [])"
proof -
  have "Fields (''8'' @ [CHR 0x0A]) = [''8'']"
    by (simp add: Fields_def rune_segs.simps DecodeRune_ascii byte_def IsSpace_def)
  moreover have "Atoi ''8'' = Some 8" by code_simp
  ultimately show ?thesis by (simp add: codexChildPIDs_def sample_pgrep_def List.map_filter_def)
qed

theorem process_sessions_exact_witness:
  "codexRolloutsOwnedByPID sample_pgrep (\<lambda>p. Inr []) 7 = Some (Inr {})"
proof -
  have "descendants (codexChildPIDs sample_pgrep) 7 \<subseteq> {7, 8}"
  proof
    fix q assume "q \<in> descendants (codexChildPIDs sample_pgrep) 7"
    then have "(child_of (codexChildPIDs sample_pgrep))\<^sup>*\<^sup>* 7 q" by (simp add: descendants_def)
    then show "q \<in> {7, 8}" by induction (auto simp: child_of_def sample_children split: if_splits)
  qed
  then have "finite (descendants (codexChildPIDs sample_pgrep) 7)" by (rule finite_subset) simp
  moreover have "sessions_held (\<lambda>p. Inr []) p = {}" for p by (simp add: sessions_held_def List.map_filter_def)
  ultimately show ?thesis
    using process_sessions_exact [of sample_pgrep 7 "\<lambda>p. Inr []"] by (auto simp: sample_children descendants_def)
qed

end
