(* ===== verification/Codex.thy ===== *)
theory Codex
  imports Aiden Codex_Screen Codex_Transcript Codex_Process
begin

text \<open>
  The Codex adapter (\<open>internal/adapter/codex.go\<close>): it pastes an input into the terminal of the
  tool, presses Enter until the history confirms it, and follows the transcript of the session
  until the turn ends. Channels are the lists of what was put into them; the cancelled \<open>Send\<close>s are
  listed by number. \<open>owned\<close> is \<open>deps.ownedRollouts\<close>, by default \<open>codexRolloutsOwnedByPID\<close>.
\<close>

section \<open>The adapter\<close>

record CodexAdapter =
  cx_cmdPath :: string
  cx_model :: string
  cx_profile :: string
  cx_resumeID :: string
  cx_cmd :: "(command \<times> int) option"
  cx_errCh :: "string option list"
  cx_ready :: "string option list"
  cx_events :: "AdapterEvent list"
  cx_activeSend :: "nat option"
  cx_nextSend :: nat
  cx_cancelled :: "nat list"
  cx_readyOnce :: bool
  cx_closed :: bool
  cx_started :: bool
  cx_screen :: string
  cx_kills :: nat

definition NewCodexAdapter :: "AdapterOptions \<Rightarrow> CodexAdapter" where
  "NewCodexAdapter opts =
     \<lparr>cx_cmdPath = (if ao_CliPath opts = [] then ''codex'' else ao_CliPath opts),
      cx_model = ao_Model opts, cx_profile = ao_Profile opts, cx_resumeID = ao_ResumeSessionID opts,
      cx_cmd = None, cx_errCh = [], cx_ready = [], cx_events = [], cx_activeSend = None, cx_nextSend = 0,
      cx_cancelled = [], cx_readyOnce = False, cx_closed = False, cx_started = False, cx_screen = [], cx_kills = 0\<rparr>"

definition codex_Name :: "CodexAdapter \<Rightarrow> string" where
  "codex_Name a = ''codex:'' @ cx_cmdPath a"

definition codex_resolveBin :: "(string \<Rightarrow> string) \<Rightarrow> (string \<Rightarrow> string + string) \<Rightarrow> CodexAdapter \<Rightarrow> string + string" where
  "codex_resolveBin quote look a =
     (if IsAbs (cx_cmdPath a) then Inr (cx_cmdPath a)
      else case look (cx_cmdPath a) of
        Inl e \<Rightarrow> Inl (''codex binary '' @ quote (cx_cmdPath a) @ '' not found in PATH: '' @ e)
      | Inr bin \<Rightarrow> Inr bin)"

definition codex_buildArgs :: "string \<Rightarrow> CodexAdapter \<Rightarrow> string list" where
  "codex_buildArgs workingDir a =
     (let base = [''--dangerously-bypass-approvals-and-sandbox'', ''--dangerously-bypass-hook-trust'',
                  ''--no-alt-screen'', ''-c'', ''check_for_update_on_startup=false''] in
      if cx_resumeID a \<noteq> [] then
        let base = (if cx_profile a \<noteq> [] then base @ [''--profile'', cx_profile a] else base)
        in [''resume''] @ base @ [cx_resumeID a]
      else
        let base = (if cx_profile a \<noteq> [] then base @ [''--profile'', cx_profile a] else base);
            base = (if cx_model a \<noteq> [] then base @ [''--model'', cx_model a] else base);
            base = (if workingDir \<noteq> [] then base @ [''-C'', workingDir] else base)
        in base)"

text \<open>\<open>pty\<close> starts the command in a pseudo terminal: an error, or the id of the process.\<close>

definition codex_Start ::
  "(string \<Rightarrow> string) \<Rightarrow> (string \<Rightarrow> string + string) \<Rightarrow> string list \<Rightarrow> (command \<Rightarrow> string + int) \<Rightarrow> string
     \<Rightarrow> CodexAdapter \<Rightarrow> CodexAdapter \<times> (string + CliStartResult)" where
  "codex_Start quote look environ pty workingDir a =
     (if cx_closed a then (a, Inl ''codex adapter already closed'')
      else if cx_started a then (a, Inl ''codex adapter already started'')
      else case codex_resolveBin quote look a of
        Inl e \<Rightarrow> (a, Inl e)
      | Inr bin \<Rightarrow>
          let cmd = \<lparr>cm_bin = bin, cm_args = codex_buildArgs workingDir a, cm_dir = workingDir,
                     cm_env = terminal_env environ\<rparr> in
          (case pty cmd of
             Inl e \<Rightarrow> (a, Inl (''pty start codex: '' @ e))
           | Inr pid \<Rightarrow> (a\<lparr>cx_cmd := Some (cmd, pid), cx_started := True\<rparr>,
               Inr \<lparr>sr_hasReadyResult = True, sr_hasEvents = True, sr_StructuredOutput = True, sr_ReadyDelay = 0\<rparr>)))"

definition cancel_send :: "nat option \<Rightarrow> CodexAdapter \<Rightarrow> CodexAdapter" where
  "cancel_send s a = (case s of None \<Rightarrow> a | Some s \<Rightarrow> a\<lparr>cx_cancelled := s # cx_cancelled a\<rparr>)"

definition codex_Close :: "CodexAdapter \<Rightarrow> CodexAdapter" where
  "codex_Close a =
     (if cx_closed a then a
      else
        let a = a\<lparr>cx_closed := True\<rparr>;
            a = cancel_send (cx_activeSend a) a
        in if cx_cmd a \<noteq> None then a\<lparr>cx_kills := Suc (cx_kills a)\<rparr> else a)"

section \<open>Readiness\<close>

definition publishReady :: "string option \<Rightarrow> CodexAdapter \<Rightarrow> CodexAdapter" where
  "publishReady err a =
     (if cx_readyOnce a then a else a\<lparr>cx_readyOnce := True, cx_ready := cx_ready a @ [err]\<rparr>)"

definition observeReady :: "string \<Rightarrow> CodexAdapter \<Rightarrow> CodexAdapter" where
  "observeReady chunk a =
     (let a = a\<lparr>cx_screen := push_screen (cx_screen a) chunk\<rparr>;
          screen = stripCodexANSI (cx_screen a)
      in if codexComposerReady screen then publishReady None a else a)"

text \<open>
  One round of \<open>pumpOutput\<close>: the bytes read, whether the read ended with an error, and whether
  writing them on failed. The result: the adapter, what is passed on, whether the loop goes on.
\<close>

definition pumpOutput :: "string \<Rightarrow> bool \<Rightarrow> bool \<Rightarrow> CodexAdapter \<Rightarrow> CodexAdapter \<times> string \<times> bool" where
  "pumpOutput chunk readFails writeFails a =
     (let a = (if chunk \<noteq> [] then observeReady chunk a else a) in
      if chunk \<noteq> [] \<and> writeFails then (a, [], False) else (a, chunk, \<not> readFails))"

text \<open>The goroutine that waits for the process, when \<open>cmd.Wait\<close> returns \<open>err\<close>.\<close>

definition codex_exited :: "string option \<Rightarrow> CodexAdapter \<Rightarrow> CodexAdapter" where
  "codex_exited err a =
     (let a = publishReady err a in if cx_errCh a = [] then a\<lparr>cx_errCh := [err]\<rparr> else a)"

section \<open>Sending and interrupting\<close>

definition paste_body :: "string \<Rightarrow> string" where
  "paste_body normalized = ESC # ''[200~'' @ normalized @ ESC # ''[201~''"

text \<open>What the terminal took, and the error; \<open>None\<close> when the write never returns.\<close>

definition writeCodexInput ::
  "(nat \<Rightarrow> string \<Rightarrow> write_round) \<Rightarrow> string \<Rightarrow> CodexAdapter \<Rightarrow> (string \<times> string option) option" where
  "writeCodexInput world data a =
     (if cx_closed a then Some ([], Some ''codex adapter is closed'')
      else if cx_cmd a = None then Some ([], Some ''codex adapter not started'')
      else
        (case writeAll world 0 data of
           None \<Rightarrow> None
         | Some (out, Written) \<Rightarrow> Some (out, None)
         | Some (out, WriteFails e) \<Rightarrow> Some (out, Some e)))"

definition ownsSession :: "(int \<Rightarrow> string + string set) \<Rightarrow> string \<Rightarrow> CodexAdapter \<Rightarrow> bool" where
  "ownsSession owned sessionID a =
     (case cx_cmd a of
        None \<Rightarrow> False
      | Some (_, pid) \<Rightarrow> (case owned pid of Inl _ \<Rightarrow> False | Inr ids \<Rightarrow> ToLower sessionID \<in> ids))"

text \<open>
  What the world does in a \<open>Send\<close>: the size of the rollout of the resumed session (if it is found)
  and of the history, the writer's rounds, the waits, and at Enter \<open>k\<close> what others do to the
  adapter before it, the error of the context before and after, the history at each poll, the
  owned rollouts then, and the events of the wait.
\<close>

record codex_world =
  cw_rolloutSize :: "int option"
  cw_historySize :: int
  cw_paste :: "nat \<Rightarrow> string \<Rightarrow> write_round"
  cw_pasteWait :: "string option"
  cw_env :: "nat \<Rightarrow> CodexAdapter \<Rightarrow> CodexAdapter"
  cw_before :: "nat \<Rightarrow> string option"
  cw_enter :: "nat \<Rightarrow> nat \<Rightarrow> string \<Rightarrow> write_round"
  cw_history :: "nat \<Rightarrow> nat \<Rightarrow> string option"
  cw_owned :: "nat \<Rightarrow> nat \<Rightarrow> int \<Rightarrow> string + string set"
  cw_events :: "nat \<Rightarrow> history_event list"
  cw_after :: "nat \<Rightarrow> string option"

fun confirm_loop ::
  "codex_world \<Rightarrow> string \<Rightarrow> nat \<Rightarrow> nat \<Rightarrow> CodexAdapter \<Rightarrow> (CodexAdapter \<times> string \<times> (string + string)) option" where
  "confirm_loop w normalized k 0 a = Some (a, [], Inl ''codex submit not confirmed after 3 Enter attempts'')"
| "confirm_loop w normalized k (Suc n) a =
     (let a = cw_env w k a in
      case cw_before w k of
        Some e \<Rightarrow> Some (a, [], Inl e)
      | None \<Rightarrow>
          (case writeCodexInput (cw_enter w k) [CHR 0x0D] a of
             None \<Rightarrow> None
           | Some (out, Some e) \<Rightarrow> Some (a, out, Inl (''codex submit input: '' @ e))
           | Some (out, None) \<Rightarrow>
               (case waitForCodexHistory (cw_history w k) 0 (cw_historySize w) normalized
                       (\<lambda>j. Some (\<lambda>sid. ownsSession (cw_owned w k j) sid a)) (cw_events w k) of
                  None \<Rightarrow> None
                | Some (Inr sessionID) \<Rightarrow> Some (a, out, Inr sessionID)
                | Some (Inl _) \<Rightarrow>
                    (case cw_after w k of
                       Some e \<Rightarrow> Some (a, out, Inl e)
                     | None \<Rightarrow>
                         (case confirm_loop w normalized (Suc k) n a of
                            None \<Rightarrow> None
                          | Some (a, out', r) \<Rightarrow> Some (a, out @ out', r))))))"

text \<open>The watcher that a confirmed \<open>Send\<close> starts.\<close>

record watcher =
  wt_turnID :: u64
  wt_sessionID :: string
  wt_input :: string
  wt_offset :: int

text \<open>
  The result of \<open>Send\<close>: the adapter, what the terminal took, the error or the session id (empty
  for a blank input), and the watcher started. The deferred section ends the active send.
\<close>

definition end_send :: "nat \<Rightarrow> CodexAdapter \<Rightarrow> CodexAdapter" where
  "end_send s a =
     (let a = cancel_send (Some s) a in if cx_activeSend a = Some s then a\<lparr>cx_activeSend := None\<rparr> else a)"

definition codex_Send ::
  "codex_world \<Rightarrow> context_turn \<Rightarrow> string \<Rightarrow> CodexAdapter
     \<Rightarrow> (CodexAdapter \<times> string \<times> (string + string) \<times> watcher option) option" where
  "codex_Send w ctx input a =
     (let turnID = fst (TurnIDFromContext ctx); normalized = normalizeCodexInput input in
      if cx_closed a then Some (a, [], Inl ''codex adapter is closed'', None)
      else if TrimSpace normalized = [] then Some (a, [], Inr [], None)
      else
        let started = cx_started a; s = cx_nextSend a;
            offset = (if cx_resumeID a \<noteq> [] then (case cw_rolloutSize w of Some n \<Rightarrow> n | None \<Rightarrow> 0) else 0);
            a = a\<lparr>cx_activeSend := Some s, cx_nextSend := Suc s\<rparr>
        in (case writeCodexInput (cw_paste w) (paste_body normalized) a of
              None \<Rightarrow> None
            | Some (out, Some e) \<Rightarrow> Some (end_send s a, out, Inl (''codex paste input: '' @ e), None)
            | Some (out, None) \<Rightarrow>
                (case waitContext (cw_pasteWait w) (200 * Millisecond) of
                   Some e \<Rightarrow> Some (end_send s a, out, Inl e, None)
                 | None \<Rightarrow>
                     (case confirm_loop w normalized 0 3 a of
                        None \<Rightarrow> None
                      | Some (a, out', Inl e) \<Rightarrow> Some (end_send s a, out @ out', Inl e, None)
                      | Some (a, out', Inr sessionID) \<Rightarrow>
                          Some (end_send s a, out @ out', Inr sessionID,
                            if started then Some \<lparr>wt_turnID = turnID, wt_sessionID = sessionID,
                              wt_input = normalized, wt_offset = offset\<rparr> else None)))))"

definition codex_Interrupt ::
  "(nat \<Rightarrow> string \<Rightarrow> write_round) \<Rightarrow> (CodexAdapter \<Rightarrow> CodexAdapter) \<Rightarrow> CodexAdapter
     \<Rightarrow> (CodexAdapter \<times> string \<times> string option) option" where
  "codex_Interrupt world env a =
     (if cx_closed a then Some (a, [], Some ''codex adapter is closed'')
      else if cx_cmd a = None then Some (a, [], Some ''codex adapter not started'')
      else
        (case writeAll world 0 [ESC] of
           None \<Rightarrow> None
         | Some (out, WriteFails e) \<Rightarrow> Some (a, out, Some (''codex interrupt: '' @ e))
         | Some (out, Written) \<Rightarrow> let a = env a in Some (cancel_send (cx_activeSend a) a, out, None)))"

section \<open>Watching the transcript\<close>

text \<open>\<open>publishAdapterEvent\<close>: the event is taken, unless the context ended first.\<close>

definition publishAdapterEvent :: "bool \<Rightarrow> AdapterEvent \<Rightarrow> CodexAdapter \<Rightarrow> CodexAdapter" where
  "publishAdapterEvent taken event a = (if taken then a\<lparr>cx_events := cx_events a @ [event]\<rparr> else a)"

definition for_turn :: "u64 \<Rightarrow> AdapterEvent \<Rightarrow> AdapterEvent" where
  "for_turn turnID event = event\<lparr>ev_TurnID := turnID\<rparr>"

text \<open>The events of one poll, up to a terminal: the adapter, and whether the watcher ends.\<close>

fun publish_events :: "(AdapterEvent \<Rightarrow> bool) \<Rightarrow> u64 \<Rightarrow> AdapterEvent list \<Rightarrow> CodexAdapter \<Rightarrow> CodexAdapter \<times> bool" where
  "publish_events taken turnID [] a = (a, False)"
| "publish_events taken turnID (event # events) a =
     (let a = publishAdapterEvent (taken event) (for_turn turnID event) a in
      if ev_Kind event = AdapterTurnTerminal then (a, True) else publish_events taken turnID events a)"

datatype watch_event = WatchContext | WatchDeadline | WatchTick

text \<open>The discovery of the rollout: \<open>walk k\<close> is the result of the walk at try \<open>k\<close>.\<close>

datatype discovery = DiscoverFound string | DiscoverContext | DiscoverDeadline | Discovering

fun discover :: "(nat \<Rightarrow> string option) \<Rightarrow> nat \<Rightarrow> watch_event list \<Rightarrow> discovery" where
  "discover walk k evs =
     (case walk k of
        Some path \<Rightarrow> DiscoverFound path
      | None \<Rightarrow>
          (case evs of
             [] \<Rightarrow> Discovering
           | WatchContext # _ \<Rightarrow> DiscoverContext
           | WatchDeadline # _ \<Rightarrow> DiscoverDeadline
           | WatchTick # evs \<Rightarrow> discover walk (Suc k) evs))"

declare discover.simps [simp del]

text \<open>
  The loop over the transcript: \<open>bytes k\<close> is the file at poll \<open>k\<close>, \<open>n\<close> the number of ticks before
  the context ends (or before now).
\<close>

fun watch_loop ::
  "(AdapterEvent \<Rightarrow> bool) \<Rightarrow> u64 \<Rightarrow> (nat \<Rightarrow> string + string) \<Rightarrow> nat \<Rightarrow> nat \<Rightarrow> codexTranscriptCursor
     \<Rightarrow> CodexAdapter \<Rightarrow> CodexAdapter" where
  "watch_loop taken turnID bytes k n c a =
     (case ReadNew (bytes k) c of
        (c, Inl e) \<Rightarrow>
          (let event = terminal_event ATurnFailed ''codex_rollout_read_error'' (safeCodexErrorDetail e)
           in publishAdapterEvent (taken event) (for_turn turnID event) a)
      | (c, Inr events) \<Rightarrow>
          (case publish_events taken turnID events a of
             (a, ended) \<Rightarrow>
               if ended then a
               else (case n of 0 \<Rightarrow> a | Suc n \<Rightarrow> watch_loop taken turnID bytes (Suc k) n c a)))"

declare watch_loop.simps [simp del]

definition watchTranscript ::
  "(AdapterEvent \<Rightarrow> bool) \<Rightarrow> (nat \<Rightarrow> string option) \<Rightarrow> watch_event list \<Rightarrow> (nat \<Rightarrow> string + string) \<Rightarrow> nat
     \<Rightarrow> watcher \<Rightarrow> CodexAdapter \<Rightarrow> CodexAdapter" where
  "watchTranscript taken walk evs bytes n w a =
     (case discover walk 0 evs of
        DiscoverContext \<Rightarrow> a
      | Discovering \<Rightarrow> a
      | DiscoverDeadline \<Rightarrow>
          (let event = terminal_event ATurnFailed ''codex_rollout_missing'' ''Codex rollout was not created after submission''
           in publishAdapterEvent (taken event) (for_turn (wt_turnID w) event) a)
      | DiscoverFound path \<Rightarrow>
          watch_loop taken (wt_turnID w) bytes 0 n
            \<lparr>cu_Path = path, cu_Offset = wt_offset w, cu_Armed = False, cu_Input = wt_input w, cu_terminal = False\<rparr> a)"

section \<open>What is written\<close>

lemma writeAll_out:
  assumes "honest_writer world" and "writeAll world 0 data = Some (out, r)"
  shows "prefix out data \<and> (r = Written \<longrightarrow> out = data)"
  using writeAll_spec [OF assms(1), of 0 data] assms(2) by auto

lemma write_codex_out:
  assumes "honest_writer world" and "writeCodexInput world data a = Some (out, e)"
  shows "prefix out data \<and> (e = None \<longrightarrow> out = data)"
  using assms(2) writeAll_out [OF assms(1), of data]
  by (auto simp: writeCodexInput_def split: if_splits option.splits prod.splits write_end.splits)

lemma confirm_loop_spec:
  assumes "\<And>k. honest_writer (cw_enter w k)"
  shows "confirm_loop w norm k n a = Some (a', out, r) \<Longrightarrow>
    \<exists>j\<le>n. out = replicate j (CHR 0x0D)
      \<and> (\<forall>sid. r = Inr sid \<longrightarrow> 1 \<le> j \<and> sid \<noteq> []
           \<and> (\<exists>i m. matchCodexHistoryDelta (cw_history w i m) (cw_historySize w) norm (Some (\<lambda>s. ownsSession (cw_owned w i m) s a')) = Some sid))"
proof (induction n arbitrary: k a a' out r)
  case (Suc n)
  let ?a = "cw_env w k a"
  let ?wait = "waitForCodexHistory (cw_history w k) 0 (cw_historySize w) norm
    (\<lambda>j. Some (\<lambda>sid. ownsSession (cw_owned w k j) sid ?a)) (cw_events w k)"
  have zero: "out = [] \<Longrightarrow> r = Inl e \<Longrightarrow> ?case" for e by (intro exI [of _ 0]) simp
  have one: "out = [CHR 0x0D] \<Longrightarrow> r = Inl e \<Longrightarrow> ?case" for e by (intro exI [of _ 1]) simp
  show ?case
  proof (cases "cw_before w k")
    case (Some e)
    with Suc.prems zero [of e] show ?thesis by (simp add: Let_def)
  next
    case None
    then obtain o1 e1 where w1: "writeCodexInput (cw_enter w k) [CHR 0x0D] ?a = Some (o1, e1)"
      using Suc.prems by (cases "writeCodexInput (cw_enter w k) [CHR 0x0D] ?a") (auto simp: Let_def)
    note o1 = write_codex_out [OF assms w1]
    show ?thesis
    proof (cases e1)
      case (Some e)
      with Suc.prems None w1 have "out = o1 \<and> r = Inl (''codex submit input: '' @ e)" by (simp add: Let_def)
      with o1 zero one show ?thesis by (auto simp: prefix_single)
    next
      case e1: None
      with o1 have oc: "o1 = [CHR 0x0D]" by simp
      show ?thesis
      proof (cases ?wait)
        case wn: None
        with Suc.prems None w1 e1 show ?thesis by (simp add: Let_def)
      next
        case wt: (Some x)
        show ?thesis
        proof (cases x)
          case (Inr sid)
          with Suc.prems None w1 e1 wt oc have r: "a' = ?a" "out = [CHR 0x0D]" "r = Inr sid" by (simp_all add: Let_def)
          from wait_history_match [OF wt [unfolded Inr]] obtain m where
            m: "matchCodexHistoryDelta (cw_history w k m) (cw_historySize w) norm (Some (\<lambda>s. ownsSession (cw_owned w k m) s ?a)) = Some sid"
            by blast
          then obtain data where "cw_history w k m = Some data" by (cases "cw_history w k m") (auto simp: matchCodexHistoryDelta_def)
          with m match_delta_sound have "sid \<noteq> []" by metis
          with r m show ?thesis by (intro exI [of _ 1]) auto
        next
          case (Inl e)
          show ?thesis
          proof (cases "cw_after w k")
            case (Some e2)
            with Suc.prems None w1 e1 wt Inl oc one [of e2] show ?thesis by (simp add: Let_def)
          next
            case an: None
            then obtain a2 o2 r2 where rec: "confirm_loop w norm (Suc k) n ?a = Some (a2, o2, r2)"
              using Suc.prems None w1 e1 wt Inl
              by (cases "confirm_loop w norm (Suc k) n ?a") (auto simp: Let_def)
            with Suc.prems None w1 e1 wt Inl an oc have r: "a' = a2" "out = CHR 0x0D # o2" "r = r2" by (simp_all add: Let_def)
            from Suc.IH [OF rec] obtain j where "j \<le> n" "o2 = replicate j (CHR 0x0D)"
              "\<forall>sid. r2 = Inr sid \<longrightarrow> 1 \<le> j \<and> sid \<noteq> [] \<and> (\<exists>i m. matchCodexHistoryDelta (cw_history w i m)
                 (cw_historySize w) norm (Some (\<lambda>s. ownsSession (cw_owned w i m) s a2)) = Some sid)" by blast
            with r show ?thesis by (intro exI [of _ "Suc j"]) auto
          qed
        qed
      qed
    qed
  qed
qed simp

definition codex_options :: AdapterOptions where
  "codex_options = \<lparr>ao_CliType = ''codex'', ao_CliPath = [], ao_Model = [], ao_Profile = [], ao_ResumeSessionID = []\<rparr>"

definition sample_codex :: CodexAdapter where
  "sample_codex = fst (codex_Start id (\<lambda>_. Inr ''/bin/codex'') [] (\<lambda>_. Inr 7) ''/work'' (NewCodexAdapter codex_options))"

definition whole_writer :: "nat \<Rightarrow> string \<Rightarrow> write_round" where
  "whole_writer k data = \<lparr>wr_ctx = None, wr_n = int (length data), wr_err = None, wr_wait = None\<rparr>"

definition prompt_codex :: codex_world where
  "prompt_codex =
     \<lparr>cw_rolloutSize = None, cw_historySize = 0, cw_paste = whole_writer, cw_pasteWait = None, cw_env = (\<lambda>_ a. a),
      cw_before = (\<lambda>_. None), cw_enter = (\<lambda>_. whole_writer),
      cw_history = (\<lambda>k j. Some (sample_history (k + j))), cw_owned = (\<lambda>_ _ _. Inr {''s9''}),
      cw_events = (\<lambda>_. [HistoryDeadline]), cw_after = (\<lambda>_. None)\<rparr>"

lemma whole_writer_honest: "honest_writer whole_writer"
  by (simp add: honest_writer_def whole_writer_def)

lemma writeAll_whole: "writeAll whole_writer k data = Some (data, Written)"
proof (cases "data = []")
  case False
  have "writeAll whole_writer (Suc k) [] = Some ([], Written)" by (simp add: writeAll.simps)
  with False show ?thesis by (subst writeAll.simps) (simp add: whole_writer_def Let_def)
qed (simp add: writeAll.simps)

section \<open>Readiness is reported once\<close>

datatype ready_op = Chunk string | Exited "string option"

fun ready_step :: "CodexAdapter \<Rightarrow> ready_op \<Rightarrow> CodexAdapter" where
  "ready_step a (Chunk c) = fst (pumpOutput c False False a)"
| "ready_step a (Exited err) = codex_exited err a"

text \<open>
  The specification: it keeps all the output, and the first thing that settles the readiness is
  reported.
\<close>

fun first_ready :: "string \<Rightarrow> ready_op list \<Rightarrow> string option list" where
  "first_ready out [] = []"
| "first_ready out (Chunk c # ops) =
     (if c \<noteq> [] \<and> codexComposerReady (stripCodexANSI (keep_last codexScreenBufferBytes (out @ c))) then [None]
      else first_ready (out @ c) ops)"
| "first_ready out (Exited err # ops) = [err]"

lemma ready_once_kept: "cx_readyOnce a \<Longrightarrow> cx_ready (foldl ready_step a ops) = cx_ready a"
proof (induction ops arbitrary: a)
  case (Cons op ops)
  then have "cx_readyOnce (ready_step a op) \<and> cx_ready (ready_step a op) = cx_ready a"
    by (cases op) (auto simp: pumpOutput_def observeReady_def codex_exited_def publishReady_def Let_def)
  with Cons.IH show ?case by simp
qed simp

lemma push_screen_Nil: "push_screen (keep_last codexScreenBufferBytes out) [] = keep_last codexScreenBufferBytes out"
  by (simp add: push_screen_def keep_last_append_keep_last [of _ _ "[]", simplified])

lemma ready_run:
  "\<not> cx_readyOnce a \<Longrightarrow> cx_ready a = [] \<Longrightarrow> cx_screen a = keep_last codexScreenBufferBytes out \<Longrightarrow>
     cx_ready (foldl ready_step a ops) = first_ready out ops"
proof (induction ops arbitrary: a out)
  case (Cons op ops)
  show ?case
  proof (cases op)
    case (Exited err)
    have "cx_readyOnce (ready_step a op)" "cx_ready (ready_step a op) = [err]"
      using Cons.prems Exited by (simp_all add: codex_exited_def publishReady_def Let_def)
    with ready_once_kept Exited show ?thesis by simp
  next
    case (Chunk c)
    let ?a = "a\<lparr>cx_screen := push_screen (cx_screen a) c\<rparr>"
    have scr: "cx_screen ?a = keep_last codexScreenBufferBytes (out @ c)"
      using Cons.prems(3) by (simp add: push_screen_def keep_last_append_keep_last)
    have step: "ready_step a op = (if c = [] then a
        else if codexComposerReady (stripCodexANSI (cx_screen ?a)) then publishReady None ?a else ?a)"
      using Chunk by (simp add: pumpOutput_def observeReady_def Let_def)
    show ?thesis
    proof (cases "c \<noteq> [] \<and> codexComposerReady (stripCodexANSI (keep_last codexScreenBufferBytes (out @ c)))")
      case True
      then have "ready_step a op = publishReady None ?a" using step scr by simp
      then have "cx_readyOnce (ready_step a op)" "cx_ready (ready_step a op) = [None]"
        using Cons.prems by (simp_all add: publishReady_def)
      with ready_once_kept True Chunk show ?thesis by simp
    next
      case False
      then have "ready_step a op = (if c = [] then a else ?a)" using step scr by auto
      moreover have "cx_ready (foldl ready_step (if c = [] then a else ?a) ops) = first_ready (out @ c) ops"
        using Cons.IH [of ?a "out @ c"] Cons.IH [of a out] Cons.prems scr by (cases "c = []") simp_all
      ultimately show ?thesis using Chunk False by auto
    qed
  qed
qed simp

text \<open>
  C28: readiness is reported at most once, and by the first thing that settles it: a chunk after which
  the newest 16 KiB of all the output so far, without control sequences, show the composer, or
  the end of the process, with its error. The screen shows the composer when it shows no start-up
  text and either the remaining context or a prompt that is not followed by a menu option.
\<close>

theorem codex_ready_spec:
  "cx_ready (foldl ready_step (NewCodexAdapter opts) ops) = first_ready [] ops
   \<and> length (first_ready [] ops) \<le> 1
   \<and> (codexComposerReady s \<longleftrightarrow>
        \<not> list_ex (Contains s) [''Resuming session'', ''model: loading'', ''Welcome to Codex'', ''Sign in with'']
        \<and> (Contains s ''% left''
           \<or> (\<exists>j. prefix chevron (drop j s) \<and> \<not> menu_option (after_chevron (drop (j + length chevron) s)))))"
proof -
  have "length (first_ready out ops) \<le> 1" for out
    by (induction out ops rule: first_ready.induct) simp_all
  moreover have "cx_ready (foldl ready_step (NewCodexAdapter opts) ops) = first_ready [] ops"
    by (rule ready_run) (simp_all add: NewCodexAdapter_def)
  ultimately show ?thesis by (simp add: codexComposerReady_def composer_loop_iff)
qed

text \<open>A process that ends without an error before the composer shows is reported as ready.\<close>

lemma exit_reports_ready: "cx_ready (foldl ready_step (NewCodexAdapter opts) [Exited None]) = [None]"
  by (simp add: ready_run NewCodexAdapter_def codex_exited_def publishReady_def Let_def)

section \<open>What a watcher reports\<close>

lemma publish_all:
  "turn_events events \<Longrightarrow> publish_events (\<lambda>_. True) i events a =
     (a\<lparr>cx_events := cx_events a @ map (for_turn i) events\<rparr>, events \<noteq> [])"
proof (induction events arbitrary: a)
  case (Cons e es)
  show ?case
  proof (cases "es = []")
    case True
    with Cons.prems show ?thesis by (simp add: turn_events_def publishAdapterEvent_def)
  next
    case False
    with Cons.prems have "ev_Kind e = AdapterOutput" "turn_events es" by (auto simp: turn_events_def)
    with Cons.IH [of "publishAdapterEvent True (for_turn i e) a"] False show ?thesis
      by (simp add: publishAdapterEvent_def)
  qed
qed simp

lemma ReadNew_turn_events: "ReadNew r c = (c', Inr events) \<Longrightarrow> turn_events events"
  using parse_lines_events by (auto simp: ReadNew_def Let_def case_prod_unfold turn_events_def split: sum.splits option.splits)

lemma watch_loop_events:
  "\<exists>evs. watch_loop (\<lambda>_. True) i bytes k n c a = a\<lparr>cx_events := cx_events a @ map (for_turn i) evs\<rparr> \<and> turn_events evs"
proof (induction n arbitrary: k c a)
  case 0
  obtain c' r where r: "ReadNew (bytes k) c = (c', r)" by fastforce
  show ?case
  proof (cases r)
    case (Inl e)
    with r show ?thesis
      by (intro exI [of _ "[terminal_event ATurnFailed ''codex_rollout_read_error'' (safeCodexErrorDetail e)]"])
        (simp add: watch_loop.simps publishAdapterEvent_def turn_events_def terminal_event_def Let_def)
  next
    case (Inr events)
    with r ReadNew_turn_events have "turn_events events" by blast
    with r Inr show ?thesis by (intro exI [of _ events]) (simp add: watch_loop.simps publish_all)
  qed
next
  case (Suc n)
  obtain c' r where r: "ReadNew (bytes k) c = (c', r)" by fastforce
  show ?case
  proof (cases r)
    case (Inl e)
    with r show ?thesis
      by (intro exI [of _ "[terminal_event ATurnFailed ''codex_rollout_read_error'' (safeCodexErrorDetail e)]"])
        (simp add: watch_loop.simps publishAdapterEvent_def turn_events_def terminal_event_def Let_def)
  next
    case (Inr events)
    with r ReadNew_turn_events have t: "turn_events events" by blast
    show ?thesis
    proof (cases "events = []")
      case False
      with r Inr t show ?thesis by (intro exI [of _ events]) (simp add: watch_loop.simps publish_all)
    next
      case True
      with r Inr t have "watch_loop (\<lambda>_. True) i bytes k (Suc n) c a = watch_loop (\<lambda>_. True) i bytes (Suc k) n c' a"
        by (simp add: watch_loop.simps [of _ _ _ _ "Suc n"])
      with Suc.IH show ?thesis by simp
    qed
  qed
qed

text \<open>
  A watcher reports one end of its turn. Whatever the walks find, the transcript holds and the
  clock does, what it publishes is nothing (it is still at it, or its context ended), or the
  output of the turn followed by one terminal; every event carries the id of its turn, and after
  the terminal it publishes nothing more.
\<close>

lemma watch_events:
  "\<exists>evs. watchTranscript (\<lambda>_. True) walk evts bytes n w a = a\<lparr>cx_events := cx_events a @ map (for_turn (wt_turnID w)) evs\<rparr>
     \<and> turn_events evs"
proof (cases "discover walk 0 evts")
  case (DiscoverFound path)
  with watch_loop_events show ?thesis by (simp add: watchTranscript_def)
next
  case DiscoverDeadline
  then show ?thesis
    by (intro exI [of _ "[terminal_event ATurnFailed ''codex_rollout_missing'' ''Codex rollout was not created after submission'']"])
      (simp add: watchTranscript_def publishAdapterEvent_def turn_events_def terminal_event_def Let_def)
qed (auto simp: watchTranscript_def turn_events_def intro: exI [of _ "[]"])

section \<open>The contract of an adapter\<close>

text \<open>The critical sections of the adapter besides \<open>Start\<close> and \<open>Close\<close>.\<close>

datatype codex_section = ReadySection ready_op | BeginSend | EndSend nat | CancelSend

fun codex_sect :: "CodexAdapter \<Rightarrow> codex_section \<Rightarrow> CodexAdapter" where
  "codex_sect a (ReadySection op) = ready_step a op"
| "codex_sect a BeginSend = a\<lparr>cx_activeSend := Some (cx_nextSend a), cx_nextSend := Suc (cx_nextSend a)\<rparr>"
| "codex_sect a (EndSend s) = end_send s a"
| "codex_sect a CancelSend = cancel_send (cx_activeSend a) a"

type_synonym codex_start = "(string \<Rightarrow> string) \<times> (string \<Rightarrow> string + string) \<times> string list \<times> (command \<Rightarrow> string + int) \<times> string"

definition codex_start_call :: "codex_start \<Rightarrow> CodexAdapter \<Rightarrow> CodexAdapter \<times> (string + CliStartResult)" where
  "codex_start_call w = (case w of (quote, look, environ, pty, dir) \<Rightarrow> codex_Start quote look environ pty dir)"

definition codex_send_call ::
  "codex_world \<times> context_turn \<times> string \<Rightarrow> CodexAdapter \<Rightarrow> (string \<times> string option) option" where
  "codex_send_call s a =
     (case s of (w, ctx, input) \<Rightarrow>
        (case codex_Send w ctx input a of
           None \<Rightarrow> None
         | Some (a, out, Inl e, _) \<Rightarrow> Some (out, Some e)
         | Some (a, out, Inr _, _) \<Rightarrow> Some (out, None)))"

definition codex_inv :: "CodexAdapter \<Rightarrow> bool" where
  "codex_inv a \<longleftrightarrow> (cx_cmd a \<noteq> None \<longleftrightarrow> cx_started a)"

lemma codex_sect_keeps:
  "cx_closed (codex_sect a x) = cx_closed a \<and> cx_started (codex_sect a x) = cx_started a
     \<and> cx_kills (codex_sect a x) = cx_kills a \<and> cx_cmd (codex_sect a x) = cx_cmd a"
proof (cases x)
  case (ReadySection op)
  then show ?thesis
    by (cases op) (simp_all add: pumpOutput_def observeReady_def publishReady_def codex_exited_def Let_def)
next
  case (EndSend s)
  then show ?thesis by (simp add: end_send_def cancel_send_def Let_def)
next
  case CancelSend
  then show ?thesis by (simp add: cancel_send_def split: option.split)
qed simp

lemma codex_send_unstarted:
  "codex_inv a \<Longrightarrow> \<not> cx_started a \<Longrightarrow> \<exists>r. codex_send_call s a = Some ([], r)"
  by (cases s) (simp add: codex_send_call_def codex_Send_def writeCodexInput_def codex_inv_def Let_def)

interpretation codex_contract: process_adapter codex_start_call codex_send_call codex_Close codex_sect cx_closed
  cx_started cx_kills codex_inv
proof
  fix a :: CodexAdapter and s
  show "codex_inv a \<Longrightarrow> \<not> cx_started a \<Longrightarrow> \<exists>r. codex_send_call s a = Some ([], r)"
    by (rule codex_send_unstarted)
  show "cx_closed a \<Longrightarrow> \<exists>e. codex_send_call s a = Some ([], Some e)"
    by (cases s) (simp add: codex_send_call_def codex_Send_def)
qed (auto simp: codex_start_call_def codex_Start_def codex_Close_def cancel_send_def codex_inv_def codex_sect_keeps Let_def
    split: sum.splits option.splits if_splits)

section \<open>What a send types\<close>

abbreviation codex_calls :: "CodexAdapter \<Rightarrow> (codex_start, codex_section) adapter_call list \<Rightarrow> CodexAdapter" where
  "codex_calls \<equiv> foldl (adapter_act codex_start_call codex_Close codex_sect)"

text \<open>Once the adapter has a process no call gives it another.\<close>

definition has_process :: "(command \<times> int) option \<Rightarrow> CodexAdapter \<Rightarrow> bool" where
  "has_process c a \<longleftrightarrow> cx_cmd a = c \<and> c \<noteq> None \<and> cx_started a"

lemma codex_inv_calls: "codex_inv a \<Longrightarrow> codex_inv (codex_calls a calls)"
proof (induction calls arbitrary: a)
  case (Cons c calls)
  have "codex_inv (adapter_act codex_start_call codex_Close codex_sect a c)"
  proof (cases c)
    case (CallStart w)
    obtain a' r where "codex_start_call w a = (a', r)" by fastforce
    with codex_contract.start_ok [OF Cons.prems] codex_contract.start_fails [of w a a'] Cons.prems CallStart show ?thesis
      by (cases r) auto
  next
    case CallClose
    with codex_contract.close_again codex_contract.close_kills [OF Cons.prems] Cons.prems show ?thesis
      by (cases "cx_closed a") auto
  qed (use codex_contract.sect_keeps Cons.prems in simp)
  with Cons.IH show ?case by simp
qed simp

lemma process_kept: "has_process c a \<Longrightarrow> has_process c (codex_calls a calls)"
proof (induction calls arbitrary: a)
  case (Cons x calls)
  have "has_process c (adapter_act codex_start_call codex_Close codex_sect a x)"
    using Cons.prems by (cases x) (auto simp: codex_start_call_def codex_Start_def codex_Close_def cancel_send_def has_process_def
      codex_sect_keeps Let_def split: option.split)
  with Cons.IH show ?case by simp
qed simp

lemma confirm_loop_process:
  assumes "\<And>k b. has_process c b \<Longrightarrow> has_process c (cw_env w k b)"
  shows "has_process c a \<Longrightarrow> confirm_loop w norm k n a = Some (a', out, r) \<Longrightarrow> has_process c a'"
proof (induction n arbitrary: k a a' out r)
  case (Suc n)
  have "has_process c (cw_env w k a)" using assms Suc.prems(1) by blast
  with Suc show ?case by (auto simp: Let_def split: option.splits prod.splits sum.splits)
qed auto

lemma owns_same: "cx_cmd a = cx_cmd b \<Longrightarrow> ownsSession owned s a = ownsSession owned s b"
  by (simp add: ownsSession_def)

text \<open>
  C24: what \<open>Send\<close> types into Codex and when it reports success, for an adapter after any calls, while
  others make any calls of it. When the adapter is closed nothing is typed and the send fails; a blank input
  types nothing and succeeds with an empty id. Otherwise the terminal gets the paste of the normalised text
  between its two markers, once, and then Enter at most three times (a failure may leave a start of that, and
  nothing when the adapter has no process); and success means that after at least one Enter the history held
  a complete new line with this text and the id of a session whose rollout this adapter's own process has
  open. A watcher of the transcript is started exactly by such a success of a started adapter, for the turn
  of the send, that session and that text.
\<close>

theorem codex_send_spec:
  assumes "codex_Send w ctx input a = Some (a', out, r, watch)"
    and "a = codex_calls (NewCodexAdapter opts) calls" and "\<forall>k b. cw_env w k b = codex_calls b (others k)"
    and "honest_writer (cw_paste w)" and "\<forall>k. honest_writer (cw_enter w k)"
  defines "norm \<equiv> normalizeCodexInput input"
  shows "(cx_closed a \<longrightarrow> out = [] \<and> watch = None \<and> (\<exists>e. r = Inl e))
    \<and> (\<not> cx_closed a \<and> TrimSpace norm = [] \<longrightarrow> out = [] \<and> watch = None \<and> r = Inr [])
    \<and> (\<not> cx_closed a \<and> TrimSpace norm \<noteq> [] \<longrightarrow>
        (prefix out (paste_body norm) \<and> (cx_cmd a = None \<longrightarrow> out = []) \<and> watch = None \<and> (\<exists>e. r = Inl e))
        \<or> (\<exists>j\<le>3. out = paste_body norm @ replicate j (CHR 0x0D)
            \<and> (\<forall>sid. r = Inr sid \<longrightarrow> 1 \<le> j \<and> sid \<noteq> []
                 \<and> (\<exists>i m. matchCodexHistoryDelta (cw_history w i m) (cw_historySize w) norm
                        (Some (\<lambda>s. ownsSession (cw_owned w i m) s a)) = Some sid)))
          \<and> (\<forall>sid. r = Inr sid \<longrightarrow> (\<exists>n. watch = Some \<lparr>wt_turnID = fst (TurnIDFromContext ctx), wt_sessionID = sid,
                 wt_input = norm, wt_offset = n\<rparr>))
          \<and> (\<forall>e. r = Inl e \<longrightarrow> watch = None))"
proof (cases "cx_closed a \<or> TrimSpace norm = []")
  case True
  then show ?thesis using assms(1) by (auto simp: codex_Send_def norm_def Let_def split: if_splits)
next
  case False
  have inv: "codex_inv a" unfolding assms(2) by (rule codex_inv_calls) (simp add: codex_inv_def NewCodexAdapter_def)
  let ?a = "a\<lparr>cx_activeSend := Some (cx_nextSend a), cx_nextSend := Suc (cx_nextSend a)\<rparr>"
  let ?p = "writeCodexInput (cw_paste w) (paste_body norm) ?a"
  from assms(1) False obtain o1 e1 where p: "?p = Some (o1, e1)"
    by (cases ?p) (auto simp: codex_Send_def norm_def Let_def)
  note o1 = write_codex_out [OF assms(4) p]
  have none: "cx_cmd a = None \<Longrightarrow> o1 = [] \<and> e1 \<noteq> None" using p False by (auto simp: writeCodexInput_def)
  show ?thesis
  proof (cases "e1 \<noteq> None \<or> waitContext (cw_pasteWait w) (200 * Millisecond) \<noteq> None")
    case True
    with assms(1) False p have "out = o1 \<and> watch = None \<and> (\<exists>e. r = Inl e)"
      by (auto simp: codex_Send_def norm_def Let_def split: option.splits)
    with o1 none False show ?thesis by blast
  next
    case go: False
    then have e1: "e1 = None" and w0: "waitContext (cw_pasteWait w) (200 * Millisecond) = None" by auto
    from e1 o1 have oc: "o1 = paste_body norm" by simp
    from none e1 have "cx_cmd a \<noteq> None" by blast
    with inv have pr: "has_process (cx_cmd a) ?a" by (simp add: has_process_def codex_inv_def)
    from assms(1) False p e1 w0 obtain a2 o2 r2 where c: "confirm_loop w norm 0 3 ?a = Some (a2, o2, r2)"
      by (cases "confirm_loop w norm 0 3 ?a") (auto simp: codex_Send_def norm_def Let_def)
    have env: "has_process q b \<Longrightarrow> has_process q (cw_env w k b)" for q k b
      using process_kept assms(3) by simp
    from confirm_loop_process [OF env pr c] have "cx_cmd a2 = cx_cmd a" by (simp add: has_process_def)
    then have own: "ownsSession q s a2 = ownsSession q s a" for q s by (rule owns_same)
    from confirm_loop_spec [OF assms(5) [rule_format] c] obtain j where j: "j \<le> 3" "o2 = replicate j (CHR 0x0D)"
      "\<forall>sid. r2 = Inr sid \<longrightarrow> 1 \<le> j \<and> sid \<noteq> [] \<and> (\<exists>i m. matchCodexHistoryDelta (cw_history w i m)
         (cw_historySize w) norm (Some (\<lambda>s. ownsSession (cw_owned w i m) s a)) = Some sid)"
      unfolding own by blast
    have "cx_started a" using pr by (simp add: has_process_def)
    then have res: "out = o1 @ o2" "r = r2"
      "\<forall>sid. r2 = Inr sid \<longrightarrow> (\<exists>n. watch = Some \<lparr>wt_turnID = fst (TurnIDFromContext ctx), wt_sessionID = sid, wt_input = norm, wt_offset = n\<rparr>)"
      "\<forall>e. r2 = Inl e \<longrightarrow> watch = None"
      using assms(1) False p e1 w0 c by (auto simp: codex_Send_def norm_def Let_def split: sum.splits)
    then show ?thesis using False j oc by blast
  qed
qed

theorem codex_send_spec_witness:
  "\<exists>a' out. codex_Send prompt_codex (Some 5) ''hi'' sample_codex =
       Some (a', out, Inr ''s9'', Some \<lparr>wt_turnID = 5, wt_sessionID = ''s9'', wt_input = ''hi'', wt_offset = 0\<rparr>)
     \<and> (\<exists>j\<le>3. 1 \<le> j \<and> out = paste_body ''hi'' @ replicate j (CHR 0x0D))"
proof -
  have a: "cx_closed sample_codex = False" "cx_started sample_codex" "cx_cmd sample_codex \<noteq> None" "cx_resumeID sample_codex = []"
    by (simp_all add: sample_codex_def codex_Start_def codex_resolveBin_def NewCodexAdapter_def codex_options_def IsAbs_def HasPrefix_def Let_def)
  have t: "TrimSpace ''hi'' \<noteq> []"
    by (simp add: TrimSpace_def rune_segs.simps DecodeRune_ascii byte_def IsSpace_def)
  have n: "normalizeCodexInput ''hi'' = ''hi''" by code_simp
  have cmd: "cx_cmd sample_codex = Some (fst (the (cx_cmd sample_codex)), 7)"
    by (simp add: sample_codex_def codex_Start_def codex_resolveBin_def NewCodexAdapter_def codex_options_def IsAbs_def HasPrefix_def Let_def)
  have m0: "matchCodexHistoryDelta (Some (sample_history 0)) 0 ''hi'' acc = None" for acc
    by (simp add: sample_history_def matchCodexHistoryDelta_def)
  have m1: "matchCodexHistoryDelta (Some (sample_history (Suc k))) 0 ''hi'' (Some acc) = (if acc ''s9'' then Some ''s9'' else None)" for k acc
  proof -
    have "sample_history (Suc k) = sample_history 1" by (simp add: sample_history_def)
    moreover have "sample_history 1 \<noteq> []" "last_newline (sample_history 1) \<noteq> None" by code_simp+
    moreover have "map history_entry (split_byte (CHR 0x0A) (take (the (last_newline (sample_history 1))) (sample_history 1)))
      = [Some \<lparr>he_SessionID = ''s9'', he_Text = ''hi''\<rparr>]" by code_simp
    ultimately show ?thesis
      by (auto simp: matchCodexHistoryDelta_def codexHistoryTextMatches_def split: option.split)
  qed
  let ?a = "sample_codex\<lparr>cx_activeSend := Some (cx_nextSend sample_codex), cx_nextSend := Suc (cx_nextSend sample_codex)\<rparr>"
  have own: "ownsSession (\<lambda>_. Inr {''s9''}) ''s9'' ?a"
  proof -
    have "ToLower ''s9'' = ''s9''" by code_simp
    with cmd show ?thesis by (auto simp: ownsSession_def split: option.split)
  qed
  have wr: "writeCodexInput whole_writer d ?a = Some (d, None)" for d
    using a by (simp add: writeCodexInput_def writeAll_whole)
  have c: "confirm_loop prompt_codex ''hi'' 0 3 ?a = Some (?a, [CHR 0x0D, CHR 0x0D], Inr ''s9'')"
    using own by (simp add: prompt_codex_def wr numeral_3_eq_3 waitForCodexHistory.simps m0 m1)
  have p: "cw_paste prompt_codex = whole_writer" "cw_pasteWait prompt_codex = None" by (simp_all add: prompt_codex_def)
  have S: "codex_Send prompt_codex (Some 5) ''hi'' sample_codex = Some (end_send (cx_nextSend sample_codex) ?a,
      paste_body ''hi'' @ [CHR 0x0D, CHR 0x0D], Inr ''s9'', Some \<lparr>wt_turnID = 5, wt_sessionID = ''s9'', wt_input = ''hi'', wt_offset = 0\<rparr>)"
    using a t n c wr p by (simp add: codex_Send_def TurnIDFromContext_def Let_def waitContext_def)
  have h: "honest_writer (cw_paste prompt_codex)" "\<forall>k. honest_writer (cw_enter prompt_codex k)"
    by (simp_all add: prompt_codex_def whole_writer_honest)
  have calls: "sample_codex = codex_calls (NewCodexAdapter codex_options) [CallStart (id, \<lambda>_. Inr ''/bin/codex'', [], \<lambda>_. Inr 7, ''/work'')]"
    by (simp add: sample_codex_def codex_start_call_def)
  have env: "\<forall>k b. cw_env prompt_codex k b = codex_calls b ((\<lambda>_. []) k)" by (simp add: prompt_codex_def)
  from codex_send_spec [OF S calls env h] n t a have "\<exists>j\<le>3. 1 \<le> j \<and> paste_body ''hi'' @ [CHR 0x0D, CHR 0x0D] = paste_body ''hi'' @ replicate j (CHR 0x0D)"
    by auto
  with S show ?thesis by blast
qed

end
