(* ===== verification/Simple_Adapters.thy ===== *)
theory Simple_Adapters
  imports Aiden
begin

text \<open>
  The three small adapters: the echo used in tests (\<open>mock.go\<close>), a plain pseudo terminal
  (\<open>pty.go\<close>) and a tmux session (\<open>tmux.go\<close>). Pipes, processes and the runs of tmux are given by
  their results; a channel of errors by its contents, its capacity and whether it is closed.
\<close>

section \<open>The mock adapter\<close>

record MockAdapter =
  mk_name :: string
  mk_started :: bool
  mk_closed :: bool
  mk_errCh :: "string list"
  mk_echoDelay :: duration
  mk_lineBuf :: string
  mk_history :: "string list"
  mk_written :: string

definition NewMockAdapter :: "string \<Rightarrow> MockAdapter" where
  "NewMockAdapter name =
     \<lparr>mk_name = (if name = [] then ''mock'' else name), mk_started = False, mk_closed = False, mk_errCh = [],
      mk_echoDelay = 100 * Millisecond, mk_lineBuf = [], mk_history = [], mk_written = []\<rparr>"

definition plain_start :: CliStartResult where
  "plain_start = \<lparr>sr_hasReadyResult = False, sr_hasEvents = False, sr_StructuredOutput = False, sr_ReadyDelay = 0\<rparr>"

text \<open>\<open>lineBuf\<close> is a local of the goroutine that \<open>Start\<close> starts: a new one is empty.\<close>

definition mock_Start :: "MockAdapter \<Rightarrow> MockAdapter \<times> (string + CliStartResult)" where
  "mock_Start m =
     (if mk_closed m then (m, Inl ''mock adapter already closed'')
      else (m\<lparr>mk_started := True, mk_lineBuf := []\<rparr>, Inr plain_start))"

definition mock_response :: "string \<Rightarrow> string" where
  "mock_response line = ''[mock-echo] '' @ line @ [CHR 0x0A]"

text \<open>
  The bytes of one read in \<open>echoLoop\<close>: \<open>broken line\<close> says that writing the response to \<open>line\<close>
  fails, which ends the loop. The result: the adapter, and whether the loop goes on.
\<close>

fun echo_bytes :: "(string \<Rightarrow> bool) \<Rightarrow> string \<Rightarrow> MockAdapter \<Rightarrow> MockAdapter \<times> bool" where
  "echo_bytes broken [] m = (m, True)"
| "echo_bytes broken (b # bs) m =
     (if b = CHR 0x0A then
        let line = mk_lineBuf m;
            m = m\<lparr>mk_lineBuf := []\<rparr>;
            m = m\<lparr>mk_history := mk_history m @ [line]\<rparr>
        in if broken line then (m, False)
           else echo_bytes broken bs (m\<lparr>mk_written := mk_written m @ mock_response line\<rparr>)
      else echo_bytes broken bs (m\<lparr>mk_lineBuf := mk_lineBuf m @ [b]\<rparr>))"

datatype mock_read = MockContextDone | MockBytes string | MockEOF | MockReadError string

text \<open>One round of \<open>echoLoop\<close>; the channel of errors has room for eight.\<close>

definition echoLoop :: "(string \<Rightarrow> bool) \<Rightarrow> mock_read \<Rightarrow> MockAdapter \<Rightarrow> MockAdapter \<times> bool" where
  "echoLoop broken ev m =
     (case ev of
        MockContextDone \<Rightarrow> (m, False)
      | MockEOF \<Rightarrow> (m, False)
      | MockReadError e \<Rightarrow>
          (if length (mk_errCh m) < 8 then m\<lparr>mk_errCh := mk_errCh m @ [''mock read error: '' @ e]\<rparr> else m, False)
      | MockBytes bs \<Rightarrow> echo_bytes broken bs m)"

text \<open>\<open>Send\<close>: what it writes to the pipe, or the error; \<open>wr\<close> is the error of the write.\<close>

definition mock_Send :: "string option \<Rightarrow> string \<Rightarrow> MockAdapter \<Rightarrow> string \<times> string option" where
  "mock_Send wr input m =
     (if mk_closed m then ([], Some ''mock adapter is closed'')
      else if \<not> mk_started m then ([], Some ''mock adapter not started'')
      else
        let data = (if input = [] \<or> last input \<noteq> CHR 0x0A then input @ [CHR 0x0A] else input)
        in (data, wr))"

definition mock_Close :: "MockAdapter \<Rightarrow> MockAdapter" where
  "mock_Close m = (if mk_closed m then m else m\<lparr>mk_closed := True\<rparr>)"

definition mock_History :: "MockAdapter \<Rightarrow> string list" where
  "mock_History m = mk_history m"

text \<open>Reading the input in pieces makes no difference.\<close>

lemma echo_bytes_append:
  "echo_bytes (\<lambda>_. False) (xs @ ys) m = echo_bytes (\<lambda>_. False) ys (fst (echo_bytes (\<lambda>_. False) xs m))"
  by (induction "\<lambda>_ :: string. False" xs m rule: echo_bytes.induct) (simp_all add: Let_def)

lemma echo_line:
  assumes "CHR 0x0A \<notin> set l"
  shows "echo_bytes (\<lambda>_. False) (l @ [CHR 0x0A]) m =
    (m\<lparr>mk_lineBuf := [], mk_history := mk_history m @ [mk_lineBuf m @ l],
       mk_written := mk_written m @ mock_response (mk_lineBuf m @ l)\<rparr>, True)"
  using assms by (induction l arbitrary: m) (auto simp: Let_def)

definition mock_feed :: "string list \<Rightarrow> MockAdapter \<Rightarrow> MockAdapter" where
  "mock_feed pieces m = fold (\<lambda>bs m. fst (echoLoop (\<lambda>_. False) (MockBytes bs) m)) pieces m"

lemma mock_feed_concat: "mock_feed pieces m = fst (echo_bytes (\<lambda>_. False) (concat pieces) m)"
  by (induction pieces arbitrary: m) (simp_all add: mock_feed_def echoLoop_def echo_bytes_append)

lemma mock_lines:
  "list_all (\<lambda>l. CHR 0x0A \<notin> set l) ls \<Longrightarrow> mk_lineBuf m = [] \<Longrightarrow>
     fst (echo_bytes (\<lambda>_. False) (concat (map (\<lambda>l. l @ [CHR 0x0A]) ls)) m)
       = m\<lparr>mk_history := mk_history m @ ls, mk_written := mk_written m @ concat (map mock_response ls)\<rparr>"
proof (induction ls arbitrary: m)
  case (Cons l ls)
  then show ?case
    using echo_bytes_append [of "l @ [CHR 0x0A]" "concat (map (\<lambda>l. l @ [CHR 0x0A]) ls)" m] echo_line [of l m] by simp
qed simp

text \<open>
  The mock answers each line once, whatever pieces the pipe delivers the input in: when inputs
  without a line feed are sent to a started mock, and the bytes of all the \<open>Send\<close>s arrive cut
  up in any way, the history is the list of the inputs, in order, and what it wrote is the list
  of their echoes.
\<close>

lemma mock_echoes:
  assumes "list_all (\<lambda>l. CHR 0x0A \<notin> set l) inputs" and "mk_lineBuf m = []" and "mk_started m" and "\<not> mk_closed m"
    and "concat pieces = concat (map (\<lambda>l. fst (mock_Send None l m)) inputs)"
  shows "mock_History (mock_feed pieces m) = mock_History m @ inputs
    \<and> mk_written (mock_feed pieces m) = mk_written m @ concat (map mock_response inputs)"
proof -
  have "fst (mock_Send None l m) = l @ [CHR 0x0A]" if "CHR 0x0A \<notin> set l" for l
    using that assms(3,4) by (auto simp: mock_Send_def Let_def) (metis last_in_set)
  then have e: "map (\<lambda>l. fst (mock_Send None l m)) inputs = map (\<lambda>l. l @ [CHR 0x0A]) inputs"
    using assms(1) by (auto simp: list_all_iff)
  show ?thesis unfolding mock_feed_concat assms(5) e mock_lines [OF assms(1,2)] by (simp add: mock_History_def)
qed

lemma mock_echoes_witness:
  "mock_History (mock_feed [''a'', [CHR 0x0A, CHR ''b''], ''c'' @ [CHR 0x0A]] (fst (mock_Start (NewMockAdapter [])))) = [''a'', ''bc'']"
proof -
  let ?m = "fst (mock_Start (NewMockAdapter []))"
  have m: "mk_lineBuf ?m = []" "mk_started ?m" "\<not> mk_closed ?m" "mock_History ?m = []"
    by (simp_all add: mock_Start_def NewMockAdapter_def mock_History_def)
  have "list_all (\<lambda>l. CHR 0x0A \<notin> set l) [''a'', ''bc'']" by simp
  moreover have "concat [''a'', [CHR 0x0A, CHR ''b''], ''c'' @ [CHR 0x0A]] = concat (map (\<lambda>l. fst (mock_Send None l ?m)) [''a'', ''bc''])"
    using m by (simp add: mock_Send_def)
  ultimately show ?thesis using mock_echoes [OF _ m(1,2,3)] m(4) by fastforce
qed

section \<open>The pseudo terminal\<close>

record PtyAdapter =
  pt_name :: string
  pt_cmdPath :: string
  pt_started :: bool
  pt_closed :: bool
  pt_errCh :: "string option list"
  pt_errClosed :: bool
  pt_kills :: nat

definition NewPtyAdapter :: "string \<Rightarrow> PtyAdapter" where
  "NewPtyAdapter cmdPath =
     (let cmdPath = (if cmdPath = [] then ''/bin/bash'' else cmdPath) in
      \<lparr>pt_name = ''pty:'' @ cmdPath, pt_cmdPath = cmdPath, pt_started = False, pt_closed = False,
       pt_errCh = [], pt_errClosed = False, pt_kills = 0\<rparr>)"

definition pty_Start ::
  "string list \<Rightarrow> (command \<Rightarrow> string option) \<Rightarrow> string \<Rightarrow> PtyAdapter \<Rightarrow> PtyAdapter \<times> (string + CliStartResult)" where
  "pty_Start environ pty workingDir p =
     (if pt_closed p then (p, Inl ''pty adapter already closed'')
      else
        let cmd = \<lparr>cm_bin = pt_cmdPath p, cm_args = [], cm_dir = workingDir,
                   cm_env = environ @ [''TERM=xterm-256color'', ''LANG=en_US.UTF-8'']\<rparr> in
        (case pty cmd of
           Some e \<Rightarrow> (p, Inl (''pty start '' @ pt_cmdPath p @ '': '' @ e))
         | None \<Rightarrow> (p\<lparr>pt_started := True\<rparr>, Inr plain_start)))"

definition pty_Send :: "string option \<Rightarrow> string \<Rightarrow> PtyAdapter \<Rightarrow> string \<times> string option" where
  "pty_Send wr input p =
     (if pt_closed p then ([], Some ''pty adapter is closed'')
      else if \<not> pt_started p then ([], Some ''pty adapter not started'')
      else
        let data = (if input \<noteq> [] \<and> last input \<noteq> CHR 0x0D then input @ [CHR 0x0D] else input)
        in (data, wr))"

definition pty_Close :: "PtyAdapter \<Rightarrow> PtyAdapter" where
  "pty_Close p =
     (if pt_closed p then p
      else
        let p = p\<lparr>pt_closed := True\<rparr>;
            p = (if pt_started p then p\<lparr>pt_kills := Suc (pt_kills p)\<rparr> else p)
        in p\<lparr>pt_errClosed := True\<rparr>)"

text \<open>
  The goroutine that waits for the process, when \<open>cmd.Wait\<close> returns \<open>err\<close>: a send on a closed
  channel panics, in a \<open>select\<close> with a default too (\<open>None\<close>).
\<close>

definition pty_waiter :: "string option \<Rightarrow> PtyAdapter \<Rightarrow> PtyAdapter option" where
  "pty_waiter err p =
     (if pt_errClosed p then None
      else Some (if length (pt_errCh p) < 8 then p\<lparr>pt_errCh := pt_errCh p @ [err]\<rparr> else p))"

text \<open>
  The process ends after \<open>Close\<close> has killed it, and \<open>Close\<close> has closed the channel: the
  goroutine then panics. It does not when the process had ended before.
\<close>

lemma pty_close_panics:
  "\<not> pt_closed p \<Longrightarrow> pty_waiter err (pty_Close p) = None"
  by (simp add: pty_Close_def pty_waiter_def Let_def)

lemma pty_exit_first: "\<not> pt_errClosed p \<Longrightarrow> pty_waiter err p \<noteq> None"
  by (simp add: pty_waiter_def)

section \<open>tmux\<close>

record TmuxAdapter =
  tm_sessionName :: string
  tm_cliCmd :: string
  tm_workingDir :: string
  tm_started :: bool
  tm_ctxDone :: bool
  tm_errCh :: "string list"
  tm_kills :: "command list"     \<comment> \<open>the commands \<open>Close\<close> has run\<close>

definition new_tmux :: "AdapterOptions \<Rightarrow> TmuxAdapter" where
  "new_tmux opts = \<lparr>tm_sessionName = ''botmux-go'', tm_cliCmd = ao_CliPath opts, tm_workingDir = [],
     tm_started = False, tm_ctxDone = False, tm_errCh = [], tm_kills = []\<rparr>"

definition tmux_command :: "TmuxAdapter \<Rightarrow> string list \<Rightarrow> command" where
  "tmux_command t args = \<lparr>cm_bin = ''tmux'', cm_args = args, cm_dir = tm_workingDir t, cm_env = []\<rparr>"

text \<open>\<open>run\<close> gives the output of a command and its error.\<close>

definition ensureTmux :: "(command \<Rightarrow> string \<times> string option) \<Rightarrow> TmuxAdapter \<Rightarrow> string option" where
  "ensureTmux run t =
     (case run \<lparr>cm_bin = ''tmux'', cm_args = [''has-session'', ''-t'', tm_sessionName t], cm_dir = [], cm_env = []\<rparr> of
        (_, Some e) \<Rightarrow> Some (''tmux session '' @ tm_sessionName t @ '' not found: '' @ e)
      | (_, None) \<Rightarrow> None)"

definition tmux_Start ::
  "(command \<Rightarrow> string \<times> string option) \<Rightarrow> string option \<Rightarrow> string \<Rightarrow> TmuxAdapter \<Rightarrow> TmuxAdapter \<times> (string + CliStartResult)" where
  "tmux_Start run pipe workingDir t =
     (let t = t\<lparr>tm_workingDir := workingDir\<rparr> in
      case ensureTmux run t of
        Some e \<Rightarrow> (t, Inl e)
      | None \<Rightarrow>
          let t = t\<lparr>tm_errCh := [], tm_ctxDone := False\<rparr> in
          (case pipe of
             Some e \<Rightarrow> (t, Inl (''os.Pipe: '' @ e))
           | None \<Rightarrow> (t\<lparr>tm_started := True\<rparr>, Inr plain_start)))"

text \<open>Ranging over a string gives its runes; an invalid byte gives \<open>RuneError\<close>.\<close>

definition escapeTmuxKeys :: "string \<Rightarrow> string" where
  "escapeTmuxKeys s = concat (map (\<lambda>(r, _). EncodeRune r) (rune_segs s))"

definition tmux_Send :: "(command \<Rightarrow> string \<times> string option) \<Rightarrow> string \<Rightarrow> TmuxAdapter \<Rightarrow> string option" where
  "tmux_Send run input t =
     (case ensureTmux run t of
        Some e \<Rightarrow> Some e
      | None \<Rightarrow>
          (case run (tmux_command t [''send-keys'', ''-t'', tm_sessionName t, escapeTmuxKeys input, ''Enter'']) of
             (out, Some e) \<Rightarrow> Some (''tmux send-keys: '' @ out @ '': '' @ e)
           | (_, None) \<Rightarrow> None))"

definition tmux_Close :: "TmuxAdapter \<Rightarrow> TmuxAdapter" where
  "tmux_Close t =
     t\<lparr>tm_ctxDone := True,
       tm_kills := tm_kills t @ [\<lparr>cm_bin = ''tmux'', cm_args = [''kill-session'', ''-t'', tm_sessionName t],
                                 cm_dir = [], cm_env = []\<rparr>]\<rparr>"

text \<open>One round of \<open>readTmuxOutput\<close>: the captured text is thrown away.\<close>

definition readTmuxOutput :: "(command \<Rightarrow> string \<times> string option) \<Rightarrow> TmuxAdapter \<Rightarrow> TmuxAdapter \<times> bool" where
  "readTmuxOutput run t =
     (if tm_ctxDone t then (t, False)
      else case run \<lparr>cm_bin = ''tmux'', cm_args = [''capture-pane'', ''-t'', tm_sessionName t, ''-p''], cm_dir = [], cm_env = []\<rparr> of
        (_, Some e) \<Rightarrow> (t\<lparr>tm_errCh := tm_errCh t @ [e]\<rparr>, False)
      | (_, None) \<Rightarrow> (t, True))"

text \<open>
  \<open>escapeTmuxKeys\<close> escapes nothing: it only replaces the bytes that are not UTF-8. So an input
  that is the name of a key (\<open>C-c\<close>) or begins with a dash is what tmux gets.
\<close>

lemma escape_is_coerce: "escapeTmuxKeys s = coerce_utf8 s"
proof (induction s rule: rune_segs.induct)
  case (1)
  show ?case by (simp add: escapeTmuxKeys_def)
next
  case (2 c cs)
  obtain r n where d: "DecodeRune (c # cs) = (r, n)" by fastforce
  have n: "1 \<le> n" using DecodeRune_size [of "c # cs"] d by simp
  from 2 [OF d [symmetric] refl] have "escapeTmuxKeys (drop (max 1 n) (c # cs)) = coerce_utf8 (drop (max 1 n) (c # cs))" .
  moreover have "drop (max 1 n) (c # cs) = drop (n - 1) cs" using n by (cases n) (simp_all add: max_def)
  moreover have "EncodeRune r = [c]" "n = 1" if "byte c < 0x80"
    using DecodeRune_ascii [OF that, of cs] d that by (auto simp: EncodeRune_def Let_def)
  ultimately show ?case using d by (auto simp: escapeTmuxKeys_def rune_segs.simps(2))
qed

lemma tmux_escapes_nothing: "ValidString s \<Longrightarrow> escapeTmuxKeys s = s"
  by (simp add: escape_is_coerce coerce_valid)

section \<open>The contract of an adapter\<close>

text \<open>
  The mock and the pseudo terminal keep the contract of an adapter that can be closed. They accept a
  second start, so a pseudo terminal can leave a process behind; tmux keeps neither contract.
\<close>

definition mock_start_call :: "unit \<Rightarrow> MockAdapter \<Rightarrow> MockAdapter \<times> (string + CliStartResult)" where
  "mock_start_call w = mock_Start"

definition mock_send_call :: "string option \<times> string \<Rightarrow> MockAdapter \<Rightarrow> (string \<times> string option) option" where
  "mock_send_call s m = Some (mock_Send (fst s) (snd s) m)"

definition mock_sect :: "MockAdapter \<Rightarrow> (string \<Rightarrow> bool) \<times> mock_read \<Rightarrow> MockAdapter" where
  "mock_sect m x = fst (echoLoop (fst x) (snd x) m)"

lemma echo_bytes_closed: "mk_closed (fst (echo_bytes broken bs m)) = mk_closed m"
  by (induction broken bs m rule: echo_bytes.induct) (simp_all add: Let_def)

interpretation mock_contract: closable_adapter mock_start_call mock_send_call mock_Close mock_sect mk_closed
  by unfold_locales
    (auto simp: mock_start_call_def mock_Start_def mock_send_call_def mock_Send_def mock_Close_def mock_sect_def echoLoop_def
      echo_bytes_closed split: mock_read.split)

definition pty_start_call ::
  "string list \<times> (command \<Rightarrow> string option) \<times> string \<Rightarrow> PtyAdapter \<Rightarrow> PtyAdapter \<times> (string + CliStartResult)" where
  "pty_start_call w = (case w of (environ, pty, dir) \<Rightarrow> pty_Start environ pty dir)"

definition pty_send_call :: "string option \<times> string \<Rightarrow> PtyAdapter \<Rightarrow> (string \<times> string option) option" where
  "pty_send_call s p = Some (pty_Send (fst s) (snd s) p)"

definition pty_sect :: "PtyAdapter \<Rightarrow> string option \<Rightarrow> PtyAdapter" where
  "pty_sect p err = (case pty_waiter err p of None \<Rightarrow> p | Some p \<Rightarrow> p)"

interpretation pty_contract: closable_adapter pty_start_call pty_send_call pty_Close pty_sect pt_closed
  by unfold_locales
    (auto simp: pty_start_call_def pty_Start_def pty_send_call_def pty_Send_def pty_Close_def pty_sect_def pty_waiter_def
      Let_def split: option.splits if_splits)

lemma pty_second_start_leaks:
  "adapter_starts pty_start_call pty_Close pty_sect (NewPtyAdapter [])
      [CallStart ([], \<lambda>_. None, []), CallStart ([], \<lambda>_. None, []), CallClose] = 2
   \<and> pt_kills (foldl (adapter_act pty_start_call pty_Close pty_sect) (NewPtyAdapter [])
      [CallStart ([], \<lambda>_. None, []), CallStart ([], \<lambda>_. None, []), CallClose]) = 1"
  by (simp add: pty_start_call_def pty_Start_def pty_Close_def NewPtyAdapter_def Let_def)

text \<open>Every tmux adapter works on the same tmux session, and closing one kills it for all of them.\<close>

lemma tmux_close_kills_all:
  "\<exists>c. tm_kills (tmux_Close (new_tmux o1)) = tm_kills (new_tmux o1) @ [c]
    \<and> cm_bin c = ''tmux'' \<and> cm_args c = [''kill-session'', ''-t'', tm_sessionName (new_tmux o2)]"
  by (simp add: tmux_Close_def new_tmux_def)

end
