(* ===== verification/Adapters.thy ===== *)
theory Adapters
  imports Worker_Safety Codex Simple_Adapters
begin

text \<open>
  The adapters together: which kinds are registered when the program runs, and a turn of Codex from
  the transcript to the messages its worker sends.
\<close>

section \<open>The registered adapters\<close>

datatype CliAdapter = IsMock MockAdapter | IsPty PtyAdapter | IsTmux TmuxAdapter | IsAiden AidenAdapter | IsCodex CodexAdapter

text \<open>The \<open>init\<close> functions of the package, in the order of its files.\<close>

definition adapterFactories :: "CliAdapter registry" where
  "adapterFactories =
     RegisterFactory ''tmux'' (\<lambda>opts. IsTmux (new_tmux opts))
       (RegisterFactory ''pty'' (\<lambda>opts. IsPty (NewPtyAdapter (ao_CliPath opts)))
         (RegisterFactory ''mock'' (\<lambda>opts. IsMock (NewMockAdapter (ao_CliType opts)))
           (RegisterFactory ''codex'' (\<lambda>opts. IsCodex (NewCodexAdapter opts))
             (RegisterFactory ''aiden'' (\<lambda>opts. IsAiden (NewAidenAdapter opts)) Map.empty))))"

text \<open>The adapter that \<open>New\<close> gives a worker.\<close>

definition worker_adapter :: "Options \<Rightarrow> CliAdapter option" where
  "worker_adapter opts = Create adapterFactories
     \<lparr>ao_CliType = op_CliType opts, ao_CliPath = op_CliPath opts, ao_Model = op_Model opts,
      ao_Profile = op_CodexProfile opts, ao_ResumeSessionID = op_ResumeSessionID opts\<rparr>"

lemma registered_kinds: "ListKinds adapterFactories = {''mock'', ''pty'', ''tmux'', ''aiden'', ''codex''}"
  by (auto simp: ListKinds_def adapterFactories_def RegisterFactory_def split: if_splits)

lemma worker_adapter_iff: "worker_adapter opts \<noteq> None \<longleftrightarrow> op_CliType opts \<in> ListKinds adapterFactories"
  by (auto simp: worker_adapter_def Create_def ListKinds_def dom_def split: option.split)

text \<open>The configuration offers a kind that no adapter is registered for.\<close>

lemma claude_has_no_adapter: "op_CliType opts = CliClaude \<Longrightarrow> worker_adapter opts = None"
  using worker_adapter_iff [of opts] by (auto simp: registered_kinds CliClaude_def)

section \<open>A turn of Codex, from the transcript to the daemon\<close>

definition feed_events :: "time \<Rightarrow> AdapterEvent list \<Rightarrow> Worker \<Rightarrow> Worker" where
  "feed_events now evs w = fold (\<lambda>ev w. fst (readAdapterEvents None now id (EventReceived ev) w)) evs w"

definition event_terminal :: "AdapterEvent \<Rightarrow> TurnTerminal" where
  "event_terminal ev = \<lparr>tt_Status = ev_Status ev, ErrorCode = ev_ErrorCode ev, ErrorDetail = ev_ErrorDetail ev\<rparr>"

lemma output_event_sent:
  assumes "cliType w = ''codex''" and "turnContextForID ''codex'' (w_turn w) i \<noteq> None" and "i \<noteq> 0"
    and "w_conn w = Some c" and "ev_Kind e = AdapterOutput" and "ev_TurnID e = i"
  shows "\<exists>o'. handle_adapter_event None now id e w =
    w\<lparr>outputIdleObserver := o', w_outbox := w_outbox w @
        (if ev_Output e = [] then [] else [(c, worker_message now MsgOutput (ev_Output e) w)])\<rparr>"
proof (cases "ev_Output e = []")
  case True
  with assms show ?thesis by (intro exI [of _ "outputIdleObserver w"]) (auto simp: handle_adapter_event_def)
next
  case False
  with assms show ?thesis
    by (intro exI [of _ "MarkOutput now (outputIdleObserver w)"]) (auto simp: handle_adapter_event_def worker_send_defs Let_def)
qed

lemma terminal_event_sent:
  assumes "cliType w = ''codex''" and "turnContextForID ''codex'' (w_turn w) i \<noteq> None" and "i \<noteq> 0"
    and "w_conn w = Some c" and "ev_Kind e = AdapterTurnTerminal" and "ev_TurnID e = i"
  shows "w_outbox (handle_adapter_event None now id e w) =
      w_outbox w @ [(c, worker_message now MsgTurnCompleted (encode_terminal (event_terminal e)) w)]
    \<and> \<not> turnInFlight (w_turn (handle_adapter_event None now id e w))"
proof -
  have t: "turnInFlight (w_turn w)" "turnID (w_turn w) = i"
    using assms(2) by (auto simp: turnContextForID_def split: if_splits)
  have "\<not> turnInFlight (cancelTurnLocked (t\<lparr>turnInFlight := False\<rparr>))" for t
    by (auto simp: cancelTurnLocked_def call_cancel_def split: option.split)
  with t assms show ?thesis
    by (auto simp: handle_adapter_event_def completeTurn_def finishTurnWithID_def sendTurnTerminal_def worker_send_defs
        event_terminal_def Let_def)
qed

lemma feed_turn_events:
  assumes "turn_events es" and "es \<noteq> []" and "i \<noteq> 0"
  shows "cliType w = ''codex'' \<Longrightarrow> turnContextForID ''codex'' (w_turn w) i \<noteq> None \<Longrightarrow> w_conn w = Some c \<Longrightarrow>
    w_outbox (feed_events now (map (for_turn i) es) w) = w_outbox w
        @ map (\<lambda>e. (c, worker_message now MsgOutput (ev_Output e) w)) (filter (\<lambda>e. ev_Output e \<noteq> []) (butlast es))
        @ [(c, worker_message now MsgTurnCompleted (encode_terminal (event_terminal (last es))) w)]
    \<and> \<not> turnInFlight (w_turn (feed_events now (map (for_turn i) es) w))"
  using assms
proof (induction es arbitrary: w)
  case (Cons e es)
  note prems = Cons.prems
  let ?e = "for_turn i e"
  have feed: "feed_events now (map (for_turn i) (e # es)) w = feed_events now (map (for_turn i) es) (handle_adapter_event None now id ?e w)"
    by (simp add: feed_events_def readAdapterEvents_def)
  show ?case
  proof (cases "es = []")
    case True
    have "ev_Kind ?e = AdapterTurnTerminal" "ev_TurnID ?e = i" using prems(4) True by (simp_all add: turn_events_def for_turn_def)
    from terminal_event_sent [OF prems(1,2,6,3) this, of now] True show ?thesis
      unfolding feed by (simp add: feed_events_def event_terminal_def for_turn_def)
  next
    case False
    have k: "ev_Kind ?e = AdapterOutput" "ev_TurnID ?e = i" "turn_events es"
      using prems(4) False by (auto simp: turn_events_def for_turn_def)
    from output_event_sent [OF prems(1,2,6,3) k(1,2), of now] obtain o' where
      h: "handle_adapter_event None now id ?e w = w\<lparr>outputIdleObserver := o', w_outbox := w_outbox w @
        (if ev_Output ?e = [] then [] else [(c, worker_message now MsgOutput (ev_Output ?e) w)])\<rparr>" by blast
    have m: "worker_message now ty p (handle_adapter_event None now id ?e w) = worker_message now ty p w" for ty p
      unfolding h by (simp add: worker_message_def)
    let ?w = "handle_adapter_event None now id ?e w"
    have w': "cliType ?w = ''codex''" "turnContextForID ''codex'' (w_turn ?w) i \<noteq> None" "w_conn ?w = Some c"
      using prems(1,2,3) by (simp_all add: h)
    have "ev_Output ?e = ev_Output e" by (simp add: for_turn_def)
    then have out: "w_outbox ?w = w_outbox w
        @ map (\<lambda>e. (c, worker_message now MsgOutput (ev_Output e) w)) (filter (\<lambda>e. ev_Output e \<noteq> []) [e])"
      by (simp add: h)
    from Cons.IH [OF w' k(3) False prems(6)] show ?thesis
      unfolding feed m out using False by simp
  qed
qed simp

text \<open>
  C22: a Codex turn reaches the daemon as it ends in the transcript. When the watcher of the turn in
  flight has published something, it has published the output of the turn followed by one terminal, all of it
  under the id of the turn. When the worker is connected and handles those events in order, it sends exactly
  one message for each output that is not empty, with its text and in order, and then one turn terminal with
  the status, code and detail of the last event; after that the turn is no longer in flight.
\<close>

theorem codex_turn_reported:
  assumes "cliType w = ''codex''" and "turnContextForID ''codex'' (w_turn w) i \<noteq> None" and "i \<noteq> 0" and "w_conn w = Some c"
    and "wt_turnID wt = i" and "cx_events a = []" and "evs = cx_events (watchTranscript (\<lambda>_. True) walk evts bytes n wt a)"
    and "evs \<noteq> []"
  shows "list_all (\<lambda>e. ev_Kind e = AdapterOutput \<and> ev_TurnID e = i) (butlast evs)
    \<and> ev_Kind (last evs) = AdapterTurnTerminal \<and> ev_TurnID (last evs) = i
    \<and> w_outbox (feed_events now evs w) = w_outbox w
        @ map (\<lambda>e. (c, worker_message now MsgOutput (ev_Output e) w)) (filter (\<lambda>e. ev_Output e \<noteq> []) (butlast evs))
        @ [(c, worker_message now MsgTurnCompleted (encode_terminal (event_terminal (last evs))) w)]
    \<and> \<not> turnInFlight (w_turn (feed_events now evs w))"
proof -
  obtain es where es: "watchTranscript (\<lambda>_. True) walk evts bytes n wt a = a\<lparr>cx_events := cx_events a @ map (for_turn (wt_turnID wt)) es\<rparr>"
    "turn_events es" using watch_events [of walk evts bytes n wt a] by blast
  then have evs: "evs = map (for_turn i) es" using assms(5,6,7) by simp
  with assms(8) have ne: "es \<noteq> []" by simp
  have for_turn: "ev_Output (for_turn i e) = ev_Output e" "ev_Kind (for_turn i e) = ev_Kind e" "ev_TurnID (for_turn i e) = i"
    "event_terminal (for_turn i e) = event_terminal e" for e
    by (simp_all add: for_turn_def event_terminal_def)
  have last: "last evs = for_turn i (last es)" "butlast evs = map (for_turn i) (butlast es)"
    using ne by (simp_all add: evs last_map map_butlast)
  have "list_all (\<lambda>e. ev_Kind e = AdapterOutput) (butlast es)" "ev_Kind (last es) = AdapterTurnTerminal"
    using es(2) ne by (auto simp: turn_events_def list_all_iff)
  then show ?thesis
    using feed_turn_events [OF es(2) ne assms(3,1,2,4), of now]
    unfolding last by (simp add: evs for_turn list_all_iff filter_map comp_def)
qed

lemma sample_watch:
  "cx_events (watchTranscript (\<lambda>_. True) (\<lambda>_. Some ''r'') [] (\<lambda>_. Inr (sample_user_line @ sample_end_line)) 0
     \<lparr>wt_turnID = 1, wt_sessionID = ''s9'', wt_input = ''hi'', wt_offset = 0\<rparr> (NewCodexAdapter codex_options)) \<noteq> []"
proof -
  let ?t = "sample_user_line @ sample_end_line"
  have "cursor_in ?t sample_cursor" by (simp add: cursor_in_def sample_cursor_def)
  from ReadNew_in [OF this] obtain c' where
    r: "ReadNew (Inr ?t) sample_cursor = (c', Inr (snd (parse_lines (complete_lines ?t) sample_cursor)))"
    by (simp add: sample_cursor_def)
  then have "turn_events (snd (parse_lines (complete_lines ?t) sample_cursor))" by (rule ReadNew_turn_events)
  moreover have "snd (parse_lines (complete_lines ?t) sample_cursor) \<noteq> []" using sample_transcript by auto
  moreover have "\<lparr>cu_Path = ''r'', cu_Offset = 0, cu_Armed = False, cu_Input = ''hi'', cu_terminal = False\<rparr> = sample_cursor"
    by (simp add: sample_cursor_def)
  ultimately show ?thesis
    by (simp add: watchTranscript_def discover.simps watch_loop.simps r publish_all del: append_assoc)
qed

theorem codex_turn_reported_witness:
  "\<exists>w. turnInFlight (w_turn running_worker) \<and> w = feed_events 9 (cx_events (watchTranscript (\<lambda>_. True) (\<lambda>_. Some ''r'') []
       (\<lambda>_. Inr (sample_user_line @ sample_end_line)) 0 \<lparr>wt_turnID = 1, wt_sessionID = ''s9'', wt_input = ''hi'', wt_offset = 0\<rparr>
       (NewCodexAdapter codex_options))) (fst (publishConnection 3 3 running_worker))
     \<and> \<not> turnInFlight (w_turn w) \<and> msg_Type (snd (last (w_outbox w))) = MsgTurnCompleted"
proof -
  let ?w = "fst (publishConnection 3 3 running_worker)"
  have w: "cliType ?w = ''codex''" "turnContextForID ''codex'' (w_turn ?w) 1 \<noteq> None" "w_conn ?w = Some 3" "turnInFlight (w_turn running_worker)"
    by code_simp+
  have a: "cx_events (NewCodexAdapter codex_options) = []" by (simp add: NewCodexAdapter_def)
  from codex_turn_reported [OF w(1,2) _ w(3) _ a refl sample_watch, of 9] w(4)
  show ?thesis by (simp add: worker_message_def NewMessage_def)
qed

section \<open>Closing the tool\<close>

text \<open>
  C23: the Codex and the Aiden adapter run one process and end it: whatever calls and critical sections of
  the adapter happen in whatever order after its creation, at most one start succeeds, closing kills the
  process exactly when one was started before, and while nothing was started, and for good once the adapter
  is closed, no input reaches the tool and after a close every input is refused. (The pseudo-terminal adapter
  does not keep this: a second start succeeds and the first process is never killed.)
\<close>

theorem adapter_processes_exact:
  fixes opts
  defines "run_codex \<equiv> foldl (adapter_act codex_start_call codex_Close codex_sect) (NewCodexAdapter opts)"
    and "run_aiden \<equiv> foldl (adapter_act aiden_start_call aiden_Close note_step) (NewAidenAdapter opts)"
    and "starts_codex \<equiv> adapter_starts codex_start_call codex_Close codex_sect (NewCodexAdapter opts)"
    and "starts_aiden \<equiv> adapter_starts aiden_start_call aiden_Close note_step (NewAidenAdapter opts)"
  shows "starts_codex cs \<le> 1 \<and> cx_kills (run_codex cs) = of_bool (CallClose \<in> set cs) * starts_codex cs
    \<and> (CallClose \<in> set cs \<longrightarrow> (\<exists>e. codex_send_call s (run_codex cs) = Some ([], Some e)))
    \<and> (starts_codex cs = 0 \<longrightarrow> (\<exists>r. codex_send_call s (run_codex cs) = Some ([], r)))
    \<and> starts_aiden as \<le> 1 \<and> aa_kills (run_aiden as) = of_bool (CallClose \<in> set as) * starts_aiden as
    \<and> (CallClose \<in> set as \<longrightarrow> (\<exists>e. aiden_send_call t (run_aiden as) = Some ([], Some e)))
    \<and> (starts_aiden as = 0 \<longrightarrow> (\<exists>r. aiden_send_call t (run_aiden as) = Some ([], r)))"
proof -
  have c: "\<not> cx_started (NewCodexAdapter opts)" "codex_inv (NewCodexAdapter opts)" "\<not> cx_closed (NewCodexAdapter opts)"
    "cx_kills (NewCodexAdapter opts) = 0"
    by (simp_all add: NewCodexAdapter_def codex_inv_def)
  have a: "\<not> aa_started (NewAidenAdapter opts)" "aiden_inv (NewAidenAdapter opts)" "\<not> aa_closed (NewAidenAdapter opts)"
    "aa_kills (NewAidenAdapter opts) = 0"
    by (simp_all add: NewAidenAdapter_def aiden_inv_def)
  show ?thesis
    unfolding run_codex_def run_aiden_def starts_codex_def starts_aiden_def
    using codex_contract.processes [OF c(1-3), of cs] codex_contract.silent_before_start [OF c(1-3), of cs s]
      codex_contract.dead_after_close [of cs undefined "NewCodexAdapter opts" s] c(4)
      aiden_contract.processes [OF a(1-3), of as] aiden_contract.silent_before_start [OF a(1-3), of as t]
      aiden_contract.dead_after_close [of as undefined "NewAidenAdapter opts" t] a(4)
    by simp
qed

theorem adapter_processes_exact_witness:
  "cx_kills (foldl (adapter_act codex_start_call codex_Close codex_sect) (NewCodexAdapter codex_options)
      [CallStart (id, Inr, [], \<lambda>_. Inr 7, []), CallSection BeginSend, CallClose, CallClose]) = 1
   \<and> (\<exists>e. codex_send_call (prompt_codex, None, ''hi'') (foldl (adapter_act codex_start_call codex_Close codex_sect)
        (NewCodexAdapter codex_options)
        [CallStart (id, Inr, [], \<lambda>_. Inr 7, []), CallSection BeginSend, CallClose, CallClose]) = Some ([], Some e))"
proof -
  let ?cs = "[CallStart (id, Inr, [], \<lambda>_. Inr 7, []), CallSection BeginSend, CallClose, CallClose]"
  have "adapter_starts codex_start_call codex_Close codex_sect (NewCodexAdapter codex_options) ?cs = 1"
    by (simp add: codex_start_call_def codex_Start_def codex_resolveBin_def codex_Close_def NewCodexAdapter_def Let_def
        cancel_send_def)
  then show ?thesis
    using adapter_processes_exact [of codex_options ?cs "(prompt_codex, None, ''hi'')" "[]"] by simp
qed

end
