(* ===== verification/Http_Message.thy ===== *)
theory Http_Message
  imports Daemon_Router
begin

text \<open>
  \<open>internal/daemon/http_server.go\<close>, the vocabulary: requests, responses, the bodies the API
  reads and writes with their JSON, query parameters and pages. \<open>net/http\<close> has split a request
  into the parts of \<open>http_req\<close>; \<open>Query\<close> is the parsed query string in order. A response is
  the status, the headers in the order they are set, and the body. \<open>fmt\<close> formats a time
  (RFC 3339).
\<close>

record http_req =
  rq_Method :: string
  rq_Path :: string
  rq_EscapedPath :: string
  rq_Query :: "(string \<times> string) list"
  rq_ContentLength :: int
  rq_Body :: string

record http_resp =
  rs_Status :: nat
  rs_Header :: "(string \<times> string) list"
  rs_Body :: string

definition MethodGet :: string where "MethodGet = ''GET''"
definition MethodPost :: string where "MethodPost = ''POST''"
definition MethodDelete :: string where "MethodDelete = ''DELETE''"
definition MethodOptions :: string where "MethodOptions = ''OPTIONS''"

lemmas method_defs = MethodGet_def MethodPost_def MethodDelete_def MethodOptions_def

text \<open>\<open>q.Get(key)\<close>: the first value, or the empty string.\<close>

definition query_get :: "http_req \<Rightarrow> string \<Rightarrow> string" where
  "query_get r key = (case map_of (rq_Query r) key of None \<Rightarrow> [] | Some v \<Rightarrow> v)"

section \<open>Writing responses\<close>

text \<open>\<open>json.NewEncoder(w).Encode(v)\<close> ends the value with a line feed.\<close>

definition writeJSON :: "nat \<Rightarrow> json \<Rightarrow> http_resp" where
  "writeJSON status v =
     \<lparr>rs_Status = status, rs_Header = [(''Content-Type'', ''application/json'')],
      rs_Body = json_encode v @ [CHR 0x0A]\<rparr>"

definition writeError :: "nat \<Rightarrow> string \<Rightarrow> http_resp" where
  "writeError status msg = writeJSON status (JObj [(''error'', JStr msg)])"

definition json_int :: "int \<Rightarrow> json" where "json_int i = JNum (itoa i)"
definition json_nat :: "nat \<Rightarrow> json" where "json_nat n = JNum (itoa (int n))"
definition json_strs :: "string list \<Rightarrow> json" where "json_strs ss = JArr (map JStr ss)"

lemma status_write [simp]: "rs_Status (writeJSON s v) = s" "rs_Status (writeError s m) = s"
  by (simp_all add: writeJSON_def writeError_def)

section \<open>Response bodies\<close>

record healthzResponse =
  hz_OK :: bool
  hz_Listen :: string
  hz_Dashboard :: string
  hz_StartedAt :: string
  hz_SessionsCount :: nat
  hz_WorkersCount :: nat
  hz_BotsCount :: nat
  hz_Version :: string

definition healthz_json :: "healthzResponse \<Rightarrow> json" where
  "healthz_json r = JObj
     [(''ok'', JBool (hz_OK r)), (''listen'', JStr (hz_Listen r)), (''dashboard'', JStr (hz_Dashboard r)),
      (''started_at'', JStr (hz_StartedAt r)), (''sessions_count'', json_nat (hz_SessionsCount r)),
      (''workers_count'', json_nat (hz_WorkersCount r)), (''bots_count'', json_nat (hz_BotsCount r)),
      (''version'', JStr (hz_Version r))]"

record sessionListItem =
  li_SessionID :: string
  li_BotID :: string
  li_CliType :: string
  li_CodexProfile :: string
  li_Status :: string
  li_Pid :: int
  li_Closed :: bool
  li_CreatedAt :: string
  li_LastActive :: string
  li_Outputs :: "string list"

definition item_json :: "sessionListItem \<Rightarrow> json" where
  "item_json i = JObj
     ([(''session_id'', JStr (li_SessionID i)), (''bot_id'', JStr (li_BotID i)), (''cli_type'', JStr (li_CliType i))]
      @ omit_empty ''codex_profile'' (li_CodexProfile i)
      @ [(''status'', JStr (li_Status i)), (''pid'', json_int (li_Pid i)), (''closed'', JBool (li_Closed i)),
         (''created_at'', JStr (li_CreatedAt i)), (''last_active'', JStr (li_LastActive i)),
         (''outputs'', json_strs (li_Outputs i))])"

record sessionListResponse =
  sl_Total :: nat
  sl_Count :: nat
  sl_Limit :: nat
  sl_Offset :: nat
  sl_Items :: "sessionListItem list"

definition list_json :: "sessionListResponse \<Rightarrow> json" where
  "list_json r = JObj
     [(''total'', json_nat (sl_Total r)), (''count'', json_nat (sl_Count r)), (''limit'', json_nat (sl_Limit r)),
      (''offset'', json_nat (sl_Offset r)), (''items'', JArr (map item_json (sl_Items r)))]"

record workerSnapshot =
  ws_Pid :: int
  ws_Ready :: bool
  ws_LastHb :: string

definition worker_json :: "workerSnapshot \<Rightarrow> json" where
  "worker_json s = JObj [(''pid'', json_int (ws_Pid s)), (''ready'', JBool (ws_Ready s)), (''last_hb'', JStr (ws_LastHb s))]"

record sessionDetailResponse =
  sd_SessionID :: string
  sd_BotID :: string
  sd_CliType :: string
  sd_CodexProfile :: string
  sd_CliPath :: string
  sd_WorkingDir :: string
  sd_Status :: string
  sd_Pid :: int
  sd_Closed :: bool
  sd_CreatedAt :: string
  sd_LastActive :: string
  sd_TotalLines :: nat
  sd_Offset :: nat
  sd_Limit :: nat
  sd_Outputs :: "string list"
  sd_Worker :: "workerSnapshot option"
  sd_TurnActive :: bool
  sd_TurnCancelling :: bool
  sd_LatestTerminal :: "TurnTerminal option"

definition detail_json :: "sessionDetailResponse \<Rightarrow> json" where
  "detail_json r = JObj
     ([(''session_id'', JStr (sd_SessionID r)), (''bot_id'', JStr (sd_BotID r)), (''cli_type'', JStr (sd_CliType r))]
      @ omit_empty ''codex_profile'' (sd_CodexProfile r)
      @ [(''cli_path'', JStr (sd_CliPath r)), (''working_dir'', JStr (sd_WorkingDir r)),
         (''status'', JStr (sd_Status r)), (''pid'', json_int (sd_Pid r)), (''closed'', JBool (sd_Closed r)),
         (''created_at'', JStr (sd_CreatedAt r)), (''last_active'', JStr (sd_LastActive r)),
         (''total_lines'', json_nat (sd_TotalLines r)), (''offset'', json_nat (sd_Offset r)),
         (''limit'', json_nat (sd_Limit r)), (''outputs'', json_strs (sd_Outputs r)),
         (''worker'', case sd_Worker r of None \<Rightarrow> JNull | Some s \<Rightarrow> worker_json s),
         (''turn_active'', JBool (sd_TurnActive r)), (''turn_cancelling'', JBool (sd_TurnCancelling r))]
      @ (case sd_LatestTerminal r of None \<Rightarrow> [] | Some t \<Rightarrow> [(''latest_terminal'', terminal_json t)]))"

record createSessionResponse =
  cr_OK :: bool
  cr_SessionID :: string
  cr_BotID :: string
  cr_Status :: string
  cr_Ready :: bool

definition created_json :: "createSessionResponse \<Rightarrow> json" where
  "created_json r = JObj
     [(''ok'', JBool (cr_OK r)), (''session_id'', JStr (cr_SessionID r)), (''bot_id'', JStr (cr_BotID r)),
      (''status'', JStr (cr_Status r)), (''ready'', JBool (cr_Ready r))]"

record sendMessageResponse =
  sm_OK :: bool
  sm_SessionID :: string
  sm_Sent :: string
  sm_Outputs :: "string list option"     \<comment> \<open>the nil slice is \<open>None\<close>\<close>

definition sent_json :: "sendMessageResponse \<Rightarrow> json" where
  "sent_json r = JObj
     [(''ok'', JBool (sm_OK r)), (''session_id'', JStr (sm_SessionID r)), (''sent'', JStr (sm_Sent r)),
      (''outputs'', case sm_Outputs r of None \<Rightarrow> JNull | Some os \<Rightarrow> json_strs os)]"

record cancelTurnResponse =
  ct_OK :: bool
  ct_SessionID :: string
  ct_Cancelling :: bool

definition cancel_json :: "cancelTurnResponse \<Rightarrow> json" where
  "cancel_json r = JObj
     [(''ok'', JBool (ct_OK r)), (''session_id'', JStr (ct_SessionID r)), (''cancelling'', JBool (ct_Cancelling r))]"

record closeSessionResponse =
  cl_OK :: bool
  cl_SessionID :: string
  cl_Reason :: string
  cl_Closed :: bool

definition closed_json :: "closeSessionResponse \<Rightarrow> json" where
  "closed_json r = JObj
     [(''ok'', JBool (cl_OK r)), (''session_id'', JStr (cl_SessionID r)), (''reason'', JStr (cl_Reason r)),
      (''closed'', JBool (cl_Closed r))]"

record botListItem =
  bi_Name :: string
  bi_BotID :: string
  bi_CliType :: string
  bi_CliPath :: string
  bi_BackendType :: string
  bi_WorkingDir :: string
  bi_CodexProfile :: string

definition bot_json :: "botListItem \<Rightarrow> json" where
  "bot_json b = JObj
     ([(''name'', JStr (bi_Name b)), (''bot_id'', JStr (bi_BotID b)), (''cli_type'', JStr (bi_CliType b))]
      @ omit_empty ''cli_path'' (bi_CliPath b)
      @ [(''backend_type'', JStr (bi_BackendType b))]
      @ omit_empty ''working_dir'' (bi_WorkingDir b) @ omit_empty ''codex_profile'' (bi_CodexProfile b))"

section \<open>Request bodies\<close>

record createSessionRequest =
  cq_SessionID :: string
  cq_BotID :: string
  cq_CodexProfile :: string

definition create_fields :: "createSessionRequest field list" where
  "create_fields =
     [(''session_id'', string_field (\<lambda>s r. r\<lparr>cq_SessionID := s\<rparr>)),
      (''bot_id'', string_field (\<lambda>s r. r\<lparr>cq_BotID := s\<rparr>)),
      (''codex_profile'', string_field (\<lambda>s r. r\<lparr>cq_CodexProfile := s\<rparr>))]"

record sendMessageRequest =
  sq_Message :: string

definition send_fields :: "sendMessageRequest field list" where
  "send_fields = [(''message'', string_field (\<lambda>s r. r\<lparr>sq_Message := s\<rparr>))]"

text \<open>
  \<open>json.NewDecoder(body).Decode(&v)\<close> reads the first value of the body; what follows it is not
  looked at.
\<close>

definition decode_first :: "'r field list \<Rightarrow> 'r \<Rightarrow> string \<Rightarrow> 'r option" where
  "decode_first fs zero body =
     (case parse_value (Suc (length body)) (skip_ws body) of
        None \<Rightarrow> None
      | Some (v, _) \<Rightarrow> unmarshal_value fs zero v)"

section \<open>Pages\<close>

text \<open>A numeric query parameter: the default unless it is there, is a number and is in range.\<close>

definition int_param :: "http_req \<Rightarrow> string \<Rightarrow> (int \<Rightarrow> bool) \<Rightarrow> nat \<Rightarrow> nat" where
  "int_param r key in_bounds default_value =
     (let v = query_get r key in
      if v \<noteq> [] then (case Atoi v of
          Some n \<Rightarrow> if in_bounds n then nat n else default_value
        | None \<Rightarrow> default_value)
      else default_value)"

lemma int_param_bounds:
  assumes "\<And>n. ok n \<Longrightarrow> lo \<le> n \<and> n \<le> hi" and "lo \<le> int def" "int def \<le> hi" and "0 \<le> lo"
  shows "lo \<le> int (int_param r key ok def) \<and> int (int_param r key ok def) \<le> hi"
proof -
  have "ok n \<Longrightarrow> 0 \<le> n" for n using assms(1) [of n] assms(4) by linarith
  with assms show ?thesis by (auto simp: int_param_def Let_def split: option.split)
qed

text \<open>The page of a list.\<close>

definition list_page :: "nat \<Rightarrow> nat \<Rightarrow> 'a list \<Rightarrow> 'a list" where
  "list_page offset limit ms =
     (if length ms \<le> offset then []
      else let ms = drop offset ms in if limit < length ms then take limit ms else ms)"

lemma list_page_take: "list_page offset limit ms = take limit (drop offset ms)"
  by (simp add: list_page_def Let_def)

text \<open>The window of the output: the start it reports and the lines.\<close>

definition output_page :: "nat \<Rightarrow> nat \<Rightarrow> 'a list \<Rightarrow> nat \<times> 'a list" where
  "output_page offset limit xs =
     (let total = length xs;
          start = offset;
          start = (if total < start then total else start);
          stop = start + limit;
          stop = (if total < stop then total else stop)
      in (start, take (stop - start) (drop start xs)))"

lemma output_page_take:
  "output_page offset limit xs = (min offset (length xs), take limit (drop offset xs))"
  by (auto simp: output_page_def Let_def min_def)

text \<open>Consecutive pages of a list make up the list: nothing is skipped, nothing is shown twice.\<close>

lemma pages_cover:
  "concat (map (\<lambda>k. take limit (drop (k * limit) xs)) [0..<n]) = take (n * limit) xs"
proof (induction n)
  case (Suc n)
  have "take (Suc n * limit) xs = take (n * limit) xs @ take limit (drop (n * limit) xs)"
    by (subst take_add [symmetric]) (simp add: add.commute)
  with Suc show ?case by simp
qed simp

end
