(* ===== verification/Http_Handlers.thy ===== *)
theory Http_Handlers
  imports Http_Message "HOL-Library.List_Lexorder" "HOL-Library.Char_ord"
begin

text \<open>
  \<open>internal/daemon/http_server.go\<close>, the handlers of the API on the daemon's state. Reads of the
  state under one lock are one moment; between them, and where a handler sleeps or waits, other
  goroutines run: \<open>hw_env k\<close>, any function on the state. A handler gives the state it leaves and
  the response; those that start a goroutine also give what it will run.
\<close>

record http_world =
  hw_now :: time
  hw_wr :: "string option"
  hw_rm :: "string option"
  hw_io :: save_io
  hw_env :: "nat \<Rightarrow> Daemon \<Rightarrow> Daemon"
  hw_spawn :: spawn_world
  hw_validate :: "string \<Rightarrow> string + string"
  hw_order :: "mref list"              \<comment> \<open>the order in which the session map is visited\<close>
  hw_woken :: bool                     \<comment> \<open>the select takes the readiness case when it can\<close>
  hw_fmt :: "time \<Rightarrow> string"
  hw_jerr :: "string \<Rightarrow> string"       \<comment> \<open>the text of the decoder's error\<close>
  hw_profiles :: readdir_result

datatype started = StartedClose string string | StartedCancel mref u64

definition not_allowed :: "http_req \<Rightarrow> http_resp" where
  "not_allowed r = writeError 405 (''method not allowed: '' @ rq_Method r)"

section \<open>Requests that only read\<close>

definition handleHealthz :: "http_world \<Rightarrow> Daemon \<Rightarrow> http_resp" where
  "handleHealthz w d =
     writeJSON 200 (healthz_json
       \<lparr>hz_OK = True, hz_Listen = ListenAddr (cfg d), hz_Dashboard = DashboardAddr (cfg d),
        hz_StartedAt = hw_fmt w (startedAt d), hz_SessionsCount = card (dom (sessions d)),
        hz_WorkersCount = card (dom (workers d)), hz_BotsCount = length (Bots (cfg d)),
        hz_Version = ''v4-pr-c''\<rparr>)"

definition handleListBots :: "http_req \<Rightarrow> Daemon \<Rightarrow> http_resp" where
  "handleListBots r d =
     (if rq_Method r \<noteq> MethodGet then not_allowed r
      else
        let items = map (\<lambda>b. \<lparr>bi_Name = bot_Name b, bi_BotID = bot_BotID b, bi_CliType = bot_CliType b,
              bi_CliPath = bot_CliPath b, bi_BackendType = BackendType b, bi_WorkingDir = bot_WorkingDir b,
              bi_CodexProfile = bot_CodexProfile b\<rparr>) (Bots (cfg d))
        in writeJSON 200 (JObj [(''bots'', JArr (map bot_json items)), (''total'', json_nat (length items))]))"

definition handleListCodexProfiles :: "http_world \<Rightarrow> http_req \<Rightarrow> http_resp" where
  "handleListCodexProfiles w r =
     (if rq_Method r \<noteq> MethodGet then not_allowed r
      else case DiscoverCodexProfiles (hw_profiles w) of
        Inl e \<Rightarrow> writeError 500 e
      | Inr profiles \<Rightarrow> writeJSON 200 (JObj [(''profiles'', json_strs profiles)]))"

text \<open>Whether a session is listed.\<close>

definition list_match :: "Daemon \<Rightarrow> string \<Rightarrow> string \<Rightarrow> mref \<Rightarrow> bool" where
  "list_match d botID statusFilter m =
     (let x = metas d m in
      if botID \<noteq> [] \<and> BotID x \<noteq> botID then False
      else if statusFilter \<noteq> [] then
        (let sf = ToLower statusFilter; closedTag = ''closed'' in
         if sf = closedTag \<and> \<not> Closed x then False
         else if sf \<noteq> closedTag \<and> status_string (Status x) \<noteq> statusFilter then False
         else True)
      else True)"

text \<open>
  \<open>sort.Slice\<close> may leave records with equal keys in any order. A stable sort of an arbitrary order
  \<open>ms\<close> has exactly the same results: the order in which a request visits the map is an argument, and
  two requests need not share it. (The keys are those of the moment the map was read.)
\<close>

definition sort_metas :: "Daemon \<Rightarrow> string \<Rightarrow> mref list \<Rightarrow> mref list" where
  "sort_metas d sortKey ms =
     (if sortKey = ''created_at_asc'' then sort_key (\<lambda>m. CreatedAt (metas d m)) ms
      else if sortKey = ''last_active_asc'' then sort_key (\<lambda>m. LastActive (metas d m)) ms
      else if sortKey = ''last_active_desc'' then sort_key (\<lambda>m. - LastActive (metas d m)) ms
      else if sortKey = ''session_id'' then sort_key (\<lambda>m. SessionID (metas d m)) ms
      else sort_key (\<lambda>m. - CreatedAt (metas d m)) ms)"

definition list_item :: "(time \<Rightarrow> string) \<Rightarrow> Daemon \<Rightarrow> mref \<Rightarrow> sessionListItem" where
  "list_item fmt d m =
     (let x = metas d m;
          pid = (case workers d (SessionID x) of None \<Rightarrow> 0 | Some h \<Rightarrow> Pid (handles d h))
      in \<lparr>li_SessionID = SessionID x, li_BotID = BotID x, li_CliType = CliType x, li_CodexProfile = CodexProfile x,
          li_Status = status_string (Status x), li_Pid = pid, li_Closed = Closed x,
          li_CreatedAt = fmt (CreatedAt x), li_LastActive = fmt (LastActive x), li_Outputs = SnapshotOutput x\<rparr>)"

definition list_limit :: "http_req \<Rightarrow> nat" where
  "list_limit r = int_param r ''limit'' (\<lambda>n. 0 < n \<and> n \<le> 500) 50"

definition page_offset :: "http_req \<Rightarrow> nat" where
  "page_offset r = int_param r ''offset'' (\<lambda>n. 0 \<le> n) 0"

text \<open>The records \<open>httpListSessions\<close> has after filtering and sorting.\<close>

definition listed :: "http_req \<Rightarrow> mref list \<Rightarrow> Daemon \<Rightarrow> mref list" where
  "listed r order d =
     (let sortKey = or_default (query_get r ''sort'') ''created_at_desc''
      in sort_metas d sortKey (filter (list_match d (query_get r ''bot_id'') (query_get r ''status'')) order))"

text \<open>The records are read, to be listed, at a later moment \<open>d'\<close>.\<close>

definition list_response :: "(time \<Rightarrow> string) \<Rightarrow> http_req \<Rightarrow> mref list \<Rightarrow> Daemon \<Rightarrow> Daemon \<Rightarrow> sessionListResponse" where
  "list_response fmt r order d d' =
     (let limit = list_limit r; offset = page_offset r;
          metas = listed r order d;
          total = length metas;
          items = map (list_item fmt d') (list_page offset limit metas)
      in \<lparr>sl_Total = total, sl_Count = length items, sl_Limit = limit, sl_Offset = offset, sl_Items = items\<rparr>)"

definition httpListSessions :: "http_world \<Rightarrow> http_req \<Rightarrow> Daemon \<Rightarrow> Daemon \<times> http_resp" where
  "httpListSessions w r d =
     (if rq_Method r \<noteq> MethodGet then (d, not_allowed r)
      else let d' = hw_env w 0 d
           in (d', writeJSON 200 (list_json (list_response (hw_fmt w) r (hw_order w) d d'))))"

section \<open>Session details\<close>

definition detail_limit :: "http_req \<Rightarrow> nat" where
  "detail_limit r =
     (let defaultLimit = (if 500 < maxMemoryOutputLines then 500 else maxMemoryOutputLines)
      in int_param r ''limit'' (\<lambda>n. 0 < n \<and> n \<le> int maxMemoryOutputLines) defaultLimit)"

text \<open>
  The record as it was at \<open>d\<close> (the first lock) and at \<open>d'\<close> (its output, its
  turn and its worker).
\<close>

definition detail_response ::
  "(time \<Rightarrow> string) \<Rightarrow> http_req \<Rightarrow> string \<Rightarrow> mref \<Rightarrow> Daemon \<Rightarrow> Daemon \<Rightarrow> sessionDetailResponse" where
  "detail_response fmt r sid m d d' =
     (let x = metas d m;
          snapshot = TurnSnapshot_of (metas d' m);
          limit = detail_limit r;
          offset = page_offset r;
          ws = (case workers d' sid of
                  None \<Rightarrow> None
                | Some h \<Rightarrow>
                    if isCurrentSessionWorker d' m h
                    then Some \<lparr>ws_Pid = Pid (handles d' h), ws_Ready = IsReady (handles d' h),
                               ws_LastHb = fmt (LastHb (handles d' h))\<rparr>
                    else None);
          all = SnapshotOutput (metas d' m);
          (start, paged) = output_page offset limit all
      in \<lparr>sd_SessionID = SessionID x, sd_BotID = BotID x, sd_CliType = CliType x, sd_CodexProfile = CodexProfile x,
          sd_CliPath = CliPath x, sd_WorkingDir = WorkingDir x, sd_Status = status_string (Status x),
          sd_Pid = (case ws of None \<Rightarrow> 0 | Some s \<Rightarrow> ws_Pid s), sd_Closed = Closed x,
          sd_CreatedAt = fmt (CreatedAt x), sd_LastActive = fmt (LastActive (metas d' m)),
          sd_TotalLines = length all, sd_Offset = start, sd_Limit = limit, sd_Outputs = paged,
          sd_Worker = ws, sd_TurnActive = ts_Active snapshot, sd_TurnCancelling = ts_Cancelling snapshot,
          sd_LatestTerminal = Latest snapshot\<rparr>)"

definition sessionDetailForMeta ::
  "http_world \<Rightarrow> http_req \<Rightarrow> string \<Rightarrow> mref \<Rightarrow> Daemon \<Rightarrow> Daemon \<times> sessionDetailResponse option \<times> nat" where
  "sessionDetailForMeta w r sid m d =
     (if sessions d sid \<noteq> Some m then (d, None, 409)
      else
        let d1 = hw_env w 1 d;
            resp = detail_response (hw_fmt w) r sid m d d1;
            d2 = hw_env w 2 d1;
            current = (sessions d2 sid = Some m)
        in if \<not> current then (d2, None, 409) else (d2, Some resp, 200))"

definition handleGetSession :: "http_world \<Rightarrow> http_req \<Rightarrow> string \<Rightarrow> Daemon \<Rightarrow> Daemon \<times> http_resp" where
  "handleGetSession w r sid d =
     (case sessions d sid of
        None \<Rightarrow> (d, writeError 404 (''session not found: '' @ sid))
      | Some m \<Rightarrow>
          (case sessionDetailForMeta w r sid m (hw_env w 0 d) of
             (d, resp, status) \<Rightarrow>
               (d, case resp of
                     None \<Rightarrow> writeError status (''session generation changed: '' @ sid)
                   | Some resp \<Rightarrow> writeJSON 200 (detail_json resp))))"

text \<open>The text form of a history: each line with its number.\<close>

fun numbered_lines :: "nat \<Rightarrow> string list \<Rightarrow> string" where
  "numbered_lines i [] = []"
| "numbered_lines i (l # ls) = ''['' @ itoa (int i) @ ''] '' @ l @ [CHR 0x0A] @ numbered_lines (Suc i) ls"

definition handleGetSessionHistory :: "http_req \<Rightarrow> string \<Rightarrow> Daemon \<Rightarrow> http_resp" where
  "handleGetSessionHistory r sid d =
     (case sessions d sid of
        None \<Rightarrow> writeError 404 (''session not found: '' @ sid)
      | Some m \<Rightarrow>
          let outs = SnapshotOutput (metas d m); format = ToLower (query_get r ''format'') in
          if format \<in> {''txt'', ''text'', ''plain''} then
            \<lparr>rs_Status = 200,
             rs_Header = [(''Content-Type'', ''text/plain; charset=utf-8''),
               (''Content-Disposition'', ''attachment; filename='' @ [CHR 0x22] @ sid @ ''-history.txt'' @ [CHR 0x22])],
             rs_Body = numbered_lines 1 outs\<rparr>
          else writeJSON 200 (JObj [(''lines'', json_nat (length outs)), (''outputs'', json_strs outs),
                 (''session_id'', JStr sid)]))"

section \<open>Creating a session\<close>

definition force_create :: "http_req \<Rightarrow> bool" where
  "force_create r = (let v = query_get r ''force'' in v = ''1'' \<or> EqualFold v ''true'')"

definition exists_json :: "SessionMeta \<Rightarrow> string \<Rightarrow> json" where
  "exists_json x sid = JObj
     [(''closed'', JBool (Closed x)), (''error'', JStr (''session already exists: '' @ sid)), (''session_id'', JStr sid),
      (''status'', JStr (status_string (Status x))),
      (''suggestion'', JStr (''use DELETE /api/sessions/'' @ sid @ '' first, or POST with ?force=true''))]"

text \<open>
  The decoded request with its id filled in: an empty body is the empty
  request, and the id defaults to the time.
\<close>

definition create_request :: "http_world \<Rightarrow> http_req \<Rightarrow> createSessionRequest option" where
  "create_request w r =
     (let zero = \<lparr>cq_SessionID = [], cq_BotID = [], cq_CodexProfile = []\<rparr>;
          req = (if rq_ContentLength r \<noteq> 0 then decode_first create_fields zero (rq_Body r) else Some zero)
      in map_option (\<lambda>q. if cq_SessionID q = [] then q\<lparr>cq_SessionID := ''s-'' @ itoa (hw_now w)\<rparr> else q) req)"

text \<open>
  The check for a session of that id, and the purge of one that may go. The record is looked up under
  the lock, \<open>Closed\<close> is read after it, and the purge takes its own locks: other goroutines run in
  between.
\<close>

definition make_room :: "http_world \<Rightarrow> bool \<Rightarrow> string \<Rightarrow> Daemon \<Rightarrow> Daemon \<times> http_resp option" where
  "make_room w force sid d =
     (if force then (PurgeSession (hw_rm w) sid d, None)
      else case sessions d sid of
        None \<Rightarrow> (d, None)
      | Some m \<Rightarrow>
          let d = hw_env w 3 d in
          if \<not> Closed (metas d m) then (d, Some (writeJSON 409 (exists_json (metas d m) sid)))
          else (PurgeSession (hw_rm w) sid (hw_env w 4 d), None))"

definition handleCreateSession :: "http_world \<Rightarrow> http_req \<Rightarrow> Daemon \<Rightarrow> Daemon \<times> http_resp" where
  "handleCreateSession w r d =
     (if rq_Method r \<noteq> MethodPost then (d, not_allowed r)
      else case create_request w r of
        None \<Rightarrow> (d, writeError 400 (''invalid json body: '' @ hw_jerr w (rq_Body r)))
      | Some req \<Rightarrow>
          let sid = cq_SessionID req in
          (case make_room w (force_create r) sid d of
             (d, Some resp) \<Rightarrow> (d, resp)
           | (d, None) \<Rightarrow>
               (case NewSession (hw_validate w) (hw_spawn w) (hw_io w) (hw_rm w) (hw_env w 1)
                       \<lparr>no_SessionID = sid, no_BotID = cq_BotID req, no_CliType = [], no_CliPath = [],
                        no_WorkingDir = [], no_CodexProfile = cq_CodexProfile req\<rparr> (hw_env w 0 d) of
                  (d, Inl e) \<Rightarrow> (d, writeError 400 (err_text e))
                | (d, Inr _) \<Rightarrow>
                    let h = workers d sid;
                        d = hw_env w 2 d;
                        ready = (hw_woken w \<and> (case h of None \<Rightarrow> False | Some h \<Rightarrow> isReady (handles d h)));
                        meta = map_option (metas d) (sessions d sid)
                    in (d, writeJSON 201 (created_json
                          \<lparr>cr_OK = True, cr_SessionID = sid,
                           cr_BotID = (case meta of None \<Rightarrow> [] | Some x \<Rightarrow> BotID x),
                           cr_Status = (case meta of None \<Rightarrow> [] | Some x \<Rightarrow> status_string (Status x)),
                           cr_Ready = ready\<rparr>)))))"

section \<open>Cancelling a turn\<close>

text \<open>The record, whether it was found, and whether its turn may be cancelled.\<close>

definition cancelTurnPreflight :: "(Daemon \<Rightarrow> Daemon) \<Rightarrow> string \<Rightarrow> Daemon \<Rightarrow> Daemon \<times> mref option \<times> bool \<times> bool" where
  "cancelTurnPreflight env sid d =
     (case sessions d sid of
        None \<Rightarrow> (d, None, False, False)
      | Some m \<Rightarrow>
          if Closed (metas d m) \<or> CliType (metas d m) \<noteq> CliCodex then (d, Some m, True, False)
          else
            let snapshot = TurnSnapshot_of (metas d m) in
            if \<not> ts_Active snapshot \<or> ts_Cancelling snapshot then (d, Some m, True, False)
            else let d = env d in (d, Some m, True, hasReadyCurrentWorkerForSession d m))"

definition conflict_markers :: "string list" where
  "conflict_markers =
     [''not found'', ''closed'', ''does not use codex'', ''no ready worker'', ''no cancellable active turn'',
      ''no longer current'', ''cancellation is no longer active'', ''worker changed'']"

definition cancelTurnErrorIsConflict :: "string option \<Rightarrow> bool" where
  "cancelTurnErrorIsConflict err =
     (case err of None \<Rightarrow> False
      | Some e \<Rightarrow> let message = ToLower e in list_ex (Contains message) conflict_markers)"

definition cancelTurnErrorResponse :: "mref \<Rightarrow> string \<Rightarrow> string \<Rightarrow> Daemon \<Rightarrow> nat \<times> string" where
  "cancelTurnErrorResponse m sid err d =
     (let conflict = (409, ''session is no longer cancellable: '' @ sid) in
      if cancelTurnErrorIsConflict (Some err) \<or> \<not> isCurrentSession d m then conflict
      else
        let snapshot = TurnSnapshot_of (metas d m) in
        if \<not> ts_Active snapshot \<or> ts_Cancelling snapshot \<or> \<not> hasReadyCurrentWorkerForSession d m then conflict
        else (500, ''cancel turn: '' @ err))"

definition handleSessionCancel :: "http_world \<Rightarrow> string \<Rightarrow> Daemon \<Rightarrow> Daemon \<times> http_resp \<times> started option" where
  "handleSessionCancel w sid d =
     (case cancelTurnPreflight (hw_env w 0) sid d of
        (d, meta, found, eligible) \<Rightarrow>
          if \<not> found then (d, writeError 404 (''session not found: '' @ sid), None)
          else if \<not> eligible then (d, writeError 409 (''session is not cancellable: '' @ sid), None)
          else
            let m = the meta in
            (case CancelTurnMeta (\<lambda>k. hw_env w (k + 2)) m (hw_env w 1 d) of
               (d, Inl e) \<Rightarrow>
                 let d = hw_env w 5 d; (status, message) = cancelTurnErrorResponse m sid e d
                 in (d, writeError status message, None)
             | (d, Inr token) \<Rightarrow>
                 (d, writeJSON 202 (cancel_json \<lparr>ct_OK = True, ct_SessionID = sid, ct_Cancelling = True\<rparr>),
                  Some (StartedCancel m token))))"

section \<open>Sending and closing\<close>

definition handleSessionSend :: "http_world \<Rightarrow> http_req \<Rightarrow> string \<Rightarrow> Daemon \<Rightarrow> Daemon \<times> http_resp" where
  "handleSessionSend w r sid d =
     (if rq_ContentLength r = 0 then
        (d, writeError 400 (''missing body: {'' @ [CHR 0x22] @ ''message'' @ [CHR 0x22] @ '':'' @ [CHR 0x22] @ ''...'' @ [CHR 0x22] @ ''}''))
      else case decode_first send_fields \<lparr>sq_Message = []\<rparr> (rq_Body r) of
        None \<Rightarrow> (d, writeError 400 (''invalid json: '' @ hw_jerr w (rq_Body r)))
      | Some req \<Rightarrow>
          if TrimSpace (sq_Message req) = [] then (d, writeError 400 ''message required'')
          else
            (case SendInput (hw_io w) (hw_wr w) (hw_now w) (hw_env w 0) sid (sq_Message req) d of
               (d, Some e) \<Rightarrow> (d, writeError 400 e)
             | (d, None) \<Rightarrow>
                 let d = hw_env w 1 d
                 in (d, writeJSON 200 (sent_json
                       \<lparr>sm_OK = True, sm_SessionID = sid, sm_Sent = sq_Message req,
                        sm_Outputs = map_option (\<lambda>m. SnapshotOutput (metas d m)) (sessions d sid)\<rparr>))))"

text \<open>The close runs in a goroutine; what it has done by the time of the answer is part of \<open>hw_env\<close>.\<close>

definition httpCloseSession :: "http_world \<Rightarrow> http_req \<Rightarrow> string \<Rightarrow> Daemon \<Rightarrow> Daemon \<times> http_resp \<times> started option" where
  "httpCloseSession w r sid d =
     (let reason = or_default (query_get r ''reason'') ''dashboard request'';
          d = hw_env w 0 d;
          closed = (case sessions d sid of None \<Rightarrow> False | Some m \<Rightarrow> Closed (metas d m))
      in (d, writeJSON 200 (closed_json
            \<lparr>cl_OK = True, cl_SessionID = sid, cl_Reason = reason, cl_Closed = closed\<rparr>),
          Some (StartedClose sid reason)))"

end
