(* ===== verification/Http_Server.thy ===== *)
theory Http_Server
  imports Http_Handlers Daemon_Service "HOL-Library.Multiset"
begin

text \<open>
  \<open>internal/daemon/http_server.go\<close> and \<open>embed_dashboard.go\<close>: how a request reaches its handler
  (the routes of \<open>startHTTPServer\<close>, the CORS wrapper, the paths below \<open>/api/sessions/\<close>, the
  dashboard), and what the API guarantees as a whole: reading requests change nothing, every
  request is a run of the daemon's actions, and what listing, reading, creating and cancelling
  answer.
\<close>

section \<open>Routes\<close>

datatype route = RHealthz | RBots | RProfiles | RSessionsSub | RSessions | RDashboard | RRoot

text \<open>
  The patterns registered with \<open>http.ServeMux\<close>, of which the longest that matches wins; a
  pattern that ends in a slash matches all paths below it. (A route name that is itself
  percent-escaped in the request is not modelled.)
\<close>

definition mux_match :: "string \<Rightarrow> route" where
  "mux_match p =
     (if p = ''/api/healthz'' then RHealthz
      else if p = ''/api/bots'' then RBots
      else if p = ''/api/codex/profiles'' then RProfiles
      else if HasPrefix p ''/api/sessions/'' then RSessionsSub
      else if p = ''/api/sessions'' then RSessions
      else if p = ''/dashboard.html'' then RDashboard
      else RRoot)"

text \<open>\<open>net/http\<close>'s \<open>cleanPath\<close>: a request for a path that is not clean is redirected.\<close>

definition cleanPath :: "string \<Rightarrow> string" where
  "cleanPath p =
     (if p = [] then ''/''
      else
        let p = (if hd p \<noteq> CHR ''/'' then CHR ''/'' # p else p); np = Clean p
        in if last p = CHR ''/'' \<and> np \<noteq> ''/'' then np @ ''/'' else np)"

definition cors_headers :: "(string \<times> string) list" where
  "cors_headers =
     [(''Access-Control-Allow-Origin'', ''*''),
      (''Access-Control-Allow-Methods'', ''GET, POST, PUT, DELETE, OPTIONS''),
      (''Access-Control-Allow-Headers'', ''Content-Type, Authorization'')]"

type_synonym handler = "Daemon \<Rightarrow> Daemon \<times> http_resp \<times> started option"

definition no_content :: http_resp where
  "no_content = \<lparr>rs_Status = 204, rs_Header = [], rs_Body = []\<rparr>"

definition cors :: "http_req \<Rightarrow> handler \<Rightarrow> handler" where
  "cors r nxt d =
     (if rq_Method r = MethodOptions then (d, no_content\<lparr>rs_Header := cors_headers\<rparr>, None)
      else case nxt d of (d, resp, s) \<Rightarrow> (d, resp\<lparr>rs_Header := cors_headers @ rs_Header resp\<rparr>, s))"

text \<open>The session id and the rest of a path below \<open>/api/sessions/\<close>; \<open>None\<close> for the list itself.\<close>

definition http_session_path :: "string \<Rightarrow> (string \<times> string) option" where
  "http_session_path path =
     (let rest = TrimSuffix (TrimPrefix path ''/api/sessions/'') ''/'' in
      if rest = [] then None
      else case split_once (CHR ''/'') rest of
        (sid, sub) \<Rightarrow> Some (sid, case sub of None \<Rightarrow> [] | Some sub \<Rightarrow> sub))"

definition started_nothing :: "Daemon \<times> http_resp \<Rightarrow> Daemon \<times> http_resp \<times> started option" where
  "started_nothing x = (fst x, snd x, None)"

definition unknown_subpath :: "string \<Rightarrow> http_resp" where
  "unknown_subpath sub = writeError 404 (''unknown subpath: '' @ sub)"

definition handleSessionsSubrouter :: "http_world \<Rightarrow> http_req \<Rightarrow> handler" where
  "handleSessionsSubrouter w r d =
     (case http_session_path (rq_Path r) of
        None \<Rightarrow> started_nothing (httpListSessions w r d)
      | Some (sid, sub) \<Rightarrow>
          if sid = [] then (d, writeError 400 ''missing session_id'', None)
          else if rq_Method r = MethodGet then
            (if sub = [] then started_nothing (handleGetSession w r sid d)
             else if sub = ''history'' then (d, handleGetSessionHistory r sid d, None)
             else (d, unknown_subpath sub, None))
          else if rq_Method r = MethodPost then
            (if sub = ''send'' then started_nothing (handleSessionSend w r sid d)
             else if sub = ''cancel'' then handleSessionCancel w sid d
             else (d, unknown_subpath sub, None))
          else if rq_Method r = MethodDelete then
            (if sub = [] then httpCloseSession w r sid d else (d, unknown_subpath sub, None))
          else if rq_Method r = MethodOptions then (d, no_content, None)
          else (d, not_allowed r, None))"

text \<open>\<open>http.Error\<close> and \<open>http.NotFound\<close>.\<close>

definition http_error :: "nat \<Rightarrow> string \<Rightarrow> http_resp" where
  "http_error status msg =
     \<lparr>rs_Status = status,
      rs_Header = [(''Content-Type'', ''text/plain; charset=utf-8''), (''X-Content-Type-Options'', ''nosniff'')],
      rs_Body = msg @ [CHR 0x0A]\<rparr>"

definition html_headers :: "(string \<times> string) list" where
  "html_headers = [(''Cache-Control'', ''no-cache''), (''Content-Type'', ''text/html; charset=utf-8'')]"

text \<open>
  The two dashboard routes. \<open>page\<close> is the embedded file, \<open>serve_file\<close> the standard library's
  file server on it.
\<close>

definition dashboard_file :: "(http_req \<Rightarrow> http_resp) \<Rightarrow> http_req \<Rightarrow> http_resp" where
  "dashboard_file serve_file r = (let resp = serve_file r in resp\<lparr>rs_Header := html_headers @ rs_Header resp\<rparr>)"

definition dashboard_root :: "string option \<Rightarrow> http_req \<Rightarrow> http_resp" where
  "dashboard_root page r =
     (if rq_Path r \<noteq> ''/'' then http_error 404 ''404 page not found''
      else case page of
        None \<Rightarrow> http_error 500 ''dashboard.html not embedded''
      | Some data \<Rightarrow> \<lparr>rs_Status = 200, rs_Header = html_headers, rs_Body = data\<rparr>)"

datatype served = MovedPermanently string | Answered http_resp

definition api :: "http_world \<Rightarrow> http_req \<Rightarrow> route \<Rightarrow> handler" where
  "api w r rt d =
     (case rt of
        RHealthz \<Rightarrow> (d, handleHealthz w d, None)
      | RBots \<Rightarrow> (d, handleListBots r d, None)
      | RProfiles \<Rightarrow> (d, handleListCodexProfiles w r, None)
      | RSessionsSub \<Rightarrow> handleSessionsSubrouter w r d
      | RSessions \<Rightarrow>
          if rq_Method r = MethodPost then started_nothing (handleCreateSession w r d)
          else started_nothing (httpListSessions w r d)
      | _ \<Rightarrow> (d, no_content, None))"

definition serve ::
  "string option \<Rightarrow> (http_req \<Rightarrow> http_resp) \<Rightarrow> http_world \<Rightarrow> http_req \<Rightarrow> Daemon \<Rightarrow> Daemon \<times> served \<times> started option" where
  "serve page serve_file w r d =
     (let p = cleanPath (rq_EscapedPath r) in
      if p \<noteq> rq_EscapedPath r then (d, MovedPermanently p, None)
      else case mux_match p of
        RDashboard \<Rightarrow> (d, Answered (dashboard_file serve_file r), None)
      | RRoot \<Rightarrow> (d, Answered (dashboard_root page r), None)
      | rt \<Rightarrow> (case cors r (api w r rt) d of (d, resp, s) \<Rightarrow> (d, Answered resp, s)))"

section \<open>Paths of sessions\<close>

lemma split_once_sep: "c \<notin> set a \<Longrightarrow> split_once c (a @ c # b) = (a, Some b)"
  by (induction a) (auto simp: split_once_def)

lemma split_once_whole: "c \<notin> set a \<Longrightarrow> split_once c a = (a, None)"
  by (induction a) (auto simp: split_once_def split: if_splits)

lemma TrimPrefix_prefix: "TrimPrefix (p @ s) p = s"
  by (simp add: TrimPrefix_def HasPrefix_def)

lemma TrimSuffix_no: "s = [] \<or> last s \<noteq> c \<Longrightarrow> TrimSuffix s [c] = s"
  by (auto simp: TrimSuffix_def HasSuffix_def suffix_def)

text \<open>A session whose id has no slash is reached by its path; one whose id has a slash never is.\<close>

lemma http_session_path_id:
  assumes "sid \<noteq> []" "CHR ''/'' \<notin> set sid"
  shows "http_session_path (''/api/sessions/'' @ sid) = Some (sid, [])"
proof -
  have "last sid \<noteq> CHR ''/''" using assms last_in_set by metis
  then show ?thesis using assms unfolding http_session_path_def TrimPrefix_prefix
    by (simp add: TrimSuffix_no split_once_whole)
qed

lemma http_session_path_sub:
  assumes "sid \<noteq> []" "CHR ''/'' \<notin> set sid" "sub \<noteq> []" "last sub \<noteq> CHR ''/''"
  shows "http_session_path (''/api/sessions/'' @ sid @ ''/'' @ sub) = Some (sid, sub)"
proof -
  have "TrimSuffix (sid @ ''/'' @ sub) ''/'' = sid @ ''/'' @ sub"
    using assms by (intro TrimSuffix_no) simp
  then show ?thesis using assms unfolding http_session_path_def TrimPrefix_prefix by (simp add: split_once_sep)
qed

lemma http_session_path_no_slash: "http_session_path p = Some (sid, sub) \<Longrightarrow> CHR ''/'' \<notin> set sid"
  by (auto simp: http_session_path_def split_once_def Let_def split: if_splits dest: set_takeWhileD)

section \<open>Requests are runs\<close>

lemma steps_make_room:
  assumes "\<And>k. daemon_env (hw_env w k)" and "steps_to d d'"
  shows "steps_to d (fst (make_room w force sid d'))"
  by (simp add: make_room_def Let_def steps_purge steps_env assms split: option.split)

lemma steps_create:
  assumes env: "\<And>k. daemon_env (hw_env w k)" and "steps_to d d'"
  shows "steps_to d (fst (handleCreateSession w r d'))"
proof (cases "rq_Method r \<noteq> MethodPost \<or> create_request w r = None")
  case True
  with assms(2) show ?thesis by (auto simp: handleCreateSession_def)
next
  case False
  then obtain req where req: "create_request w r = Some req" and post: "rq_Method r = MethodPost" by auto
  obtain d1 refused where m: "make_room w (force_create r) (cq_SessionID req) d' = (d1, refused)" by force
  have d1: "steps_to d d1" using steps_make_room [OF env assms(2), of "force_create r" "cq_SessionID req"] m by simp
  show ?thesis
  proof (cases refused)
    case (Some resp)
    with req post m d1 show ?thesis by (simp add: handleCreateSession_def)
  next
    case None
    obtain d2 res where n: "NewSession (hw_validate w) (hw_spawn w) (hw_io w) (hw_rm w) (hw_env w 1)
       \<lparr>no_SessionID = cq_SessionID req, no_BotID = cq_BotID req, no_CliType = [], no_CliPath = [],
        no_WorkingDir = [], no_CodexProfile = cq_CodexProfile req\<rparr> (hw_env w 0 d1) = (d2, res)" by force
    have d2: "steps_to d d2" using steps_new_session [OF env steps_env [OF env d1]] n by (metis fst_conv)
    from req post m n None have "fst (handleCreateSession w r d') \<in> {d2, hw_env w 2 d2}"
      by (cases res) (simp_all add: handleCreateSession_def Let_def)
    with d2 steps_env [OF env d2] show ?thesis by auto
  qed
qed

lemma preflight_state: "fst (cancelTurnPreflight env sid d) \<in> {d, env d}"
  by (simp add: cancelTurnPreflight_def Let_def split: option.split)

lemma cancel_request_state:
  "fst (handleSessionCancel w sid d) \<in>
     (let d1 = fst (cancelTurnPreflight (hw_env w 0) sid d) in
      {d1} \<union> (\<Union>m. {fst (CancelTurnMeta (\<lambda>k. hw_env w (k + 2)) m (hw_env w 1 d1)),
                    hw_env w 5 (fst (CancelTurnMeta (\<lambda>k. hw_env w (k + 2)) m (hw_env w 1 d1)))}))"
proof -
  obtain d1 meta found eligible where p: "cancelTurnPreflight (hw_env w 0) sid d = (d1, meta, found, eligible)"
    by (metis prod_cases4)
  obtain d2 res where c: "CancelTurnMeta (\<lambda>k. hw_env w (k + 2)) (the meta) (hw_env w 1 d1) = (d2, res)" by force
  have "fst (handleSessionCancel w sid d) \<in> {d1, d2, hw_env w 5 d2}"
    by (cases res) (simp_all add: handleSessionCancel_def p c Let_def case_prod_unfold del: One_nat_def add_2_eq_Suc')
  moreover have "d2 = fst (CancelTurnMeta (\<lambda>k. hw_env w (k + 2)) (the meta) (hw_env w 1 d1))" using c by simp
  ultimately show ?thesis unfolding p Let_def fst_conv by blast
qed

lemma steps_cancel_request:
  assumes env: "\<And>k. daemon_env (hw_env w k)" and "steps_to d d'"
  shows "steps_to d (fst (handleSessionCancel w sid d'))"
proof -
  let ?d1 = "fst (cancelTurnPreflight (hw_env w 0) sid d')"
  have d1: "steps_to d ?d1"
    using preflight_state [of "hw_env w 0" sid d'] assms steps_env [OF env assms(2)] by auto
  have c: "steps_to d (fst (CancelTurnMeta (\<lambda>k. hw_env w (k + 2)) m (hw_env w 1 ?d1)))" for m
    by (rule steps_cancel [OF env steps_env [OF env d1]])
  from cancel_request_state [of w sid d'] show ?thesis
    unfolding Let_def using d1 c steps_env [OF env c] by auto
qed

lemma steps_send_request:
  assumes env: "\<And>k. daemon_env (hw_env w k)" and "steps_to d d'"
  shows "steps_to d (fst (handleSessionSend w r sid d'))"
proof (cases "rq_ContentLength r = 0 \<or> decode_first send_fields \<lparr>sq_Message = []\<rparr> (rq_Body r) = None")
  case True
  with assms(2) show ?thesis by (auto simp: handleSessionSend_def)
next
  case False
  then obtain req where req: "decode_first send_fields \<lparr>sq_Message = []\<rparr> (rq_Body r) = Some req"
    and body: "rq_ContentLength r \<noteq> 0" by auto
  obtain d1 err where i: "SendInput (hw_io w) (hw_wr w) (hw_now w) (hw_env w 0) sid (sq_Message req) d' = (d1, err)"
    by force
  have d1: "steps_to d d1" using steps_send_input [OF env assms(2)] i by (metis fst_conv)
  have "fst (handleSessionSend w r sid d') \<in> {d', d1, hw_env w 1 d1}"
    using body by (cases err) (simp_all add: handleSessionSend_def req i Let_def)
  with assms(2) d1 steps_env [OF env d1] show ?thesis by auto
qed

text \<open>The states the reading requests leave.\<close>

lemma list_state: "fst (httpListSessions w r d) \<in> {d, hw_env w 0 d}"
  by (simp add: httpListSessions_def Let_def)

lemma detail_state: "fst (sessionDetailForMeta w r sid m d) \<in> {d, hw_env w 2 (hw_env w 1 d)}"
  by (simp add: sessionDetailForMeta_def Let_def)

lemma get_state: "fst (handleGetSession w r sid d) \<in> {d, hw_env w 0 d, hw_env w 2 (hw_env w 1 (hw_env w 0 d))}"
proof (cases "sessions d sid")
  case (Some m)
  obtain d1 resp st where "sessionDetailForMeta w r sid m (hw_env w 0 d) = (d1, resp, st)" by (metis prod_cases3)
  with Some detail_state [of w r sid m "hw_env w 0 d"] show ?thesis by (auto simp: handleGetSession_def)
qed (simp add: handleGetSession_def)

lemma close_state: "fst (httpCloseSession w r sid d) = hw_env w 0 d"
  by (simp add: httpCloseSession_def Let_def)

lemma steps_read_requests:
  assumes env: "\<And>k. daemon_env (hw_env w k)" and d: "steps_to d d'"
  shows "steps_to d (fst (httpListSessions w r d'))" "steps_to d (fst (handleGetSession w r sid d'))"
    "steps_to d (fst (httpCloseSession w r sid d'))"
proof -
  note e = steps_env [OF env d] steps_env [OF env steps_env [OF env steps_env [OF env d]]]
  show "steps_to d (fst (httpListSessions w r d'))" using list_state [of w r d'] d e by auto
  show "steps_to d (fst (handleGetSession w r sid d'))" using get_state [of w r sid d'] d e by auto
  show "steps_to d (fst (httpCloseSession w r sid d'))" using e by (simp add: close_state)
qed

lemma steps_subrouter:
  assumes "\<And>k. daemon_env (hw_env w k)" and "steps_to d d'"
  shows "steps_to d (fst (handleSessionsSubrouter w r d'))"
  using assms
  by (simp add: handleSessionsSubrouter_def started_nothing_def steps_read_requests steps_send_request
      steps_cancel_request split: option.split prod.split)

lemma steps_api:
  assumes "\<And>k. daemon_env (hw_env w k)" and "steps_to d d'"
  shows "steps_to d (fst (api w r rt d'))"
  using assms
  by (simp add: api_def started_nothing_def steps_read_requests steps_create steps_subrouter split: route.split)

text \<open>
  Every request refines the daemon's transition system: whatever a client of the HTTP API asks,
  and whatever the other goroutines do meanwhile, the state its handler leaves is reached by a
  sequence of the daemon's actions, so all the properties of runs hold in the presence of the API.
\<close>

lemma requests_are_runs:
  assumes "\<forall>k. daemon_env (hw_env w k)"
  shows "steps_to d (fst (serve page serve_file w r d))"
proof -
  have "steps_to d (fst (cors r (api w r rt) d))" for rt
    using steps_api [of w d d r rt] assms by (simp add: cors_def case_prod_unfold)
  then show ?thesis by (simp add: serve_def Let_def case_prod_unfold split: route.split)
qed

section \<open>Reading requests\<close>

text \<open>
  A request that is not a POST or a DELETE only reads: it starts nothing, and when no other
  goroutine acts meanwhile it leaves the state of the daemon as it found it.
\<close>

lemma other_methods_read:
  assumes "rq_Method r \<noteq> MethodPost" "rq_Method r \<noteq> MethodDelete"
  shows "snd (snd (serve page serve_file w r d)) = None
    \<and> ((\<forall>k d. hw_env w k d = d) \<longrightarrow> fst (serve page serve_file w r d) = d)"
proof -
  have started: "snd (snd (handleSessionsSubrouter w r d)) = None"
    using assms unfolding handleSessionsSubrouter_def started_nothing_def
    by (cases "http_session_path (rq_Path r)") (simp_all add: case_prod_unfold)
  have state: "fst (handleSessionsSubrouter w r d) = d" "fst (httpListSessions w r d) = d" if q: "\<And>k d. hw_env w k d = d"
  proof -
    have l: "fst (httpListSessions w r d) = d" and g: "fst (handleGetSession w r sid d) = d" for sid
      using list_state [of w r d] get_state [of w r sid d] unfolding q by auto
    then show "fst (httpListSessions w r d) = d" by simp
    show "fst (handleSessionsSubrouter w r d) = d"
      using assms l g unfolding handleSessionsSubrouter_def started_nothing_def
      by (cases "http_session_path (rq_Path r)") (simp_all add: case_prod_unfold)
  qed
  have "snd (snd (cors r (api w r rt) d)) = None \<and> ((\<forall>k d. hw_env w k d = d) \<longrightarrow> fst (cors r (api w r rt) d) = d)" for rt
    using started state assms by (cases rt) (auto simp: cors_def api_def started_nothing_def case_prod_unfold)
  then show ?thesis by (simp add: serve_def Let_def case_prod_unfold split: route.split)
qed

section \<open>Sample requests\<close>

definition quiet_world :: http_world where
  "quiet_world = \<lparr>hw_now = 7, hw_wr = None, hw_rm = None, hw_io = IoOk, hw_env = (\<lambda>_ d. d), hw_spawn = sample_world,
     hw_validate = Inr, hw_order = [0], hw_woken = True, hw_fmt = (\<lambda>_. ''t''), hw_jerr = (\<lambda>_. []),
     hw_profiles = HomeMissing\<rparr>"

definition request :: "string \<Rightarrow> string \<Rightarrow> http_req" where
  "request meth path = \<lparr>rq_Method = meth, rq_Path = path, rq_EscapedPath = path, rq_Query = [],
     rq_ContentLength = 0, rq_Body = []\<rparr>"

lemma quiet_env [simp]: "hw_env quiet_world k d = d"
  by (simp add: quiet_world_def)

lemma requests_are_runs_witness:
  "steps_to sample_state (fst (serve None undefined quiet_world (request MethodPost ''/api/sessions/s/cancel'') sample_state))"
  by (rule requests_are_runs) (simp add: env_of_def)

lemma other_methods_read_witness:
  "fst (serve None undefined quiet_world (request MethodGet ''/api/sessions/s'') sample_state) = sample_state"
  using other_methods_read [of "request MethodGet ''/api/sessions/s''"]
  by (simp add: request_def method_defs)

section \<open>Cancelling\<close>

lemma conflict_marker:
  "list_ex (Contains (ToLower e)) conflict_markers \<Longrightarrow> cancelTurnErrorIsConflict (Some e)"
  by (simp add: cancelTurnErrorIsConflict_def)

lemma marker_suffix: "ToLower b = c @ mk \<Longrightarrow> Contains (ToLower (a @ b)) mk"
  using Contains_append [of "ToLower a @ c" mk "[]"] by simp

text \<open>Every refusal of \<open>CancelTurnMeta\<close> is recognised as a conflict.\<close>

lemma cancel_refusal_conflict:
  assumes "snd (CancelTurnMeta env m d) = Inl e"
  shows "cancelTurnErrorIsConflict (Some e)"
proof -
  have *: "cancelTurnErrorIsConflict (Some (''session '' @ sid @ x))"
    if "x \<in> {'' is no longer current'', '' is closed'', '' does not use Codex'', '' has no ready worker'',
          '' has no cancellable active turn''}" for sid x
  proof -
    have low: "ToLower '' is no longer current'' = '' is '' @ ''no longer current''"
      "ToLower '' is closed'' = '' is '' @ ''closed''" "ToLower '' does not use Codex'' = '' '' @ ''does not use codex''"
      "ToLower '' has no ready worker'' = '' has '' @ ''no ready worker''"
      "ToLower '' has no cancellable active turn'' = '' has '' @ ''no cancellable active turn''"
      by code_simp+
    note found = low [THEN marker_suffix, of "''session '' @ sid"]
    from that show ?thesis
      by (intro conflict_marker) (use found in \<open>auto simp: conflict_markers_def\<close>)
  qed
  show ?thesis
    using assms * by (auto simp: CancelTurnMeta_def Let_def case_prod_unfold split: if_splits)
qed

text \<open>
  C32: cancelling over HTTP. The answer is 404 exactly when no such session is registered, 202 exactly
  when the cancellation was accepted, and 409 otherwise: whatever happens meanwhile, a refused
  cancellation is never reported as a failure of the server. With 202 the turn that was active at
  the moment the cancellation began is marked as being cancelled and its two goroutines are started
  with its token; without it the handler changes nothing. When nothing else happens the answer is 202
  exactly when the session may be cancelled and its worker is ready.
\<close>

theorem cancel_request_spec:
  assumes "handleSessionCancel w sid d = (d', resp, begun)"
    and "d1 = hw_env w 1 (hw_env w 0 d)" and "d3 = hw_env w 3 (hw_env w 2 d1)"
  shows "(rs_Status resp = 404 \<longleftrightarrow> sessions d sid = None) \<and> (rs_Status resp = 202 \<longleftrightarrow> begun \<noteq> None)
    \<and> rs_Status resp \<in> {202, 404, 409}
    \<and> (case begun of
         Some b \<Rightarrow> (\<exists>m. sessions d sid = Some m \<and> b = StartedCancel m (turnToken (metas d3 m)) \<and> cancellable m d3
           \<and> hasReadyCurrentWorkerForSession (hw_env w 2 d1) m \<and> d' = upd_meta m (\<lambda>x. x\<lparr>turnCancelling := True\<rparr>) d3)
       | None \<Rightarrow> d' \<in> {d, hw_env w 0 d, hw_env w 5 d1, hw_env w 5 d3, hw_env w 5 (hw_env w 4 d3)})
    \<and> ((\<forall>k d. hw_env w k d = d) \<longrightarrow>
         (rs_Status resp = 202 \<longleftrightarrow> (\<exists>m. sessions d sid = Some m \<and> cancellable m d \<and> hasReadyCurrentWorkerForSession d m)))"
proof (cases "snd (snd (snd (cancelTurnPreflight (hw_env w 0) sid d)))")
  case False
  obtain dp meta found where p: "cancelTurnPreflight (hw_env w 0) sid d = (dp, meta, found, False)"
    using False by (metis prod.collapse snd_conv)
  have dp: "dp \<in> {d, hw_env w 0 d}" using preflight_state [of "hw_env w 0" sid d] p by simp
  have found: "found \<longleftrightarrow> sessions d sid \<noteq> None"
    using p by (auto simp: cancelTurnPreflight_def Let_def split: option.splits if_splits)
  have quiet: "(\<forall>k d. hw_env w k d = d) \<Longrightarrow> sessions d sid = Some m
      \<Longrightarrow> \<not> (cancellable m d \<and> hasReadyCurrentWorkerForSession d m)" for m
    using p by (auto simp: cancelTurnPreflight_def cancellable_def cancel_open_def TurnSnapshot_of_def Let_def split: if_splits)
  show ?thesis using assms(1) dp found quiet by (auto simp: handleSessionCancel_def p)
next
  case True
  then obtain m where m: "sessions d sid = Some m"
    and p: "cancelTurnPreflight (hw_env w 0) sid d = (hw_env w 0 d, Some m, True, True)"
    by (auto simp: cancelTurnPreflight_def Let_def split: option.splits if_splits)
  let ?env = "\<lambda>k. hw_env w (k + 2)"
  have e: "?env 0 d1 = hw_env w 2 d1" "?env 1 (hw_env w 2 d1) = d3" "?env 2 d3 = hw_env w 4 d3"
    by (simp_all add: assms(3) numeral_eq_Suc)
  note spec = cancel_turn_spec [of ?env m d1, unfolded e]
  obtain d4 res where c: "CancelTurnMeta ?env m d1 = (d4, res)" by force
  have resp: "(case res of
        Inl e \<Rightarrow> (let d = hw_env w 5 d4; (status, message) = cancelTurnErrorResponse m sid e d
                  in (d, writeError status message, None))
      | Inr tok \<Rightarrow> (d4, writeJSON 202 (cancel_json \<lparr>ct_OK = True, ct_SessionID = sid, ct_Cancelling = True\<rparr>),
                    Some (StartedCancel m tok))) = (d', resp, begun)"
    using assms(1) c unfolding assms(2) handleSessionCancel_def p by (cases res) (simp_all del: add_2_eq_Suc')
  show ?thesis
  proof (cases res)
    case (Inl e)
    have "cancelTurnErrorIsConflict (Some e)" using cancel_refusal_conflict [of ?env m d1 e] c Inl by simp
    then have r: "d' = hw_env w 5 d4 \<and> rs_Status resp = 409 \<and> begun = None"
      using resp Inl by (auto simp: cancelTurnErrorResponse_def Let_def)
    have d4: "d4 \<in> {d1, d3, hw_env w 4 d3}" using spec c Inl by simp
    have "\<not> (cancellable m d \<and> hasReadyCurrentWorkerForSession d m)" if "\<forall>k d. hw_env w k d = d"
      using spec [of "turnToken (metas d3 m)"] c Inl that assms(2,3) by (auto simp: cancellable_def)
    with r d4 m show ?thesis by auto
  next
    case (Inr tok)
    then have r: "d' = d4 \<and> rs_Status resp = 202 \<and> begun = Some (StartedCancel m tok)" using resp by auto
    have "cancellable m d3 \<and> hasReadyCurrentWorkerForSession (hw_env w 2 d1) m \<and> tok = turnToken (metas d3 m)
        \<and> d4 = upd_meta m (\<lambda>x. x\<lparr>turnCancelling := True\<rparr>) d3"
      using spec [of tok] c Inr by simp
    with r m assms(2,3) show ?thesis by auto
  qed
qed

theorem cancel_request_spec_witness:
  "rs_Status (fst (snd (handleSessionCancel quiet_world ''s'' sample_state))) = 202
    \<and> turnCancelling (metas (fst (handleSessionCancel quiet_world ''s'' sample_state)) 0)"
proof -
  obtain d' resp begun where r: "handleSessionCancel quiet_world ''s'' sample_state = (d', resp, begun)"
    by (metis prod_cases3)
  have s: "sessions sample_state ''s'' = Some 0" "cancellable 0 sample_state"
    "hasReadyCurrentWorkerForSession sample_state 0" by code_simp+
  note spec = cancel_request_spec [OF r refl refl]
  from spec s have ok: "rs_Status resp = 202" by auto
  with spec obtain b where "begun = Some b" by auto
  with spec s have "d' = upd_meta 0 (\<lambda>x. x\<lparr>turnCancelling := True\<rparr>) sample_state" by auto
  with ok r show ?thesis by simp
qed

section \<open>Pages\<close>

text \<open>Request \<open>r\<close> for page \<open>k\<close> of \<open>per\<close> entries.\<close>

definition page_of :: "http_req \<Rightarrow> nat \<Rightarrow> nat \<Rightarrow> http_req" where
  "page_of r per k = r\<lparr>rq_Query := (''limit'', itoa (int per)) # (''offset'', itoa (int (k * per))) # rq_Query r\<rparr>"

lemma itoa_not_empty [simp]: "itoa i \<noteq> []"
proof -
  have "itoa_nat n \<noteq> []" for n using itoa_nat_digits by auto
  then show ?thesis by (simp add: itoa_def)
qed

lemma page_of_get [simp]:
  "query_get (page_of r per k) ''limit'' = itoa (int per)"
  "query_get (page_of r per k) ''offset'' = itoa (int (k * per))"
  "query_get (page_of r per k) ''sort'' = query_get r ''sort''"
  "query_get (page_of r per k) ''bot_id'' = query_get r ''bot_id''"
  "query_get (page_of r per k) ''status'' = query_get r ''status''"
  by (simp_all add: query_get_def page_of_def)

lemma page_of_params:
  assumes "0 < per" "k * per < 2 ^ 63" "per \<le> 2000"
  shows "page_offset (page_of r per k) = k * per"
    and "per \<le> 500 \<Longrightarrow> list_limit (page_of r per k) = per"
    and "detail_limit (page_of r per k) = per"
proof -
  have "int per < 2 ^ 63" using assms(3) by simp
  moreover have "int (k * per) < 2 ^ 63" using assms(2) by (simp only: of_nat_less_numeral_power_cancel_iff)
  moreover have "- (2 ^ 63) \<le> int x" for x by (rule order_trans [of _ 0]) simp_all
  ultimately have a: "Atoi (itoa (int per)) = Some (int per)" "Atoi (itoa (int (k * per))) = Some (int (k * per))"
    using Atoi_itoa by blast+
  show "page_offset (page_of r per k) = k * per"
    unfolding page_offset_def int_param_def Let_def page_of_get a option.case nat_int by simp
  show "per \<le> 500 \<Longrightarrow> list_limit (page_of r per k) = per"
    unfolding list_limit_def int_param_def Let_def page_of_get a using assms(1) by simp
  show "detail_limit (page_of r per k) = per"
    unfolding detail_limit_def int_param_def Let_def page_of_get a
    using assms(1,3) by (simp add: maxMemoryOutputLines_def)
qed

lemma page_in_range: "k < n \<Longrightarrow> n * per < 2 ^ 63 \<Longrightarrow> k * per < (2 ^ 63 :: nat)"
  by (rule le_less_trans [of _ "n * per"]) (simp_all add: mult_le_mono1)

lemma drop_min: "drop (min k (length xs)) xs = drop k xs"
  by (simp add: min_def)

lemma limits:
  "1 \<le> list_limit r" "list_limit r \<le> 500" "1 \<le> detail_limit r" "detail_limit r \<le> 2000"
proof -
  have l: "1 \<le> int (list_limit r) \<and> int (list_limit r) \<le> 500"
    unfolding list_limit_def by (rule int_param_bounds) auto
  have d: "1 \<le> int (detail_limit r) \<and> int (detail_limit r) \<le> 2000"
    unfolding detail_limit_def Let_def by (rule int_param_bounds) (auto simp: maxMemoryOutputLines_def)
  from l d show "1 \<le> list_limit r" "list_limit r \<le> 500" "1 \<le> detail_limit r" "detail_limit r \<le> 2000" by auto
qed

text \<open>
  C35: reading a session's output page by page. The answer to any request, whatever its parameters,
  is a window inside the output of at most 2000 lines that starts where the answer says; and a client
  that asks for consecutive pages (while the output does not change) receives the whole output, in
  order, each line once.
\<close>

theorem output_pages_complete:
  assumes "0 < per" "per \<le> 2000" "n * per < 2 ^ 63" "length (SnapshotOutput (metas d' m)) \<le> n * per"
  shows "concat (map (\<lambda>k. sd_Outputs (detail_response fmt (page_of r per k) sid m d d')) [0..<n]) = SnapshotOutput (metas d' m)
    \<and> (let a = detail_response fmt q sid m d d' in
         sd_TotalLines a = length (SnapshotOutput (metas d' m)) \<and> sd_Offset a \<le> sd_TotalLines a
         \<and> 1 \<le> sd_Limit a \<and> sd_Limit a \<le> 2000
         \<and> sd_Outputs a = take (sd_Limit a) (drop (sd_Offset a) (SnapshotOutput (metas d' m))))"
proof
  have "sd_Outputs (detail_response fmt (page_of r per k) sid m d d') = take per (drop (k * per) (SnapshotOutput (metas d' m)))"
    if "k < n" for k
  proof -
    note k = page_in_range [OF that assms(3)]
    show ?thesis using page_of_params [OF assms(1) k assms(2)]
      by (simp add: detail_response_def Let_def output_page_take)
  qed
  then have "concat (map (\<lambda>k. sd_Outputs (detail_response fmt (page_of r per k) sid m d d')) [0..<n])
      = concat (map (\<lambda>k. take per (drop (k * per) (SnapshotOutput (metas d' m)))) [0..<n])"
    by (intro arg_cong [where f = concat] map_cong) auto
  then show "concat (map (\<lambda>k. sd_Outputs (detail_response fmt (page_of r per k) sid m d d')) [0..<n]) = SnapshotOutput (metas d' m)"
    using assms(4) by (simp add: pages_cover)
next
  show "let a = detail_response fmt q sid m d d' in
         sd_TotalLines a = length (SnapshotOutput (metas d' m)) \<and> sd_Offset a \<le> sd_TotalLines a
         \<and> 1 \<le> sd_Limit a \<and> sd_Limit a \<le> 2000
         \<and> sd_Outputs a = take (sd_Limit a) (drop (sd_Offset a) (SnapshotOutput (metas d' m)))"
    using limits [of q] by (simp add: detail_response_def Let_def output_page_take drop_min)
qed

text \<open>A record with three lines of output.\<close>

definition chatty_state :: Daemon where
  "chatty_state = upd_meta 0 (\<lambda>x. x\<lparr>LastOutput := [''a'', ''b'', ''c'']\<rparr>) (New sample_config Map.empty)"

theorem output_pages_complete_witness:
  "sd_Outputs (detail_response (\<lambda>_. []) (page_of (request MethodGet []) 2 0) ''s'' 0 chatty_state chatty_state)
    @ sd_Outputs (detail_response (\<lambda>_. []) (page_of (request MethodGet []) 2 1) ''s'' 0 chatty_state chatty_state) = [''a'', ''b'', ''c'']"
proof -
  have o: "SnapshotOutput (metas chatty_state 0) = [''a'', ''b'', ''c'']"
    by (simp add: chatty_state_def SnapshotOutput_def)
  have upt: "[0..<2] = [0, 1 :: nat]" by (simp add: upt_rec)
  have small: "0 < (2 :: nat)" "(2 :: nat) \<le> 2000" "2 * 2 < (2 ^ 63 :: nat)"
    "length (SnapshotOutput (metas chatty_state 0)) \<le> 2 * 2"
    unfolding o by simp_all
  have "concat (map (\<lambda>k. sd_Outputs (detail_response (\<lambda>_. []) (page_of (request MethodGet []) 2 k) ''s'' 0 chatty_state chatty_state)) [0..<2]) = [''a'', ''b'', ''c'']"
    by (rule output_pages_complete [of 2 2 chatty_state 0 "\<lambda>_. []" "request MethodGet []" "''s''" chatty_state, OF small, THEN conjunct1, unfolded o])
  then show ?thesis unfolding upt by (simp only: list.map concat.simps append_Nil2)
qed

section \<open>Listing\<close>

text \<open>The order a sort key asks for.\<close>

definition list_le :: "Daemon \<Rightarrow> string \<Rightarrow> mref \<Rightarrow> mref \<Rightarrow> bool" where
  "list_le d key a b =
     (let x = metas d a; y = metas d b in
      if key = ''created_at_asc'' then CreatedAt x \<le> CreatedAt y
      else if key = ''last_active_asc'' then lastActive x \<le> lastActive y
      else if key = ''last_active_desc'' then lastActive y \<le> lastActive x
      else if key = ''session_id'' then SessionID x \<le> SessionID y
      else CreatedAt y \<le> CreatedAt x)"

lemma sorted_wrt_sort_key:
  "(\<And>a b. f a \<le> f b \<Longrightarrow> P a b) \<Longrightarrow> sorted_wrt P (sort_key f xs)"
  using sorted_sort_key [of f xs] by (auto simp: sorted_map elim: sorted_wrt_mono_rel [rotated])

lemma sorted_sort_metas: "sorted_wrt (list_le d key) (sort_metas d key ms)"
proof -
  have ca: "key = ''created_at_asc'' \<Longrightarrow> sorted_wrt (list_le d key) (sort_key (\<lambda>m. CreatedAt (metas d m)) ms)"
    by (rule sorted_wrt_sort_key) (simp add: list_le_def)
  have la: "key = ''last_active_asc'' \<Longrightarrow> sorted_wrt (list_le d key) (sort_key (\<lambda>m. LastActive (metas d m)) ms)"
    by (rule sorted_wrt_sort_key) (simp add: list_le_def LastActive_def)
  have ld: "key = ''last_active_desc'' \<Longrightarrow> sorted_wrt (list_le d key) (sort_key (\<lambda>m. - LastActive (metas d m)) ms)"
    by (rule sorted_wrt_sort_key) (simp add: list_le_def LastActive_def)
  have si: "key = ''session_id'' \<Longrightarrow> sorted_wrt (list_le d key) (sort_key (\<lambda>m. SessionID (metas d m)) ms)"
    by (rule sorted_wrt_sort_key) (simp add: list_le_def)
  have cd: "key \<notin> {''created_at_asc'', ''last_active_asc'', ''last_active_desc'', ''session_id''}
      \<Longrightarrow> sorted_wrt (list_le d key) (sort_key (\<lambda>m. - CreatedAt (metas d m)) ms)"
    by (rule sorted_wrt_sort_key) (simp add: list_le_def)
  show ?thesis
    unfolding sort_metas_def
    by (cases "key = ''created_at_asc''"; cases "key = ''last_active_asc''"; cases "key = ''last_active_desc''";
        cases "key = ''session_id''") (simp_all add: ca [simplified] la [simplified] ld [simplified] si [simplified] cd [simplified])
qed

lemma mset_sort_metas: "mset (sort_metas d key ms) = mset ms"
  by (simp add: sort_metas_def)

lemma listed_page_of [simp]: "listed (page_of r per k) order d = listed r order d"
  by (simp add: listed_def)

text \<open>Two lists with the same elements that are both sorted, by an order without ties on them, are equal.\<close>

lemma sorted_wrt_unique:
  assumes "sorted_wrt R xs" "sorted_wrt R ys" "distinct xs" "distinct ys" "set xs = set ys"
    and "\<And>a b. a \<in> set xs \<Longrightarrow> b \<in> set xs \<Longrightarrow> R a b \<Longrightarrow> R b a \<Longrightarrow> a = b"
  shows "xs = ys"
  using assms
proof (induction xs arbitrary: ys)
  case (Cons x xs)
  obtain y ys' where ys: "ys = y # ys'" using Cons.prems(5) by (cases ys) auto
  have "x = y"
  proof (rule ccontr)
    assume "x \<noteq> y"
    then have "y \<in> set xs" "x \<in> set ys'" using Cons.prems(5) ys by auto
    then have "R x y" "R y x" using Cons.prems(1,2) ys by auto
    with Cons.prems(5,6) ys \<open>x \<noteq> y\<close> show False by (metis list.set_intros(1))
  qed
  have set: "set xs = set ys'" using Cons.prems(3-5) ys \<open>x = y\<close> by (auto simp: set_eq_iff)
  have "xs = ys'"
  proof (rule Cons.IH [OF _ _ _ _ set])
    show "sorted_wrt R xs" "sorted_wrt R ys'" "distinct xs" "distinct ys'" using Cons.prems(1-4) ys by simp_all
    show "a = b" if "a \<in> set xs" "b \<in> set xs" "R a b" "R b a" for a b
      by (rule Cons.prems(6)) (use that in simp_all)
  qed
  with \<open>x = y\<close> show ?case using ys by simp
qed simp

text \<open>\<open>order\<close> is an order in which Go's range may visit the registered sessions.\<close>

definition visits :: "mref list \<Rightarrow> Daemon \<Rightarrow> bool" where
  "visits order d \<longleftrightarrow> distinct order \<and> set order = ran (sessions d)"

text \<open>The sessions a request asks for.\<close>

definition wanted :: "http_req \<Rightarrow> Daemon \<Rightarrow> mref set" where
  "wanted r d = {m \<in> ran (sessions d). list_match d (query_get r ''bot_id'') (query_get r ''status'') m}"

definition list_order :: "http_req \<Rightarrow> Daemon \<Rightarrow> mref \<Rightarrow> mref \<Rightarrow> bool" where
  "list_order r d = list_le d (or_default (query_get r ''sort'') ''created_at_desc'')"

lemma listed_spec:
  assumes "visits order d"
  shows "distinct (listed r order d)" "set (listed r order d) = wanted r d" "sorted_wrt (list_order r d) (listed r order d)"
    "length (listed r order d) = card (wanted r d)"
proof -
  let ?ms = "filter (list_match d (query_get r ''bot_id'') (query_get r ''status'')) order"
  have m: "mset (listed r order d) = mset ?ms" by (simp add: listed_def mset_sort_metas)
  have "distinct ?ms" using assms by (simp add: visits_def)
  then show dl: "distinct (listed r order d)" using mset_eq_imp_distinct_iff [OF m] by simp
  show set: "set (listed r order d) = wanted r d"
    using mset_eq_setD [OF m] assms by (auto simp: wanted_def visits_def)
  show "sorted_wrt (list_order r d) (listed r order d)"
    unfolding listed_def list_order_def Let_def by (rule sorted_sort_metas)
  show "length (listed r order d) = card (wanted r d)" using distinct_card [OF dl] set by simp
qed


text \<open>Two sessions, and two requests that visit them in different orders.\<close>

definition two_sessions :: "time \<Rightarrow> time \<Rightarrow> Daemon" where
  "two_sessions t u = (New sample_config Map.empty)
     \<lparr>sessions := [''a'' \<mapsto> 0, ''b'' \<mapsto> 1], nextMeta := 2,
      metas := (\<lambda>m. if m = 0 then zero_meta\<lparr>SessionID := ''a'', CreatedAt := t\<rparr> else zero_meta\<lparr>SessionID := ''b'', CreatedAt := u\<rparr>)\<rparr>"

lemma two_sessions_ran: "ran (sessions (two_sessions t u)) = {0, 1}"
  by (simp add: two_sessions_def insert_commute)


text \<open>
  Without the assumption on equal keys the pages can be wrong: two sessions created at the same time,
  listed one by one, in two requests that visit the map in different orders.
\<close>

lemma equal_keys_repeat_a_session:
  "let d = two_sessions 5 5; r = request MethodGet ''/api/sessions'';
       page = (\<lambda>k order. map li_SessionID (sl_Items (list_response (\<lambda>_. []) (page_of r 1 k) order d d)))
   in visits [0, 1] d \<and> visits [1, 0] d \<and> page 0 [0, 1] = [''a''] \<and> page 1 [1, 0] = [''a'']"
proof -
  have v: "visits [0, 1] (two_sessions 5 5)" "visits [1, 0] (two_sessions 5 5)"
    by (auto simp: visits_def two_sessions_ran)
  have l: "listed (request MethodGet ''/api/sessions'') [0, 1] (two_sessions 5 5) = [0, 1]"
    "listed (request MethodGet ''/api/sessions'') [1, 0] (two_sessions 5 5) = [1, 0]"
    by (simp_all add: listed_def list_match_def sort_metas_def query_get_def request_def or_default_def two_sessions_def)
  have p: "0 < (1 :: nat)" "k * 1 < (2 :: nat) ^ 63" "(1 :: nat) \<le> 2000" if "k < 2" for k :: nat
    using that by simp_all
  have q: "list_limit (page_of r 1 k) = 1 \<and> page_offset (page_of r 1 k) = k" if "k < 2" for r k
    using page_of_params [OF p [OF that]] by simp
  have "map li_SessionID (sl_Items (list_response (\<lambda>_. []) (page_of (request MethodGet ''/api/sessions'') 1 k) order (two_sessions 5 5) (two_sessions 5 5)))
      = map (\<lambda>m. SessionID (metas (two_sessions 5 5) m)) (take 1 (drop k (listed (request MethodGet ''/api/sessions'') order (two_sessions 5 5))))"
    if "k < 2" for k order
    using q [OF that] by (simp add: Let_def list_response_def list_page_take list_item_def del: One_nat_def)
  from this [of 0 "[0, 1]"] this [of 1 "[1, 0]"] v show ?thesis
    unfolding Let_def l by (simp add: two_sessions_def)
qed

section \<open>Creating\<close>

lemma purge_effect:
  "sessions (PurgeSession rm i d) = (sessions d)(i := None)"
  "workers (PurgeSession rm i d) = (workers d)(i := None)"
  "nextMeta (PurgeSession rm i d) = nextMeta d" "nextHandle (PurgeSession rm i d) = nextHandle d"
  by (auto simp: PurgeSession_def deleteWorkerIfCurrentLocked_def Let_def fun_upd_idem split: option.split)

lemma make_room_refused:
  "make_room w force sid d = (d1, Some resp) \<longleftrightarrow>
     d1 = hw_env w 3 d \<and> \<not> force \<and> (\<exists>m. sessions d sid = Some m \<and> \<not> Closed (metas d1 m)
       \<and> resp = writeJSON 409 (exists_json (metas d1 m) sid))"
  by (auto simp: make_room_def Let_def split: option.splits)

lemma make_room_made:
  assumes "make_room w force sid d = (d1, None)" and "\<And>k d. hw_env w k d = d"
  shows "sessions d1 = (sessions d)(sid := None)" and "workers d1 \<in> {workers d, (workers d)(sid := None)}"
    and "nextMeta d1 = nextMeta d" "nextHandle d1 = nextHandle d"
  using assms by (auto simp: make_room_def Let_def purge_effect fun_upd_idem split: option.splits if_splits)

text \<open>
  C33: creating a session over HTTP. The request is answered with 409 exactly when it does not force
  the replacement of a session and one of that id is registered when it arrives and open when that is
  looked at, and then the handler changes nothing; otherwise the answer is 201 or 400. When the answer
  is 201 and nothing else happens meanwhile, the id is held by a new open record in state SPAWNING,
  owned by a new worker generation, and every other session and worker is as before.
\<close>

theorem create_request_spec:
  assumes "handleCreateSession w r d = (d', resp)" and "rq_Method r = MethodPost"
    and "create_request w r = Some req" and "sid = cq_SessionID req"
  shows "rs_Status resp \<in> {201, 400, 409}
    \<and> (rs_Status resp = 409 \<longleftrightarrow>
        \<not> force_create r \<and> (\<exists>m. sessions d sid = Some m \<and> \<not> Closed (metas (hw_env w 3 d) m)))
    \<and> (rs_Status resp = 409 \<longrightarrow> d' = hw_env w 3 d)
    \<and> (rs_Status resp = 201 \<and> (\<forall>k d. hw_env w k d = d) \<longrightarrow>
        sessions d' = (sessions d)(sid \<mapsto> nextMeta d) \<and> workers d' = (workers d)(sid \<mapsto> nextHandle d)
        \<and> workerOwners d' (nextHandle d) = Some (nextMeta d)
        \<and> Status (metas d' (nextMeta d)) = StatusSpawning \<and> \<not> Closed (metas d' (nextMeta d)))"
proof -
  obtain d1 refused where room: "make_room w (force_create r) sid d = (d1, refused)" by force
  show ?thesis
  proof (cases refused)
    case (Some resp')
    with assms room make_room_refused [of w "force_create r" sid d d1 resp'] show ?thesis
      by (auto simp: handleCreateSession_def)
  next
    case None
    let ?opts = "\<lparr>no_SessionID = sid, no_BotID = cq_BotID req, no_CliType = [], no_CliPath = [],
        no_WorkingDir = [], no_CodexProfile = cq_CodexProfile req\<rparr>"
    have no409: "\<not> (\<not> force_create r \<and> (\<exists>m. sessions d sid = Some m \<and> \<not> Closed (metas (hw_env w 3 d) m)))"
      using room None by (auto simp: make_room_def Let_def split: option.splits if_splits)
    obtain d2 res where new: "NewSession (hw_validate w) (hw_spawn w) (hw_io w) (hw_rm w) (hw_env w 1) ?opts (hw_env w 0 d1) = (d2, res)"
      by force
    have form: "d' = (case res of Inl e \<Rightarrow> d2 | Inr _ \<Rightarrow> hw_env w 2 d2) \<and> rs_Status resp = (case res of Inl e \<Rightarrow> 400 | Inr _ \<Rightarrow> 201)"
      using assms room None new by (cases res) (auto simp: handleCreateSession_def Let_def)
    have "sessions d' = (sessions d)(sid \<mapsto> nextMeta d) \<and> workers d' = (workers d)(sid \<mapsto> nextHandle d)
        \<and> workerOwners d' (nextHandle d) = Some (nextMeta d)
        \<and> Status (metas d' (nextMeta d)) = StatusSpawning \<and> \<not> Closed (metas d' (nextMeta d))"
      if ok: "rs_Status resp = 201" and q: "\<forall>k d. hw_env w k d = d"
    proof -
      from ok form obtain m where m: "res = Inr m" by (cases res) auto
      have "hw_env w 1 = id" using q by auto
      with new q m have n: "NewSession (hw_validate w) (hw_spawn w) (hw_io w) (hw_rm w) id ?opts d1 = (d2, Inr m)"
        by (simp add: id_def)
      note made = make_room_made [OF room [unfolded None] q [THEN spec, THEN spec]]
      note eff = new_session_spec [OF n, of sid, simplified, THEN conjunct2]
      have d': "d' = d2" using form m q by simp
      from eff made show ?thesis unfolding d' by auto
    qed
    with form no409 show ?thesis by (cases res) auto
  qed
qed

text \<open>
  A forced creation purges the session before the request is checked: when the check fails, the
  session is gone and nothing takes its place.
\<close>

lemma forced_creation_loses:
  assumes "rq_Method r = MethodPost" "create_request w r = Some req" "force_create r"
    and "\<And>k d. hw_env w k d = d" and "\<not> d_closed d"
    and "new_session_meta (hw_validate w) (sw_now (hw_spawn w)) (cfg d) \<lparr>no_SessionID = cq_SessionID req, no_BotID = cq_BotID req, no_CliType = [],
        no_CliPath = [], no_WorkingDir = [], no_CodexProfile = cq_CodexProfile req\<rparr> = Inl e"
  shows "rs_Status (snd (handleCreateSession w r d)) = 400
    \<and> sessions (fst (handleCreateSession w r d)) = (sessions d)(cq_SessionID req := None)"
proof -
  let ?d1 = "PurgeSession (hw_rm w) (cq_SessionID req) d"
  have "cfg ?d1 = cfg d" "d_closed ?d1 = d_closed d"
    by (auto simp: PurgeSession_def deleteWorkerIfCurrentLocked_def Let_def split: option.split)
  with assms show ?thesis
    by (simp add: handleCreateSession_def make_room_def NewSession_def isClosed_def purge_effect Let_def)
qed

definition create_sample :: http_req where
  "create_sample = (request MethodPost ''/api/sessions'')\<lparr>rq_ContentLength := 23,
     rq_Body := ''{'' @ [CHR 0x22] @ ''session_id'' @ [CHR 0x22] @ '':'' @ [CHR 0x22] @ ''n'' @ [CHR 0x22] @ ''}''\<rparr>"

theorem create_request_spec_witness:
  "sessions (fst (handleCreateSession quiet_world create_sample (New codex_config Map.empty))) ''n'' = Some 0"
proof -
  obtain d' resp where r: "handleCreateSession quiet_world create_sample (New codex_config Map.empty) = (d', resp)" by force
  have req: "create_request quiet_world create_sample = Some \<lparr>cq_SessionID = ''n'', cq_BotID = [], cq_CodexProfile = []\<rparr>"
    by code_simp
  have "rs_Status (snd (handleCreateSession quiet_world create_sample (New codex_config Map.empty))) = 201" by code_simp
  with r have ok: "rs_Status resp = 201" by simp
  have "rq_Method create_sample = MethodPost" by (simp add: create_sample_def request_def)
  from create_request_spec [OF r this req refl] ok have "sessions d' ''n'' = Some 0" by (simp add: New_def)
  then show ?thesis unfolding r fst_conv .
qed

end
