(* ===== verification/Config_Load.thy ===== *)
theory Config_Load
  imports Config Protocol_Codec
begin

text \<open>
  \<open>internal/config/config.go\<close>, the reading of a configuration: the fields
  \<open>json.Unmarshal\<close> fills, \<open>Load\<close>, \<open>LoadFromDefaultPath\<close> and \<open>EnsureDirs\<close>. What the file
  system answers is an argument. \<open>Load\<close> and \<open>LoadFromDefaultPath\<close> call each other, and not
  returning is the value \<open>None\<close>.

  \<open>Load\<close> unmarshals into the default configuration, so a member the file leaves out keeps its
  default. That holds of the first bot too: decoding an array into a slice sets the length of the
  slice to zero and reuses its elements without clearing them. (What a slice keeps beyond its
  length, which only a member that occurs three times could reach, is not modelled.)
\<close>

section \<open>The fields\<close>

text \<open>
  An array decoded into a slice whose elements are \<open>old\<close>: element \<open>i\<close> is decoded on top of
  \<open>old ! i\<close>, a new one on top of \<open>zero\<close>.
\<close>

fun decode_elems :: "(json \<Rightarrow> 'a \<Rightarrow> 'a option) \<Rightarrow> 'a \<Rightarrow> 'a list \<Rightarrow> json list \<Rightarrow> 'a list option" where
  "decode_elems f zero old [] = Some []"
| "decode_elems f zero old (v # vs) =
     (case f v (case old of [] \<Rightarrow> zero | x # _ \<Rightarrow> x) of
        None \<Rightarrow> None
      | Some y \<Rightarrow> map_option ((#) y) (decode_elems f zero (tl old) vs))"

definition slice_field ::
  "(json \<Rightarrow> 'a \<Rightarrow> 'a option) \<Rightarrow> 'a \<Rightarrow> ('r \<Rightarrow> 'a list) \<Rightarrow> ('a list \<Rightarrow> 'r \<Rightarrow> 'r) \<Rightarrow> json \<Rightarrow> 'r \<Rightarrow> 'r option" where
  "slice_field f zero get upd v r =
     (case v of
        JNull \<Rightarrow> Some (upd [] r)
      | JArr vs \<Rightarrow> map_option (\<lambda>xs. upd xs r) (decode_elems f zero (get r) vs)
      | _ \<Rightarrow> None)"

definition zero_bot :: BotConfig where
  "zero_bot = \<lparr>bot_Name = [], bot_BotID = [], bot_CliType = [], bot_CliPath = [], BackendType = [],
     bot_WorkingDir = [], AllowedUsers = [], bot_Model = [], bot_CodexProfile = []\<rparr>"

definition bot_fields :: "BotConfig field list" where
  "bot_fields =
     [(''name'', string_field (\<lambda>s b. b\<lparr>bot_Name := s\<rparr>)),
      (''bot_id'', string_field (\<lambda>s b. b\<lparr>bot_BotID := s\<rparr>)),
      (''cli_type'', string_field (\<lambda>s b. b\<lparr>bot_CliType := s\<rparr>)),
      (''cli_path'', string_field (\<lambda>s b. b\<lparr>bot_CliPath := s\<rparr>)),
      (''backend_type'', string_field (\<lambda>s b. b\<lparr>BackendType := s\<rparr>)),
      (''working_dir'', string_field (\<lambda>s b. b\<lparr>bot_WorkingDir := s\<rparr>)),
      (''allowed_users'', slice_field (string_field (\<lambda>s _. s)) [] AllowedUsers (\<lambda>us b. b\<lparr>AllowedUsers := us\<rparr>)),
      (''model'', string_field (\<lambda>s b. b\<lparr>bot_Model := s\<rparr>)),
      (''codex_profile'', string_field (\<lambda>s b. b\<lparr>bot_CodexProfile := s\<rparr>))]"

definition config_fields :: "DaemonConfig field list" where
  "config_fields =
     [(''listen_addr'', string_field (\<lambda>s c. c\<lparr>ListenAddr := s\<rparr>)),
      (''dashboard_addr'', string_field (\<lambda>s c. c\<lparr>DashboardAddr := s\<rparr>)),
      (''log_level'', string_field (\<lambda>s c. c\<lparr>LogLevel := s\<rparr>)),
      (''sessions_dir'', string_field (\<lambda>s c. c\<lparr>SessionsDir := s\<rparr>)),
      (''bots'', slice_field (\<lambda>v b. unmarshal_value bot_fields b v) zero_bot Bots (\<lambda>bs c. c\<lparr>Bots := bs\<rparr>))]"

section \<open>Loading\<close>

text \<open>
  What the file system answers: \<open>os.ReadFile\<close>, whether \<open>os.Stat\<close> succeeds, and
  \<open>filepath.Abs\<close>, which is empty when it fails (its error is ignored).
\<close>

record config_world =
  cf_os :: os_env
  cf_read :: "string \<Rightarrow> string + string"
  cf_stat :: "string \<Rightarrow> bool"
  cf_abs :: "string \<Rightarrow> string"

datatype load_error = ReadConfigFile string | ParseConfig

definition load_file :: "config_world \<Rightarrow> string \<Rightarrow> load_error + DaemonConfig" where
  "load_file w path =
     (case cf_read w path of
        Inl e \<Rightarrow> Inl (ReadConfigFile e)
      | Inr data \<Rightarrow>
          (case unmarshal config_fields (DefaultConfig (cf_os w)) data of
             None \<Rightarrow> Inl ParseConfig
           | Some c \<Rightarrow> Inr (applyDefaults (cf_os w) c)))"

definition default_paths :: "string \<Rightarrow> string list" where
  "default_paths home = [path_join3 home ''.botmux-go'' ''bots.json'', ''configs/bots.json'']"

text \<open>\<open>LoadFromDefaultPath\<close>: the default configuration, or the path it calls \<open>Load\<close> with.\<close>

definition LoadFromDefaultPath :: "config_world \<Rightarrow> DaemonConfig + string" where
  "LoadFromDefaultPath w =
     (case UserHomeDir (cf_os w) of
        None \<Rightarrow> Inl (DefaultConfig (cf_os w))
      | Some home \<Rightarrow>
          (case List.find (cf_stat w) (default_paths home) of
             None \<Rightarrow> Inl (DefaultConfig (cf_os w))
           | Some p \<Rightarrow> Inr (cf_abs w p)))"

partial_function (option) Load :: "config_world \<Rightarrow> string \<Rightarrow> (load_error + DaemonConfig) option" where
  "Load w path =
     (if path = [] then
        (case LoadFromDefaultPath w of Inl c \<Rightarrow> Some (Inr c) | Inr p \<Rightarrow> Load w p)
      else Some (load_file w path))"

text \<open>\<open>EnsureDirs\<close>, with what \<open>os.MkdirAll\<close> answers.\<close>

definition EnsureDirs :: "(string \<Rightarrow> string option) \<Rightarrow> DaemonConfig \<Rightarrow> string option" where
  "EnsureDirs mkdir c = (if SessionsDir c \<noteq> [] then mkdir (SessionsDir c) else None)"

section \<open>What is loaded\<close>

lemma Load_path: "path \<noteq> [] \<Longrightarrow> Load w path = Some (load_file w path)"
  by (simp add: Load.simps)

lemma Load_default: "LoadFromDefaultPath w = Inl c \<Longrightarrow> Load w [] = Some (Inr c)"
  by (simp add: Load.simps)

lemma Load_found: "LoadFromDefaultPath w = Inr p \<Longrightarrow> p \<noteq> [] \<Longrightarrow> Load w [] = Some (load_file w p)"
  by (subst Load.simps) (simp add: Load_path)

text \<open>
  When no absolute path can be made of a default file that is there, \<open>Load\<close> and
  \<open>LoadFromDefaultPath\<close> call each other for ever.
\<close>

lemma Load_diverges: "LoadFromDefaultPath w = Inr [] \<Longrightarrow> Load w [] = None"
proof -
  have "path = [] \<longrightarrow> LoadFromDefaultPath w \<noteq> Inr []" if "Load w path = Some r" for path r
    by (rule Load.raw_induct [where P = "\<lambda>w path r. path = [] \<longrightarrow> LoadFromDefaultPath w \<noteq> Inr []", OF _ that])
      (auto split: if_splits sum.splits)
  then show "LoadFromDefaultPath w = Inr [] \<Longrightarrow> Load w [] = None"
    by (cases "Load w []") blast+
qed

text \<open>A configuration the daemon can run with.\<close>

definition complete_bot :: "os_env \<Rightarrow> BotConfig \<Rightarrow> bool" where
  "complete_bot os b = (BackendType b \<noteq> [] \<and> (UserHomeDir os \<noteq> None \<longrightarrow> bot_WorkingDir b \<noteq> []))"

definition complete_config :: "os_env \<Rightarrow> DaemonConfig \<Rightarrow> bool" where
  "complete_config os c =
     (ListenAddr c \<noteq> [] \<and> DashboardAddr c \<noteq> [] \<and> LogLevel c \<noteq> [] \<and> SessionsDir c \<noteq> []
      \<and> list_all (complete_bot os) (Bots c))"

lemma Clean_not_empty [simp]: "Clean p \<noteq> []"
  by (simp add: Clean_def Let_def)

lemma path_join_not_empty: "a \<noteq> [] \<or> b \<noteq> [] \<Longrightarrow> path_join a b \<noteq> []"
  by (auto simp: path_join_def)

lemma path_join3_not_empty [simp]: "path_join3 a b c \<noteq> []"
  by (simp add: path_join3_def path_join_not_empty)

lemma expandPath_not_empty: "UserHomeDir os \<noteq> Some [] \<Longrightarrow> p \<noteq> [] \<Longrightarrow> expandPath os p \<noteq> []"
  by (auto simp: expandPath_def path_join_not_empty split: option.split)

lemma complete_bot_defaults:
  assumes "UserHomeDir os \<noteq> Some []"
  shows "complete_bot os (bot_defaults os b)"
  using assms expandPath_not_empty [OF assms, of "bot_WorkingDir b"]
  by (auto simp: complete_bot_def bot_defaults_def Let_def home_or_empty_def BackendPty_def split: option.split)

lemma complete_applyDefaults:
  assumes "UserHomeDir os \<noteq> Some []"
  shows "complete_config os (applyDefaults os c)"
  using complete_bot_defaults [OF assms] expandPath_not_empty [OF assms]
  by (auto simp: complete_config_def applyDefaults_def Let_def list_all_iff)

lemma complete_default:
  assumes "UserHomeDir os \<noteq> Some []"
  shows "complete_config os (DefaultConfig os)"
  using assms
  by (auto simp: complete_config_def complete_bot_def DefaultConfig_def Let_def home_or_empty_def BackendPty_def split: option.split)

text \<open>The file a call of \<open>Load\<close> reads, if it reads one.\<close>

definition chosen_file :: "config_world \<Rightarrow> string \<Rightarrow> string option" where
  "chosen_file w path =
     (if path \<noteq> [] then Some path
      else case LoadFromDefaultPath w of Inl _ \<Rightarrow> None | Inr p \<Rightarrow> Some p)"

lemma Load_chosen:
  "Load w path = (case chosen_file w path of
      None \<Rightarrow> Some (Inr (DefaultConfig (cf_os w)))
    | Some p \<Rightarrow> if p = [] then None else Some (load_file w p))"
proof (cases "path = []")
  case True
  have "LoadFromDefaultPath w = Inl c \<Longrightarrow> c = DefaultConfig (cf_os w)" for c
    by (auto simp: LoadFromDefaultPath_def split: option.splits)
  with True Load_diverges [of w] show ?thesis
    by (cases "LoadFromDefaultPath w") (auto simp: chosen_file_def Load_default Load_found)
qed (simp add: Load_path chosen_file_def)

lemma load_complete:
  assumes "UserHomeDir (cf_os w) \<noteq> Some []" "Load w path = Some (Inr c)"
  shows "complete_config (cf_os w) c"
proof -
  have "load_file w p = Inr c \<Longrightarrow> complete_config (cf_os w) c" for p
    using complete_applyDefaults [OF assms(1)] by (auto simp: load_file_def split: sum.splits option.splits)
  then show ?thesis using assms(2) complete_default [OF assms(1)]
    by (auto simp: Load_chosen split: option.splits if_splits)
qed

text \<open>
  C40: loading a configuration returns unless a default file is found whose absolute path cannot be
  made; it reads the file that is named or else the first default file that exists, and with
  neither it gives the default configuration. Every configuration it gives is complete: the
  addresses, the log level and the sessions directory are set, every bot has a backend, and a
  working directory whenever the user has a home directory.
\<close>

theorem loaded_config_complete:
  assumes "UserHomeDir (cf_os w) \<noteq> Some []"
  shows "(Load w path = None \<longleftrightarrow> chosen_file w path = Some [])
    \<and> (\<forall>p. chosen_file w path = Some p \<and> p \<noteq> [] \<longrightarrow> Load w path = Some (load_file w p))
    \<and> (chosen_file w path = None \<longrightarrow> Load w path = Some (Inr (DefaultConfig (cf_os w))))
    \<and> (\<forall>c. Load w path = Some (Inr c) \<longrightarrow> complete_config (cf_os w) c)"
  using load_complete [OF assms, of path] by (auto simp: Load_chosen split: option.splits)

section \<open>A sample file\<close>

text \<open>
  Two bots without members: the first is the default bot, the second has no id and no tool.
  (Byte 34 is the quote.)
\<close>

definition sample_text :: string where
  "sample_text = ''{'' @ [CHR 0x22] @ ''bots'' @ [CHR 0x22] @ '':[{},{}]}''"

definition sample_load :: config_world where
  "sample_load = \<lparr>cf_os = \<lparr>Getenv = (\<lambda>_. ''/s''), UserHomeDir = Some ''/h''\<rparr>, cf_read = (\<lambda>_. Inr sample_text),
     cf_stat = (\<lambda>p. p = ''configs/bots.json''), cf_abs = (\<lambda>p. ''/w/'' @ p)\<rparr>"

lemma sample_loaded:
  "load_file sample_load p = Inr (DefaultConfig (cf_os sample_load)
     \<lparr>Bots := [hd (Bots (DefaultConfig (cf_os sample_load))),
               zero_bot\<lparr>BackendType := BackendPty, bot_WorkingDir := ''/h''\<rparr>]\<rparr>)"
  by code_simp

text \<open>The first configured bot inherits what it leaves out from the default bot, the second does not.\<close>

lemma first_bot_inherits:
  "map (\<lambda>b. (bot_BotID b, bot_CliType b)) (Bots (projr (load_file sample_load p))) = [(''bot-default'', ''mock''), ([], [])]"
  unfolding sample_loaded by code_simp

theorem loaded_config_complete_witness:
  "Load sample_load [] = Some (load_file sample_load ''/w/configs/bots.json'')
    \<and> complete_config (cf_os sample_load) (projr (load_file sample_load ''/w/configs/bots.json''))"
proof -
  have home: "UserHomeDir (cf_os sample_load) \<noteq> Some []" by (simp add: sample_load_def)
  have "chosen_file sample_load [] = Some ''/w/configs/bots.json''" by code_simp
  then have load: "Load sample_load [] = Some (load_file sample_load ''/w/configs/bots.json'')"
    using loaded_config_complete [OF home, of "[]"] by simp
  have c: "load_file sample_load ''/w/configs/bots.json'' = Inr (projr (load_file sample_load ''/w/configs/bots.json''))"
    by (simp add: sample_loaded)
  from load c have "complete_config (cf_os sample_load) (projr (load_file sample_load ''/w/configs/bots.json''))"
    using loaded_config_complete [OF home, of "[]"] by metis
  with load show ?thesis by blast
qed

end
