(* ===== verification/Cli.thy ===== *)
theory Cli
  imports Config_Load Daemon_Service Worker
begin

text \<open>
  \<open>cmd/daemon/main.go\<close>: the roles of the program, the options a worker takes from its
  environment, the configuration of a daemon, and the commands that talk to a running daemon. A
  command is given by what it prints, the messages it sends and its exit status; what the network
  gives it is a list of rounds of its read loop, each with the clock at the loop's test and the end
  of that read. Standard output is a list of printed texts (their final line feed left out); a text
  with a part in \<open>%q\<close> is a constructor.
\<close>

section \<open>Roles and options\<close>

definition EnvRole :: string where "EnvRole = ''BOTMUX_ROLE''"
definition EnvSessionID :: string where "EnvSessionID = ''BOTMUX_SESSION_ID''"
definition EnvWorkerInstanceID :: string where "EnvWorkerInstanceID = ''BOTMUX_WORKER_INSTANCE_ID''"
definition EnvDaemonAddr :: string where "EnvDaemonAddr = ''BOTMUX_DAEMON_ADDR''"
definition EnvCliType :: string where "EnvCliType = ''BOTMUX_CLI_TYPE''"
definition EnvCliPath :: string where "EnvCliPath = ''BOTMUX_CLI_PATH''"
definition EnvModel :: string where "EnvModel = ''BOTMUX_MODEL''"
definition EnvCodexProfile :: string where "EnvCodexProfile = ''BOTMUX_CODEX_PROFILE''"
definition EnvResumeSessionID :: string where "EnvResumeSessionID = ''BOTMUX_RESUME_SESSION_ID''"
definition EnvWorkingDir :: string where "EnvWorkingDir = ''BOTMUX_WORKING_DIR''"
definition EnvStoreDir :: string where "EnvStoreDir = ''BOTMUX_STORE_DIR''"

lemmas env_names = EnvRole_def EnvSessionID_def EnvWorkerInstanceID_def EnvDaemonAddr_def EnvCliType_def
  EnvCliPath_def EnvModel_def EnvCodexProfile_def EnvResumeSessionID_def EnvWorkingDir_def EnvStoreDir_def

definition is_worker :: "os_env \<Rightarrow> bool" where
  "is_worker os = (Getenv os EnvRole = ''worker'')"

definition workerOptionsFromEnv :: "os_env \<Rightarrow> string + Options" where
  "workerOptionsFromEnv os =
     (let sessionID = Getenv os EnvSessionID in
      if sessionID = [] then Inl (EnvSessionID @ '' required'')
      else
        let workingDir = Getenv os EnvWorkingDir
        in Inr \<lparr>op_SessionID = sessionID, op_WorkerInstanceID = Getenv os EnvWorkerInstanceID,
                op_DaemonAddr = or_default (Getenv os EnvDaemonAddr) ''127.0.0.1:17890'',
                op_CliType = or_default (Getenv os EnvCliType) ''mock'', op_CliPath = Getenv os EnvCliPath,
                op_Model = Getenv os EnvModel, op_CodexProfile = Getenv os EnvCodexProfile,
                op_ResumeSessionID = Getenv os EnvResumeSessionID,
                op_WorkingDir = (if workingDir = [] then home_or_empty os else workingDir),
                op_StoreDir = Getenv os EnvStoreDir\<rparr>)"

text \<open>The configuration \<open>runDaemon\<close> starts the daemon with.\<close>

definition daemon_config :: "config_world \<Rightarrow> string \<Rightarrow> string \<Rightarrow> string \<Rightarrow> DaemonConfig option" where
  "daemon_config w cfgPath listen dashboard =
     (case Load w cfgPath of
        None \<Rightarrow> None
      | Some r \<Rightarrow>
          let c = (case r of Inl _ \<Rightarrow> DefaultConfig (cf_os w) | Inr c \<Rightarrow> c);
              c = (if listen \<noteq> [] then c\<lparr>ListenAddr := listen\<rparr> else c);
              c = (if dashboard \<noteq> [] then c\<lparr>DashboardAddr := dashboard\<rparr> else c)
          in Some c)"

definition daemonAddrOr :: "os_env \<Rightarrow> string \<Rightarrow> string" where
  "daemonAddrOr os override =
     (if override \<noteq> [] then override
      else if Getenv os EnvDaemonAddr \<noteq> [] then Getenv os EnvDaemonAddr
      else ''127.0.0.1:17890'')"

definition short :: "string \<Rightarrow> string" where
  "short s = (if length s \<le> 8 then s else take 8 s)"

section \<open>Reading answers\<close>

datatype read_event = RTimeout | RFailed string | RMsg Message

text \<open>
  One read under a deadline: \<open>buf\<close> is what the reader holds, \<open>arrived\<close> what arrives until the
  deadline. \<open>ReadBytes\<close> hands out what it has read when it fails, and \<open>MessageReader.Read\<close>
  drops it.
\<close>

definition read_round :: "(string \<Rightarrow> string) \<Rightarrow> string \<Rightarrow> string \<Rightarrow> read_event \<times> string" where
  "read_round jerr buf arrived =
     (case Read (buf @ arrived) of
        None \<Rightarrow> (RTimeout, [])
      | Some (None, rest) \<Rightarrow> (RFailed (jerr (buf @ arrived)), rest)
      | Some (Some m, rest) \<Rightarrow> (RMsg m, rest))"

text \<open>
  The loop every command waits in: until the deadline, a read that times out is repeated, another
  error ends the loop, a message either is passed over or ends it. No more rounds means that the
  deadline has passed.
\<close>

fun wait_loop ::
  "time \<Rightarrow> (string \<Rightarrow> 's \<Rightarrow> 'r) \<Rightarrow> ('s \<Rightarrow> 'r) \<Rightarrow> (Message \<Rightarrow> 's \<Rightarrow> 's + 'r)
     \<Rightarrow> (time \<times> read_event) list \<Rightarrow> 's \<Rightarrow> 'r" where
  "wait_loop deadline bad late step [] s = late s"
| "wait_loop deadline bad late step ((t, ev) # evs) s =
     (if deadline \<le> t then late s
      else case ev of
        RTimeout \<Rightarrow> wait_loop deadline bad late step evs s
      | RFailed e \<Rightarrow> bad e s
      | RMsg m \<Rightarrow>
          (case step m s of
             Inl s' \<Rightarrow> wait_loop deadline bad late step evs s'
           | Inr r \<Rightarrow> r))"

datatype line = Say string | SayQuoted string string string

section \<open>Sending\<close>

text \<open>
  \<open>execSendCommand\<close>: what it has written to \<open>out\<close> and its error. \<open>ow k\<close> is the error of
  the write number \<open>k\<close> to \<open>out\<close>.
\<close>

definition put :: "(nat \<Rightarrow> string option) \<Rightarrow> line list \<Rightarrow> line \<Rightarrow> line list \<times> string option" where
  "put ow out l = (case ow (length out) of Some e \<Rightarrow> (out, Some e) | None \<Rightarrow> (out @ [l], None))"

definition send_step ::
  "(nat \<Rightarrow> string option) \<Rightarrow> (string \<Rightarrow> string) \<Rightarrow> string \<Rightarrow> Message \<Rightarrow> line list
     \<Rightarrow> line list + (line list \<times> string option)" where
  "send_step ow jerr sid msg out =
     (if msg_SessionID msg \<noteq> sid \<and> msg_SessionID msg \<noteq> [] then Inl out
      else if msg_Type msg = MsgError then Inr (out, Some (Payload msg))
      else if msg_Type msg = MsgOutput then
        (case put ow out (Say (''  << '' @ Payload msg)) of
           (out, Some e) \<Rightarrow> Inr (out, Some e)
         | (out, None) \<Rightarrow> Inl out)
      else if msg_Type msg = MsgTurnCompleted then
        (case decode_terminal (Payload msg) of
           None \<Rightarrow> Inr (out, Some (''decode turn terminal: '' @ jerr (Payload msg)))
         | Some t \<Rightarrow>
             if tt_Status t \<noteq> TurnCompleted then Inr (out, Some (ErrorCode t @ '': '' @ ErrorDetail t))
             else Inr (put ow out (Say ''[cli] done'')))
      else Inl out)"

record cli_world =
  ci_os :: os_env
  ci_arg0 :: string
  ci_now :: time
  ci_reach :: "string option"          \<comment> \<open>the error of the first connection\<close>
  ci_dial :: "string option"           \<comment> \<open>the error of the second\<close>
  ci_write :: "string option"          \<comment> \<open>the error of the request's write\<close>
  ci_events :: "(time \<times> read_event) list"
  ci_jerr :: "string \<Rightarrow> string"       \<comment> \<open>the text of a decoding error\<close>

definition send_deadline :: "cli_world \<Rightarrow> time" where
  "send_deadline w = ci_now w + 120 * Second"

definition execSendCommand ::
  "(nat \<Rightarrow> string option) \<Rightarrow> cli_world \<Rightarrow> string \<Rightarrow> string \<Rightarrow> string \<Rightarrow> line list \<times> Message list \<times> string option" where
  "execSendCommand ow w addr sid message =
     (case ci_dial w of
        Some e \<Rightarrow> ([], [], Some (''connect daemon '' @ addr @ '': '' @ e))
      | None \<Rightarrow>
          (case put ow [] (SayQuoted (''[cli] -> session '' @ short sid @ '' type=user_input payload='') message []) of
             (out, Some e) \<Rightarrow> (out, [], Some e)
           | (out, None) \<Rightarrow>
               (case ci_write w of
                  Some e \<Rightarrow> (out, [], Some (''write: '' @ e))
                | None \<Rightarrow>
                    let sent = [NewMessage (ci_now w) MsgUserInput sid message] in
                    (case put ow out (Say ''[output] waiting...'') of
                       (out, Some e) \<Rightarrow> (out, sent, Some e)
                     | (out, None) \<Rightarrow>
                         let (out, err) = wait_loop (send_deadline w) (\<lambda>e out. (out, Some (''read: '' @ e)))
                               (\<lambda>out. (out, Some ''timeout waiting for turn completion''))
                               (send_step ow (ci_jerr w) sid) (ci_events w) out
                         in (out, sent, err)))))"

section \<open>The other commands\<close>

type_synonym cli_result = "line list \<times> Message list \<times> nat"

text \<open>\<open>-cmd new\<close>.\<close>

definition new_payload :: "string \<Rightarrow> string \<Rightarrow> string" where
  "new_payload botID codexProfile =
     json_encode (JObj (omit_empty ''bot_id'' botID @ omit_empty ''codex_profile'' codexProfile))"

definition new_step :: "string \<Rightarrow> string \<Rightarrow> Message \<Rightarrow> bool \<times> line list \<Rightarrow> (bool \<times> line list) + (line list \<times> nat)" where
  "new_step arg0 sid msg s =
     (case s of (gotAck, out) \<Rightarrow>
        if \<not> gotAck \<and> msg_Type msg = MsgAck \<and> msg_SessionID msg = sid then
          (if HasPrefix (Payload msg) ''err:''
           then Inr (out @ [Say (''[cli] new session error: '' @ TrimPrefix (Payload msg) ''err:'')], 1)
           else Inl (True, out @ [Say (''[cli] session '' @ short sid @ '' accepted, waiting for worker...'')]))
        else if msg_Type msg = MsgReady \<and> msg_SessionID msg = sid
        then Inr (out @ [Say (''[cli] session '' @ short sid @ '' READY. Next step:'' @ [CHR 0x0A] @ ''  '' @ arg0
                    @ '' -cmd send '' @ sid @ '' '' @ [CHR 0x22] @ ''hello botmux'' @ [CHR 0x22])], 0)
        else Inl s)"

definition rest_arg :: "nat \<Rightarrow> string list \<Rightarrow> string" where
  "rest_arg i rest = (if i < length rest then rest ! i else [])"

definition cmd_new :: "cli_world \<Rightarrow> string \<Rightarrow> string list \<Rightarrow> cli_result" where
  "cmd_new w addr rest =
     (let sid = or_default (rest_arg 0 rest) (''s-'' @ itoa (ci_now w div Second));
          botID = rest_arg 1 rest;
          codexProfile = rest_arg 2 rest
      in case ci_dial w of
           Some e \<Rightarrow> ([Say (''[cli] connect: '' @ e)], [], 1)
         | None \<Rightarrow>
             let m = NewMessage (ci_now w) MsgNewSession sid (new_payload botID codexProfile);
                 out = [Say (''[cli] -> '' @ addr @ '' new session '' @ short sid @ '' (bot='' @ botID @ '')'')]
             in (case ci_write w of
                   Some e \<Rightarrow> (out @ [Say (''[cli] write: '' @ e)], [], 1)
                 | None \<Rightarrow>
                     let (out, code) = wait_loop (ci_now w + 18 * Second)
                           (\<lambda>e s. (snd s @ [Say (''[cli] read: '' @ e)], 0))
                           (\<lambda>s. (snd s @ [Say ''[cli] timeout waiting for READY. Check daemon logs.''], 0))
                           (new_step (ci_arg0 w) sid) (ci_events w) (False, out)
                     in (out, [m], code)))"

definition cmd_send :: "cli_world \<Rightarrow> string \<Rightarrow> string list \<Rightarrow> cli_result" where
  "cmd_send w addr rest =
     (case rest of
        [] \<Rightarrow> ([Say (''usage: '' @ ci_arg0 w @ '' -cmd send <session_id> <message>'')], [], 1)
      | sid # ws \<Rightarrow>
          let message = join_with '' '' ws in
          if message = [] then ([Say ''message is empty''], [], 1)
          else (case execSendCommand (\<lambda>_. None) w addr sid message of
                  (out, sent, Some e) \<Rightarrow> (out @ [Say (''[cli] send: '' @ e)], sent, 1)
                | (out, sent, None) \<Rightarrow> (out, sent, 0)))"

text \<open>\<open>-cmd list\<close>: the entries of the answer and the table of them.\<close>

record list_entry =
  le_SessionID :: string
  le_BotID :: string
  le_CliType :: string
  le_Status :: string
  le_Pid :: int
  le_LastActive :: string
  le_Outputs :: "string list"

definition zero_entry :: list_entry where
  "zero_entry = \<lparr>le_SessionID = [], le_BotID = [], le_CliType = [], le_Status = [], le_Pid = 0,
     le_LastActive = [], le_Outputs = []\<rparr>"

definition entry_fields :: "list_entry field list" where
  "entry_fields =
     [(''session_id'', string_field (\<lambda>s e. e\<lparr>le_SessionID := s\<rparr>)),
      (''bot_id'', string_field (\<lambda>s e. e\<lparr>le_BotID := s\<rparr>)),
      (''cli_type'', string_field (\<lambda>s e. e\<lparr>le_CliType := s\<rparr>)),
      (''status'', string_field (\<lambda>s e. e\<lparr>le_Status := s\<rparr>)),
      (''pid'', int64_field (\<lambda>i e. e\<lparr>le_Pid := i\<rparr>)),
      (''last_active'', string_field (\<lambda>s e. e\<lparr>le_LastActive := s\<rparr>)),
      (''outputs'', slice_field (string_field (\<lambda>s _. s)) [] le_Outputs (\<lambda>os e. e\<lparr>le_Outputs := os\<rparr>))]"

text \<open>\<open>json.Unmarshal\<close> of a text into a nil slice.\<close>

definition unmarshal_slice :: "(json \<Rightarrow> 'a \<Rightarrow> 'a option) \<Rightarrow> 'a \<Rightarrow> string \<Rightarrow> 'a list option" where
  "unmarshal_slice f zero s =
     (case json_parse s of
        None \<Rightarrow> None
      | Some v \<Rightarrow> slice_field f zero (\<lambda>xs. xs) (\<lambda>xs _. xs) v [])"

definition decode_entries :: "string \<Rightarrow> list_entry list option" where
  "decode_entries = unmarshal_slice (\<lambda>v e. unmarshal_value entry_fields e v) zero_entry"

definition decode_outputs :: "string \<Rightarrow> string list option" where
  "decode_outputs = unmarshal_slice (string_field (\<lambda>s _. s)) []"

text \<open>\<open>%-ws\<close> and \<open>%*d\<close>: padded to a number of runes.\<close>

definition pad_right :: "nat \<Rightarrow> string \<Rightarrow> string" where
  "pad_right n s = s @ replicate (n - length (rune_segs s)) (CHR '' '')"

definition pad_left :: "nat \<Rightarrow> string \<Rightarrow> string" where
  "pad_left n s = replicate (n - length s) (CHR '' '') @ s"

definition table_row :: "string list \<Rightarrow> string \<Rightarrow> line" where
  "table_row cols lastcol = Say (concat (map2 (\<lambda>n s. pad_right n s @ '' '') [24, 18, 10, 12, 8, 22] cols) @ lastcol)"

definition entry_row :: "list_entry \<Rightarrow> line" where
  "entry_row e =
     (let pidStr = (if 0 < le_Pid e then itoa (le_Pid e) else ''-'');
          lastOut = (if le_Outputs e \<noteq> [] then last (le_Outputs e) else []);
          lastOut = (if 50 < length lastOut then take 50 lastOut @ ''...'' else lastOut);
          sid = le_SessionID e;
          sid = (if 22 < length sid then take 22 sid @ ''..'' else sid)
      in table_row [sid, le_BotID e, le_CliType e, le_Status e, pidStr, le_LastActive e] lastOut)"

definition table_head :: line where
  "table_head = table_row [''SESSION_ID'', ''BOT'', ''CLI'', ''STATUS'', ''PID'', ''LAST_ACTIVE''] ''LAST_OUTPUT''"

definition list_step :: "(string \<Rightarrow> string) \<Rightarrow> Message \<Rightarrow> line list \<Rightarrow> line list + (line list \<times> nat)" where
  "list_step jerr msg out =
     (if msg_Type msg = MsgError then Inr (out @ [Say (''  !! error: '' @ Payload msg)], 1)
      else if msg_Type msg = MsgListSessionsRsp then
        (case decode_entries (Payload msg) of
           None \<Rightarrow> Inr (out @ [Say (''[cli] parse list response failed: '' @ jerr (Payload msg))], 1)
         | Some entries \<Rightarrow>
             Inr (out @ table_head # map entry_row entries
                    @ [Say ([CHR 0x0A] @ ''[cli] '' @ itoa (int (length entries)) @ '' session(s)'')], 0))
      else Inl out)"

text \<open>
  The frame of \<open>list\<close>, \<open>history\<close> and \<open>close\<close>: connect, send the request (an error of the
  write is ignored), wait.
\<close>

definition ask ::
  "cli_world \<Rightarrow> string \<Rightarrow> Message \<Rightarrow> duration \<Rightarrow> (Message \<Rightarrow> line list \<Rightarrow> line list + (line list \<times> nat)) \<Rightarrow> string \<Rightarrow> cli_result" where
  "ask w addr m limit step late =
     (case ci_dial w of
        Some e \<Rightarrow> ([Say (''[cli] connect daemon '' @ addr @ '': '' @ e)], [], 1)
      | None \<Rightarrow>
          let stop = (\<lambda>out. (out @ [Say late], 1));
              (out, code) = wait_loop (ci_now w + limit) (\<lambda>_. stop) stop step (ci_events w) []
          in (out, if ci_write w = None then [m] else [], code))"

definition cmd_list :: "cli_world \<Rightarrow> string \<Rightarrow> cli_result" where
  "cmd_list w addr =
     ask w addr (NewMessage (ci_now w) MsgListSessions [] []) (8 * Second) (list_step (ci_jerr w))
       ''[cli] timeout waiting for list response''"

fun history_rows :: "nat \<Rightarrow> nat \<Rightarrow> string list \<Rightarrow> line list" where
  "history_rows width i [] = []"
| "history_rows width i (l # ls) =
     Say (''  ['' @ pad_left width (itoa (int i)) @ ''] '' @ l) # history_rows width (Suc i) ls"

definition history_step :: "(string \<Rightarrow> string) \<Rightarrow> string \<Rightarrow> Message \<Rightarrow> line list \<Rightarrow> line list + (line list \<times> nat)" where
  "history_step jerr sid msg out =
     (if msg_Type msg = MsgError \<and> (msg_SessionID msg = sid \<or> msg_SessionID msg = [])
      then Inr (out @ [Say (''  !! error: '' @ Payload msg)], 1)
      else if msg_Type msg = MsgHistoryRsp \<and> msg_SessionID msg = sid then
        (case decode_outputs (Payload msg) of
           None \<Rightarrow> Inr (out @ [Say (''[cli] parse history response failed: '' @ jerr (Payload msg))], 1)
         | Some outs \<Rightarrow>
             if outs = [] then Inr (out @ [Say (''[cli] session '' @ short sid @ '' has no output history'')], 0)
             else
               let width = length (itoa (int (length outs)))
               in Inr (out @ history_rows width 1 outs @ [Say (''[cli] '' @ itoa (int (length outs)) @ '' line(s)'')], 0))
      else Inl out)"

definition cmd_history :: "cli_world \<Rightarrow> string \<Rightarrow> string list \<Rightarrow> cli_result" where
  "cmd_history w addr rest =
     (case rest of
        [] \<Rightarrow> ([Say (''usage: '' @ ci_arg0 w @ '' -cmd history <session_id>'')], [], 1)
      | sid # _ \<Rightarrow>
          ask w addr (NewMessage (ci_now w) MsgHistory sid []) (8 * Second) (history_step (ci_jerr w) sid)
            ''[cli] timeout waiting for history response'')"

definition close_step :: "string \<Rightarrow> string \<Rightarrow> Message \<Rightarrow> line list \<Rightarrow> line list + (line list \<times> nat)" where
  "close_step sid reason msg out =
     (if msg_Type msg = MsgError \<and> (msg_SessionID msg = sid \<or> msg_SessionID msg = [])
      then Inr (out @ [Say (''  !! error: '' @ Payload msg)], 1)
      else if msg_Type msg = MsgCloseSessionAck \<and> msg_SessionID msg = sid
      then Inr (out @ [SayQuoted (''[cli] session '' @ short sid @ '' closed (reason='') reason '')''], 0)
      else Inl out)"

definition cmd_close :: "cli_world \<Rightarrow> string \<Rightarrow> string list \<Rightarrow> cli_result" where
  "cmd_close w addr rest =
     (case rest of
        [] \<Rightarrow> ([Say (''usage: '' @ ci_arg0 w @ '' -cmd close <session_id> [<reason>]'')], [], 1)
      | sid # ws \<Rightarrow>
          let reason = join_with '' '' ws
          in ask w addr (NewMessage (ci_now w) MsgCloseSession sid reason) (10 * Second) (close_step sid reason)
               ''[cli] timeout waiting for close ack'')"

definition unknown_command :: "string \<Rightarrow> line list" where
  "unknown_command sub =
     [SayQuoted ''unknown -cmd '' sub ''. Supported: new, send, list, history, close'',
      Say ([CHR 0x0A] @ ''Usage:''),
      Say ''  new <session_id> [<bot_id>]     Create a new session'',
      Say ''  send <session_id> <msg>         Send message to session'',
      Say ''  list                            List all sessions with status'',
      Say ''  history <session_id>            Show session output history'',
      Say ''  close <session_id> [<reason>]   Close a session (stop auto-recover)'']"

text \<open>\<open>ensureDaemonReachable\<close>: how the program ends when the daemon cannot be reached.\<close>

definition ensureDaemonReachable :: "cli_world \<Rightarrow> string \<Rightarrow> cli_result option" where
  "ensureDaemonReachable w addr =
     (case ci_reach w of
        None \<Rightarrow> None
      | Some e \<Rightarrow> Some ([Say (''[cli] cannot reach daemon at '' @ addr @ '': '' @ e),
                         Say (''[cli] please start daemon first: '' @ ci_arg0 w)], [], 1))"

definition execCommand :: "cli_world \<Rightarrow> string \<Rightarrow> string \<Rightarrow> string list \<Rightarrow> cli_result" where
  "execCommand w daemonOverride sub rest =
     (let addr = daemonAddrOr (ci_os w) daemonOverride in
      case ensureDaemonReachable w addr of
        Some r \<Rightarrow> r
      | None \<Rightarrow>
          if sub \<in> {''new'', ''ns'', ''newsession''} then cmd_new w addr rest
          else if sub \<in> {''send'', ''s''} then cmd_send w addr rest
          else if sub \<in> {''list'', ''ls'', ''sessions''} then cmd_list w addr
          else if sub \<in> {''history'', ''hs''} then cmd_history w addr rest
          else if sub \<in> {''close'', ''rm'', ''delete''} then cmd_close w addr rest
          else (unknown_command sub, [], 2))"

end
