(* ===== verification/Forwarding.thy ===== *)
theory Forwarding
  imports Daemon_Service
begin

text \<open>
  The goroutine of \<open>forwardClientMessage\<close> (\<open>internal/daemon/daemon.go\<close>) as a loop, and what it
  delivers: a client that has been subscribed gets every line of the session's output while the rest
  of the daemon runs, and then the end of the turn.
\<close>

section \<open>Only output changes the output log\<close>

definition log_view :: "SessionMeta \<Rightarrow> string list \<times> u64 \<times> chan option" where
  "log_view x = (LastOutput x, outputSeq x, outputNotifyCh x)"

definition log_ok :: "SessionMeta \<Rightarrow> bool" where
  "log_ok x \<longleftrightarrow> wf_output x \<and> outputNotifyCh x \<noteq> None"

definition keeps_log :: "Daemon \<Rightarrow> Daemon \<Rightarrow> bool" where
  "keeps_log d d' \<longleftrightarrow> (\<forall>m < nextMeta d. log_ok (metas d m) \<longrightarrow> log_view (metas d' m) = log_view (metas d m))"

lemma log_ok_view: "log_view x = log_view y \<Longrightarrow> log_ok x = log_ok y"
  by (simp add: log_view_def log_ok_def wf_output_def)

lemma ensure_output_ok: "log_ok x \<Longrightarrow> ensureOutputStateLocked x = x"
  by (simp add: log_ok_def ensure_output_wf)

lemma log_frames [simp]:
  "log_view (touchActive x t) = log_view x" "log_view (SetCliSessionID x c) = log_view x"
  "log_view (AddOnClose x fn) = log_view x" "log_view (fst (SnapshotTerminalsSince x cur)) = log_view x"
  "log_view (fst (BeginTurn x)) = log_view x" "log_view (fst (BeginTurnCancel x)) = log_view x"
  "log_view (FinishTurn x) = log_view x" "log_view (fst (CompleteTurn x tm)) = log_view x"
  "log_view (fst (FailCancellingTurn x tok tm)) = log_view x" "log_view (fst (DrainOnClose x)) = log_view x"
  "log_view (x\<lparr>Status := st\<rparr>) = log_view x" "log_view (x\<lparr>Closed := b\<rparr>) = log_view x"
  by (simp_all add: log_view_def touchActive_def SetCliSessionID_def AddOnClose_def SnapshotTerminalsSince_def
      ensureTerminalStateLocked_def publishTerminalLocked_def turn_op_defs DrainOnClose_def Let_def)

lemma log_read [simp]: "log_ok x \<Longrightarrow> fst (SnapshotOutputSince x c) = x"
  by (simp add: SnapshotOutputSince_def ensure_output_ok Let_def)

lemma keeps_log_metas: "metas d' = metas d \<Longrightarrow> keeps_log d d'"
  by (simp add: keeps_log_def)

lemma keeps_log_status: "keeps_log d d' \<Longrightarrow> keeps_log d (set_status m st d')"
  by (auto simp: keeps_log_def)

lemma keeps_spawn_section: "keeps_log d (fst (spawn_section m h start d))"
  by (simp add: keeps_log_def spawn_section_def installWorkerLocked_def deleteWorkerIfCurrentLocked_def Let_def
      split: sum.splits)

lemma keeps_spawn: "keeps_log d (fst (spawn_core w m d))"
proof -
  have "keeps_log d (fst (spawn_section m h start (d\<lparr>handles := x, nextHandle := n\<rparr>)))" for h start x n
    using keeps_spawn_section [of "d\<lparr>handles := x, nextHandle := n\<rparr>" m h start] by (simp add: keeps_log_def)
  then show ?thesis
    by (simp add: spawn_core_def alloc_handle_def case_prod_unfold Let_def keeps_log_metas split: sum.split)
qed

lemma keeps_exit: "keeps_log d (fst (exit_section h d))"
  unfolding exit_section_def Let_def by (simp add: keeps_log_status keeps_log_metas)

lemma keeps_mark: "keeps_log d (fst (markSessionMetaClosed io now m b d))"
  unfolding markSessionMetaClosed_def Let_def by (simp add: keeps_log_def split: option.splits)

lemma keeps_watch: "keeps_log d (fst (watch_section m tok d))"
  unfolding watch_section_def Let_def by (simp add: keeps_log_def case_prod_unfold split: option.splits)

lemma keeps_mark_restart: "keeps_log d (fst (markCurrentWorkerRestartPending m d))"
  unfolding markCurrentWorkerRestartPending_def Let_def by (simp add: keeps_log_def split: option.splits)

lemma keeps_fresh_meta:
  "keeps_log d (fst (register_new io x d))" "keeps_log d (restore_one now d ps)"
  "keeps_log d (rollbackNewSession rm m d)" "keeps_log d (purge_maps i d)"
  by (simp_all add: keeps_log_def register_new_def restore_one_def alloc_meta_def register_session_def
      rollbackNewSession_def purge_maps_def Let_def split: option.splits)

lemma keeps_core: "touches_core act \<Longrightarrow> keeps_log d (exec d act)"
  by (cases act) (simp_all add: keeps_fresh_meta keeps_spawn keeps_exit keeps_mark keeps_watch keeps_mark_restart)

text \<open>The lines an action adds to the log of a session.\<close>

fun act_lines :: "mref \<Rightarrow> daemon_act \<Rightarrow> string list" where
  "act_lines m (AOutput m' line) = (if m' = m then [line] else [])"
| "act_lines m _ = []"

lemma keeps_quiet: "\<not> touches_core act \<Longrightarrow> (\<And>m line. act \<noteq> AOutput m line) \<Longrightarrow> keeps_log d (exec d act)"
proof (cases act)
  case (ABeginTurn m)
  then show ?thesis using begin_turn_cases [of m d] by (auto simp: keeps_log_def)
next
  case (ABeginCancel m)
  then show ?thesis using begin_cancel_cases [of m d] by (auto simp: keeps_log_def)
next
  case (AFailCancel m tok c t)
  then show ?thesis using fail_cancel_cases [of m tok c t d] by (auto simp: keeps_log_def)
next
  case (ACommitCancel m tok ho e)
  then show ?thesis using commit_cases [of m tok ho e d] by (auto simp: keeps_log_def)
next
  case (AReady m h)
  then show ?thesis by (simp add: ready_section_def keeps_log_def)
next
  case (AReadyTimeout m)
  then show ?thesis by (simp add: ready_timeout_section_def keeps_log_def)
next
  case (ARunOnClose m)
  then show ?thesis by (simp add: keeps_log_def run_on_close_def case_prod_unfold Let_def)
next
  case (AOutput m line)
  then show "(\<And>m line. act \<noteq> AOutput m line) \<Longrightarrow> ?thesis" by blast
qed (simp_all add: keeps_log_def clearSpawnFailure_def recordSpawnFailure_def leave_conn_def spawn_gate_def
    startSessionMonitor_def stopSessionMonitor_def Let_def)

lemma AddOutput_view: "log_view x = log_view y \<Longrightarrow> log_view (AddOutput x l) = log_view (AddOutput y l)"
  by (simp add: log_view_def AddOutput_def ensureOutputStateLocked_def Let_def)

lemma log_exec:
  assumes "m < nextMeta d" and "log_ok (metas d m)"
  shows "log_view (metas (exec d act) m) = log_view (foldl AddOutput (metas d m) (act_lines m act))"
proof (cases "\<exists>m' line. act = AOutput m' line")
  case True
  then show ?thesis by auto
next
  case False
  then have "act_lines m act = []" by (cases act) auto
  moreover have "keeps_log d (exec d act)" using False keeps_core keeps_quiet by blast
  ultimately show ?thesis using assms by (simp add: keeps_log_def)
qed

text \<open>So a run adds to the log what its output actions say.\<close>

definition lines_of :: "mref \<Rightarrow> daemon_act list \<Rightarrow> string list" where
  "lines_of m acts = concat (map (act_lines m) acts)"

lemma lines_of_simps [simp]: "lines_of m [] = []" "lines_of m (act # acts) = act_lines m act @ lines_of m acts"
  by (simp_all add: lines_of_def)

lemma add_many_view: "log_view x = log_view y \<Longrightarrow> log_view (foldl AddOutput x ls) = log_view (foldl AddOutput y ls)"
proof (induction ls arbitrary: x y)
  case (Cons l ls)
  from Cons.IH [OF AddOutput_view [OF Cons.prems]] show ?case by simp
qed simp

lemma act_lines_cases: "act_lines m act = [] \<or> (\<exists>l. act_lines m act = [l])"
  by (cases act) auto

lemma add_ok: "log_ok x \<Longrightarrow> unat (outputSeq x) + length ls < 2 ^ 64 \<Longrightarrow> log_ok (foldl AddOutput x ls)"
  using out_log.add_many [of x ls]
proof -
  have "outputNotifyCh x \<noteq> None \<Longrightarrow> outputNotifyCh (foldl AddOutput x ls) \<noteq> None"
  proof (induction ls arbitrary: x)
    case (Cons l ls)
    then show ?case
      using Cons.IH [of "AddOutput x l"] by (auto simp: AddOutput_def ensureOutputStateLocked_def Let_def)
  qed simp
  then show "log_ok x \<Longrightarrow> unat (outputSeq x) + length ls < 2 ^ 64 \<Longrightarrow> ?thesis"
    using out_log.add_many [of x ls] by (simp add: log_ok_def)
qed

lemma log_run:
  "m < nextMeta d \<Longrightarrow> log_ok (metas d m) \<Longrightarrow> unat (outputSeq (metas d m)) + length (lines_of m acts) < 2 ^ 64
     \<Longrightarrow> log_view (metas (foldl exec d acts) m) = log_view (foldl AddOutput (metas d m) (lines_of m acts))"
proof (induction acts arbitrary: d)
  case (Cons act acts)
  let ?x = "foldl AddOutput (metas d m) (act_lines m act)"
  have e: "log_view (metas (exec d act) m) = log_view ?x" by (rule log_exec) (use Cons.prems in auto)
  have x: "log_ok ?x" "unat (outputSeq ?x) = unat (outputSeq (metas d m)) + length (act_lines m act)"
    using add_ok [of "metas d m" "act_lines m act"] out_log.add_many [of "metas d m" "act_lines m act"] Cons.prems
    by (simp_all add: log_ok_def)
  have "outputSeq (metas (exec d act) m) = outputSeq ?x" using e by (simp add: log_view_def)
  with x Cons.prems have n: "unat (outputSeq (metas (exec d act) m)) + length (lines_of m acts) < 2 ^ 64" by simp
  have m: "m < nextMeta (exec d act)" using only_freshD(1) [OF only_fresh_exec [of d act]] Cons.prems(1) by simp
  have "log_ok (metas (exec d act) m)" using log_ok_view [OF e] x(1) by simp
  from Cons.IH [OF m this n] show ?case
    using add_many_view [OF e, of "lines_of m acts"] by simp
qed simp

section \<open>The forwarding goroutine\<close>

text \<open>
  A round is what the \<open>select\<close> takes, after the rest of the daemon has run: the end of the context
  (130 seconds, or the client's reader), the stop channel, or one of the two logs. A case that is
  not ready is not taken. \<open>fs_done\<close> says that the goroutine has returned.
\<close>

datatype forward_event = ForwardTimeout | ForwardStop | ForwardOutput time "nat option" | ForwardTerminal time "string option"

definition forward_round :: "forward_event \<Rightarrow> forwarder \<Rightarrow> Daemon \<Rightarrow> forwarder \<times> Daemon" where
  "forward_round ev fs d =
     (case ev of
        ForwardTimeout \<Rightarrow> (fs\<lparr>fs_done := True\<rparr>, d)
      | ForwardStop \<Rightarrow> if fs_stop fs \<in> set (closedChans d) then (fs\<lparr>fs_done := True\<rparr>, d) else (fs, d)
      | ForwardOutput now fail_at \<Rightarrow> if output_ready fs d then forward_output now fail_at fs d else (fs, d)
      | ForwardTerminal now wr \<Rightarrow> if terminal_ready fs d then forward_terminal now wr fs d else (fs, d))"

fun forward_loop :: "((Daemon \<Rightarrow> Daemon) \<times> forward_event) list \<Rightarrow> forwarder \<Rightarrow> Daemon \<Rightarrow> forwarder \<times> Daemon" where
  "forward_loop [] fs d = (fs, d)"
| "forward_loop ((env, ev) # rs) fs d =
     (if fs_done fs then (fs, d)
      else case forward_round ev fs (env d) of (fs, d) \<Rightarrow> forward_loop rs fs d)"

text \<open>The messages written to a connection.\<close>

definition written_to :: "conn \<Rightarrow> Daemon \<Rightarrow> Message list" where
  "written_to c d = map snd (filter (\<lambda>(c', m). c' = c) (outbox d))"

lemma written_simps [simp]:
  "written_to c (upd_meta m f d) = written_to c d"
  "written_to c (d\<lparr>outbox := outbox d @ map (Pair c) ms\<rparr>) = written_to c d @ ms"
  "written_to c (write_conn c msg d) = written_to c d @ [msg]"
  by (simp_all add: written_to_def write_conn_def upd_meta_def comp_def)

text \<open>Actions that write nothing to a connection.\<close>

definition silent_on :: "conn \<Rightarrow> daemon_act list \<Rightarrow> bool" where
  "silent_on c acts \<longleftrightarrow> (\<forall>d. written_to c (foldl exec d acts) = written_to c d)"

definition synced :: "mref \<Rightarrow> forwarder \<Rightarrow> Daemon \<Rightarrow> bool" where
  "synced m fs d \<longleftrightarrow> fs_meta fs = m \<and> m < nextMeta d \<and> log_ok (metas d m) \<and> fs_cursor fs = outputSeq (metas d m)
     \<and> fs_outputCh fs = outputNotifyCh (metas d m) \<and> \<not> fs_done fs"

lemma notify_count:
  "outputNotifyCh x = Some k \<Longrightarrow> outputNotifyCh (foldl AddOutput x ls) = Some (k + length ls)"
proof (induction ls arbitrary: x k)
  case (Cons l ls)
  have "outputNotifyCh (AddOutput x l) = Some (Suc k)"
    using Cons.prems by (simp add: AddOutput_def ensureOutputStateLocked_def Let_def)
  from Cons.IH [OF this] show ?case by simp
qed simp

lemma since_view:
  "log_ok x \<Longrightarrow> log_ok y \<Longrightarrow> log_view x = log_view y \<Longrightarrow> fst (output_since x c) = fst (output_since y c)"
  by (simp add: output_since_def SnapshotOutputSince_def ensure_output_ok log_view_def Let_def)

text \<open>One round on the output log: the lines of the run so far are written, and the loop is in step again.\<close>

lemma output_round:
  assumes s: "synced m fs d" and n: "unat (outputSeq (metas d m)) + length (lines_of m acts) < 2 ^ 64"
    and cap: "length (lines_of m acts) \<le> maxMemoryOutputLines" and q: "silent_on (fs_conn fs) acts"
    and r: "forward_round (ForwardOutput now None) fs (foldl exec d acts) = (fs', d')"
  shows "synced m fs' d' \<and> fs_conn fs' = fs_conn fs \<and> fs_stop fs' = fs_stop fs
    \<and> fs_terminalCursor fs' = fs_terminalCursor fs \<and> fs_terminalCh fs' = fs_terminalCh fs
    \<and> sid_of d' m = sid_of d m
    \<and> unat (outputSeq (metas d' m)) = unat (outputSeq (metas d m)) + length (lines_of m acts)
    \<and> written_to (fs_conn fs) d'
        = written_to (fs_conn fs) d @ map (NewMessage now MsgOutput (sid_of d m)) (lines_of m acts)"
proof -
  let ?d = "foldl exec d acts" and ?x = "foldl AddOutput (metas d m) (lines_of m acts)"
  have fs: "fs_meta fs = m" "m < nextMeta d" "log_ok (metas d m)" "fs_cursor fs = outputSeq (metas d m)"
    "fs_outputCh fs = outputNotifyCh (metas d m)" "\<not> fs_done fs" using s by (auto simp: synced_def)
  have v: "log_view (metas ?d m) = log_view ?x" by (rule log_run [OF fs(2,3) n])
  have okx: "log_ok ?x" by (rule add_ok [OF fs(3) n])
  have ok: "log_ok (metas ?d m)" using log_ok_view [OF v] okx by simp
  have m': "m < nextMeta ?d" using only_freshD(1) [OF only_fresh_run [of d acts]] fs(2) by simp
  have sid: "sid_of ?d m = sid_of d m" by (rule only_freshD(3) [OF only_fresh_run fs(2)])
  have sq: "unat (outputSeq (metas ?d m)) = unat (outputSeq (metas d m)) + length (lines_of m acts)"
    using out_log.add_many [of "metas d m" "lines_of m acts"] fs(3) n v by (simp add: log_ok_def log_view_def)
  have w: "written_to (fs_conn fs) ?d = written_to (fs_conn fs) d" using q by (simp add: silent_on_def)
  have "fst (output_since ?x (outputSeq (metas d m))) = lines_of m acts"
    using out_log.since_cursor [of "metas d m" "lines_of m acts"] fs(3) n cap by (simp add: log_ok_def)
  then have "fst (output_since (metas ?d m) (outputSeq (metas d m))) = lines_of m acts"
    using since_view [OF ok okx v] by simp
  then have S: "SnapshotOutputSince (metas ?d m) (fs_cursor fs)
      = (metas ?d m, lines_of m acts, outputSeq (metas ?d m), outputNotifyCh (metas ?d m))"
    using ok fs(4) by (simp add: output_since_def SnapshotOutputSince_def ensure_output_ok Let_def)
  obtain k where k: "outputNotifyCh (metas d m) = Some k" using fs(3) by (auto simp: log_ok_def)
  have ch: "outputNotifyCh (metas ?d m) = Some (k + length (lines_of m acts))"
    using v notify_count [OF k, of "lines_of m acts"] by (simp add: log_view_def)
  show ?thesis
  proof (cases "lines_of m acts = []")
    case True
    then have "\<not> output_ready fs ?d" using ch k fs(1,5) by (simp add: output_ready_def)
    then have "fs' = fs" "d' = ?d" using r by (simp_all add: forward_round_def)
    moreover have "outputSeq (metas ?d m) = outputSeq (metas d m)" using v True by (simp add: log_view_def)
    ultimately show ?thesis using True fs ok m' sid w ch k by (simp add: synced_def)
  next
    case False
    then have "output_ready fs ?d" using ch k fs(1,5) by (simp add: output_ready_def)
    then have r': "forward_output now None fs ?d = (fs', d')" using r by (simp add: forward_round_def)
    then have "fs' = fs\<lparr>fs_cursor := outputSeq (metas ?d m), fs_outputCh := outputNotifyCh (metas ?d m), fs_done := False\<rparr>"
      "d' = (upd_meta m (\<lambda>_. metas ?d m) ?d)\<lparr>outbox := outbox ?d
          @ map (Pair (fs_conn fs)) (map (NewMessage now MsgOutput (sid_of ?d m)) (lines_of m acts))\<rparr>"
      by (simp_all add: forward_output_def fs(1) S write_all_none del: map_map)
    then show ?thesis
      using fs ok m' sid w sq
      by (simp add: synced_def written_to_def upd_meta_def comp_def)
  qed
qed

text \<open>Subscribing: a forwarder starts in step with the log.\<close>

lemma begin_turn_view:
  "log_view (metas (fst (beginCodexTurnIfReady m d)) m) = log_view (metas d m)
    \<and> nextMeta (fst (beginCodexTurnIfReady m d)) = nextMeta d"
  using begin_turn_cases [of m d] by auto

lemma forward_ready_synced:
  assumes "forward_ready wr now stop c msg m h d0 = (d, Some fs)" and "wf_output (metas d0 m)" and "m < nextMeta d0"
  shows "synced m fs d \<and> fs_conn fs = c"
proof -
  let ?x = "ensureOutputStateLocked (metas d0 m)"
  let ?d1 = "upd_meta m (\<lambda>_. fst (TerminalSubscription ?x)) (upd_meta m (\<lambda>_. ?x) d0)"
  have x: "log_ok ?x" using assms(2) by (simp add: log_ok_def ensure_output_wf wf_output_def)
  have v1: "log_view (metas ?d1 m) = log_view ?x"
    by (simp add: TerminalSubscription_def ensureTerminalStateLocked_def log_view_def Let_def)
  have fs: "fs_meta fs = m \<and> fs_conn fs = c \<and> fs_cursor fs = outputSeq ?x \<and> fs_outputCh fs = outputNotifyCh ?x \<and> \<not> fs_done fs"
    and v: "log_view (metas d m) = log_view (metas ?d1 m) \<and> nextMeta d = nextMeta d0"
  proof -
    have send: "metas (fst (send_handle wr h msg d)) = metas d" "nextMeta (fst (send_handle wr h msg d)) = nextMeta d" for d
      by (simp_all add: send_handle_def split: option.split)
    show "fs_meta fs = m \<and> fs_conn fs = c \<and> fs_cursor fs = outputSeq ?x \<and> fs_outputCh fs = outputNotifyCh ?x \<and> \<not> fs_done fs"
      using assms(1) by (auto simp: forward_ready_def OutputSubscription_def Let_def case_prod_unfold split: if_splits option.splits)
    have st: "d = upd_meta m (\<lambda>x. AddOnClose x stop) ?d1
        \<or> d = upd_meta m (\<lambda>x. AddOnClose x stop) (upd_meta m (\<lambda>x. touchActive x now) (fst (send_handle wr h msg ?d1)))
        \<or> d = upd_meta m (\<lambda>x. AddOnClose x stop) (upd_meta m (\<lambda>x. touchActive x now)
                (fst (send_handle wr h msg (fst (beginCodexTurnIfReady m ?d1)))))"
      using assms(1) by (auto simp: forward_ready_def OutputSubscription_def Let_def case_prod_unfold split: if_splits option.splits)
    have "nextMeta ?d1 = nextMeta d0" by simp
    with st begin_turn_view [of m ?d1] show "log_view (metas d m) = log_view (metas ?d1 m) \<and> nextMeta d = nextMeta d0"
      by (elim disjE) (simp_all add: send)
  qed
  have "log_view (metas d m) = log_view ?x" using v v1 by simp
  moreover from this have "log_ok (metas d m)" using log_ok_view x by blast
  ultimately show ?thesis using fs v assms(3) by (simp add: synced_def log_view_def)
qed

section \<open>A whole turn\<close>

type_synonym batch = "daemon_act list \<times> time"

definition batch_rounds :: "batch list \<Rightarrow> ((Daemon \<Rightarrow> Daemon) \<times> forward_event) list" where
  "batch_rounds bs = map (\<lambda>(acts, u). (\<lambda>d. foldl exec d acts, ForwardOutput u None)) bs"

definition batch_lines :: "mref \<Rightarrow> batch list \<Rightarrow> (time \<times> string) list" where
  "batch_lines m bs = concat (map (\<lambda>(acts, u). map (Pair u) (lines_of m acts)) bs)"

lemma forward_loop_done [simp]: "fs_done fs \<Longrightarrow> forward_loop rs fs d = (fs, d)"
  by (cases rs) auto

lemma forward_loop_append:
  "forward_loop (rs @ rs') fs d = (case forward_loop rs fs d of (fs', d') \<Rightarrow> forward_loop rs' fs' d')"
proof (induction rs arbitrary: fs d)
  case (Cons r rs)
  obtain env ev where r: "r = (env, ev)" by (cases r)
  obtain fs1 d1 where "forward_round ev fs (env d) = (fs1, d1)" by fastforce
  with Cons.IH [of fs1 d1] show ?case by (simp add: r)
qed simp

lemma output_rounds:
  assumes "forward_loop (batch_rounds bs) fs d = (fs', d')"
  shows "synced m fs d \<Longrightarrow> unat (outputSeq (metas d m)) + length (batch_lines m bs) < 2 ^ 64
    \<Longrightarrow> list_all (\<lambda>(acts, u). length (lines_of m acts) \<le> maxMemoryOutputLines \<and> silent_on (fs_conn fs) acts) bs
    \<Longrightarrow> synced m fs' d' \<and> fs_conn fs' = fs_conn fs \<and> fs_terminalCursor fs' = fs_terminalCursor fs
      \<and> fs_terminalCh fs' = fs_terminalCh fs \<and> sid_of d' m = sid_of d m
      \<and> written_to (fs_conn fs) d'
          = written_to (fs_conn fs) d @ map (\<lambda>(u, l). NewMessage u MsgOutput (sid_of d m) l) (batch_lines m bs)"
  using assms
proof (induction bs arbitrary: fs d)
  case Nil
  then show ?case by (simp add: batch_rounds_def batch_lines_def)
next
  case (Cons b bs)
  obtain acts u where b: "b = (acts, u)" by (cases b)
  have lines: "batch_lines m (b # bs) = map (Pair u) (lines_of m acts) @ batch_lines m bs"
    by (simp add: batch_lines_def b)
  obtain fs1 d1 where r: "forward_round (ForwardOutput u None) fs (foldl exec d acts) = (fs1, d1)" by fastforce
  have "\<not> fs_done fs" using Cons.prems(1) by (simp add: synced_def)
  then have l: "forward_loop (batch_rounds bs) fs1 d1 = (fs', d')"
    using Cons.prems(4) r by (simp add: batch_rounds_def b)
  have n: "unat (outputSeq (metas d m)) + length (lines_of m acts) < 2 ^ 64"
    using Cons.prems(2) by (simp add: lines)
  have a: "length (lines_of m acts) \<le> maxMemoryOutputLines" "silent_on (fs_conn fs) acts"
    using Cons.prems(3) by (simp_all add: b)
  note one = output_round [OF Cons.prems(1) n a r]
  have s1: "synced m fs1 d1" and c1: "fs_conn fs1 = fs_conn fs" and i1: "sid_of d1 m = sid_of d m"
    and n1: "unat (outputSeq (metas d1 m)) = unat (outputSeq (metas d m)) + length (lines_of m acts)"
    using one by simp_all
  have "unat (outputSeq (metas d1 m)) + length (batch_lines m bs) < 2 ^ 64"
    using Cons.prems(2) n1 by (simp add: lines)
  from Cons.IH [OF s1 this _ l] Cons.prems(3) one show ?case
    by (simp add: c1 i1 lines comp_def)
qed

text \<open>What the client gets of a turn: its output lines, and its end.\<close>

definition turn_messages :: "string \<Rightarrow> (time \<times> string) list \<Rightarrow> time \<Rightarrow> TurnTerminal \<Rightarrow> Message list" where
  "turn_messages sid outs now t =
     map (\<lambda>(u, l). NewMessage u MsgOutput sid l) outs @ [NewMessage now MsgTurnCompleted sid (encode_terminal t)]"

lemma forwarded_turn:
  assumes s: "synced m fs d" and n: "unat (outputSeq (metas d m)) + length (batch_lines m bs) < 2 ^ 64"
    and b: "list_all (\<lambda>(acts, u). length (lines_of m acts) \<le> maxMemoryOutputLines \<and> silent_on (fs_conn fs) acts) bs"
    and q: "silent_on (fs_conn fs) acts" and l: "forward_loop (batch_rounds bs) fs d = (fs1, d1)"
    and r: "terminal_ready fs1 (foldl exec d1 acts)"
    and t: "fst (terminals_since (metas (foldl exec d1 acts) m) (fs_terminalCursor fs1)) = t # ts"
    and f: "forward_loop (batch_rounds bs @ [(\<lambda>d. foldl exec d acts, ForwardTerminal now None)]) fs d = (fs', d')"
  shows "fs_done fs' \<and> written_to (fs_conn fs) d'
    = written_to (fs_conn fs) d @ turn_messages (sid_of d m) (batch_lines m bs) now t"
proof -
  have o: "synced m fs1 d1" "fs_conn fs1 = fs_conn fs" "sid_of d1 m = sid_of d m"
    "written_to (fs_conn fs) d1
       = written_to (fs_conn fs) d @ map (\<lambda>(u, l). NewMessage u MsgOutput (sid_of d m) l) (batch_lines m bs)"
    using output_rounds [OF l s n b] by simp_all
  have m: "m < nextMeta d1" "fs_meta fs1 = m" "\<not> fs_done fs1" using o(1) by (simp_all add: synced_def)
  have i: "sid_of (foldl exec d1 acts) m = sid_of d m"
    using only_freshD(3) [OF only_fresh_run m(1)] o(3) by simp
  have "forward_terminal now None fs1 (foldl exec d1 acts) = (fs', d')"
    using f l r m(3) by (simp add: forward_loop_append forward_round_def case_prod_unfold)
  with t m(2) o(2) i have "fs_done fs'" "written_to (fs_conn fs) d'
      = written_to (fs_conn fs) (foldl exec d1 acts) @ [NewMessage now MsgTurnCompleted (sid_of d m) (encode_terminal t)]"
    by (auto simp: forward_terminal_def terminals_since_def case_prod_unfold Let_def)
  with q o(4) show ?thesis by (simp add: silent_on_def turn_messages_def)
qed

end
