(* ===== verification/Cli_Commands.thy ===== *)
theory Cli_Commands
  imports Cli Worker_Safety Forwarding
begin

text \<open>
  What the program's two ends make of each other: a worker reads from its environment what the
  daemon put there, and the commands print what the daemon holds and how a turn ended.
\<close>

section \<open>The environment of a worker\<close>

text \<open>
  The environment of a started process: the daemon's own, with the entries of \<open>cmd.Env\<close> that
  follow it in place of earlier ones of the same name.
\<close>

definition child_env :: "os_env \<Rightarrow> (string \<times> string) list \<Rightarrow> os_env" where
  "child_env os added = os\<lparr>Getenv := (\<lambda>k. case map_of (rev added) k of Some v \<Rightarrow> v | None \<Rightarrow> Getenv os k)\<rparr>"

lemma child_env_worker:
  "Getenv (child_env os (worker_environ c x iid)) EnvRole = ''worker''"
  "Getenv (child_env os (worker_environ c x iid)) EnvSessionID = SessionID x"
  "Getenv (child_env os (worker_environ c x iid)) EnvWorkerInstanceID = iid"
  "Getenv (child_env os (worker_environ c x iid)) EnvDaemonAddr = ListenAddr c"
  "Getenv (child_env os (worker_environ c x iid)) EnvCliType = CliType x"
  "Getenv (child_env os (worker_environ c x iid)) EnvCliPath = CliPath x"
  "Getenv (child_env os (worker_environ c x iid)) EnvModel = Model x"
  "Getenv (child_env os (worker_environ c x iid)) EnvCodexProfile = CodexProfile x"
  "Getenv (child_env os (worker_environ c x iid)) EnvResumeSessionID = CliSessionID x"
  "Getenv (child_env os (worker_environ c x iid)) EnvWorkingDir = WorkingDir x"
  "Getenv (child_env os (worker_environ c x iid)) EnvStoreDir = SessionsDir c"
  by (simp_all add: child_env_def worker_environ_def env_names)

text \<open>
  C36: what the daemon puts into the environment of a worker is what the worker runs with: the process
  takes the role of a worker, for that session, that generation and that daemon, with the session's
  tool, path, model, profile and conversation to resume; only an empty tool, address or working
  directory is replaced by its default. Whatever the environment of the daemon holds does not matter.
\<close>

theorem worker_env_roundtrip:
  assumes "SessionID x \<noteq> []" and "os' = child_env os (worker_environ c x iid)"
  shows "is_worker os'
    \<and> workerOptionsFromEnv os' = Inr
        \<lparr>op_SessionID = SessionID x, op_WorkerInstanceID = iid,
         op_DaemonAddr = (if ListenAddr c = [] then ''127.0.0.1:17890'' else ListenAddr c),
         op_CliType = (if CliType x = [] then CliMock else CliType x), op_CliPath = CliPath x, op_Model = Model x,
         op_CodexProfile = CodexProfile x, op_ResumeSessionID = CliSessionID x,
         op_WorkingDir = (if WorkingDir x = [] then home_or_empty os else WorkingDir x),
         op_StoreDir = SessionsDir c\<rparr>
    \<and> w_sessionID (NewWorker (projr (workerOptionsFromEnv os'))) = SessionID x
    \<and> workerInstanceID (NewWorker (projr (workerOptionsFromEnv os'))) = iid"
proof -
  have home: "home_or_empty (child_env os a) = home_or_empty os" for a
    by (simp add: child_env_def home_or_empty_def)
  show ?thesis
    unfolding assms(2) is_worker_def workerOptionsFromEnv_def Let_def child_env_worker home or_default_def CliMock_def
    using assms(1) by (simp add: NewWorker_def)
qed

theorem worker_env_roundtrip_witness:
  "workerInstanceID (NewWorker (projr (workerOptionsFromEnv
     (child_env \<lparr>Getenv = (\<lambda>_. ''other''), UserHomeDir = None\<rparr> (worker_environ sample_config (zero_meta\<lparr>SessionID := ''s''\<rparr>) ''id''))))) = ''id''"
  by (rule worker_env_roundtrip [OF _ refl, THEN conjunct2, THEN conjunct2, THEN conjunct2]) simp

section \<open>JSON texts are valid UTF-8\<close>

lemma coerce_ascii_append: "\<forall>c\<in>set a. byte c < 0x80 \<Longrightarrow> coerce_utf8 (a @ t) = a @ coerce_utf8 t"
  by (induction a) simp_all

lemma coerce_good_rune:
  assumes "\<not> bad_rune (DecodeRune (c # cs))" "0x80 \<le> byte c" "DecodeRune (c # cs) = (r, n)"
  shows "coerce_utf8 (take n (c # cs) @ t) = take n (c # cs) @ coerce_utf8 t"
proof -
  from good_rune [OF assms, of t]
  have g: "EncodeRune r = take n (c # cs)" "DecodeRune (take n (c # cs) @ t) = (r, n)" "1 < n" "n \<le> length (c # cs)"
    by auto
  obtain k where k: "n = Suc k" "k \<le> length cs" using g(3,4) by (cases n) auto
  have "coerce_utf8 (c # (take k cs @ t)) = EncodeRune r @ coerce_utf8 (drop (n - 1) (take k cs @ t))"
    using assms(2) g(2) k by simp
  then show ?thesis using g(1) k by simp
qed

lemma escape_ascii_ascii: "byte c < 0x80 \<Longrightarrow> \<forall>x\<in>set (escape_ascii c). byte x < 0x80"
  by (auto simp: escape_ascii_def Let_def hex_char_def byte_def split: if_splits)

lemma coerce_quote_chars: "coerce_utf8 (quote_chars s @ t) = quote_chars s @ coerce_utf8 t"
proof (induction s rule: quote_chars.induct)
  case (2 c cs)
  show ?case
  proof (cases "byte c < 0x80")
    case True
    then show ?thesis using 2(1) coerce_ascii_append [OF escape_ascii_ascii [OF True]] by simp
  next
    case False
    obtain r n where rn: "DecodeRune (c # cs) = (r, n)" by fastforce
    have ih: "coerce_utf8 (quote_chars (drop (n - 1) cs) @ t) = quote_chars (drop (n - 1) cs) @ coerce_utf8 t"
      using 2(2) [OF False] rn by simp
    have step: "coerce_utf8 (escape_rune r (take n (c # cs)) @ u) = escape_rune r (take n (c # cs)) @ coerce_utf8 u" for u
    proof (cases "escape_rune r (take n (c # cs)) = take n (c # cs)")
      case True
      show ?thesis
      proof (cases "bad_rune (r, n)")
        case bad: True
        then have "r = RuneError" "n = 1" by (auto simp: bad_rune_def)
        with True have False by (auto simp: escape_rune_def)
        then show ?thesis ..
      next
        case good: False
        with True coerce_good_rune [of c cs r n u] rn False show ?thesis by simp
      qed
    next
      case esc: False
      then have "\<forall>x\<in>set (escape_rune r (take n (c # cs))). byte x < 0x80"
        by (auto simp: escape_rune_def hex_char_def byte_def split: if_splits)
      then show ?thesis by (rule coerce_ascii_append)
    qed
    show ?thesis using False rn ih step [of "quote_chars (drop (n - 1) cs) @ t"] by simp
  qed
qed simp

lemma coerce_quote: "coerce_utf8 (json_quote s @ t) = json_quote s @ coerce_utf8 t"
  using coerce_quote_chars [of s "CHR 0x22 # t"] by (simp add: json_quote_def byte_lits)

text \<open>Values without numbers.\<close>

fun numberless :: "json \<Rightarrow> bool" where
  "numberless (JNum l) = False"
| "numberless (JArr vs) = list_all numberless vs"
| "numberless (JObj ms) = list_all (\<lambda>(k, v). numberless v) ms"
| "numberless v = True"

lemma byte_punct: "byte (CHR ''['') < 0x80" "byte (CHR '']'') < 0x80" "byte (CHR ''{'') < 0x80" "byte (CHR ''}'') < 0x80"
  "byte (CHR '','') < 0x80" "byte (CHR '':'') < 0x80"
  by (simp_all add: byte_def)

lemma coerce_encode:
  "numberless v \<Longrightarrow> coerce_utf8 (json_encode v @ t) = json_encode v @ coerce_utf8 t"
  "list_all numberless vs \<Longrightarrow> coerce_utf8 (encode_elems vs @ t) = encode_elems vs @ coerce_utf8 t"
  "list_all (\<lambda>(k, v). numberless v) ms \<Longrightarrow> coerce_utf8 (encode_members ms @ t) = encode_members ms @ coerce_utf8 t"
proof (induction v and vs and ms arbitrary: t and t and t rule: json_encode_encode_elems_encode_members.induct)
  case 1
  then show ?case by (simp add: byte_def)
next
  case (2 b)
  then show ?case by (simp add: byte_def)
qed (simp_all add: coerce_quote byte_punct)

lemma coerce_encode_id: "numberless v \<Longrightarrow> coerce_utf8 (json_encode v) = json_encode v"
  using coerce_encode(1) [of v "[]"] by simp

section \<open>Sending\<close>

text \<open>Rounds in which the send command learns nothing: a timeout, a message of another session or of no concern.\<close>

definition passed_over :: "string \<Rightarrow> read_event \<Rightarrow> bool" where
  "passed_over sid ev =
     (case ev of
        RTimeout \<Rightarrow> True
      | RFailed _ \<Rightarrow> False
      | RMsg m \<Rightarrow> msg_SessionID m \<noteq> sid \<and> msg_SessionID m \<noteq> []
          \<or> msg_Type m \<notin> {MsgError, MsgOutput, MsgTurnCompleted})"

lemma wait_passes_over:
  "list_all (\<lambda>(t, ev). t < deadline) evs \<Longrightarrow>
   wait_loop deadline bad late (send_step ow jerr sid) evs out
     = wait_loop deadline bad late (send_step ow jerr sid) (filter (\<lambda>(t, ev). \<not> passed_over sid ev) evs) out"
proof (induction evs arbitrary: out)
  case (Cons x evs)
  obtain t ev where x: "x = (t, ev)" by (cases x)
  from Cons.prems x have t: "\<not> deadline \<le> t" and rest: "list_all (\<lambda>(t, ev). t < deadline) evs" by auto
  note ih = Cons.IH [OF rest]
  show ?case
  proof (cases "passed_over sid ev")
    case True
    then have "wait_loop deadline bad late (send_step ow jerr sid) (x # evs) out
        = wait_loop deadline bad late (send_step ow jerr sid) evs out"
      using t x by (auto simp: passed_over_def send_step_def split: read_event.splits)
    with True x ih show ?thesis by simp
  next
    case False
    with t x ih show ?thesis by (auto split: read_event.split sum.split)
  qed
qed simp

lemma wait_outputs:
  "list_all (\<lambda>t. t < deadline) ts \<Longrightarrow> length ts = length outs \<Longrightarrow>
   wait_loop deadline bad late (send_step (\<lambda>_. None) jerr sid)
     (zip ts (map (\<lambda>(u, l). RMsg (NewMessage u MsgOutput sid l)) outs) @ evs) out
   = wait_loop deadline bad late (send_step (\<lambda>_. None) jerr sid) evs (out @ map (\<lambda>(u, l). Say (''  << '' @ l)) outs)"
proof (induction outs arbitrary: ts out)
  case (Cons x outs)
  obtain u l where x: "x = (u, l)" by (cases x)
  obtain t ts' where ts: "ts = t # ts'" using Cons.prems(2) by (cases ts) auto
  with Cons.prems Cons.IH [of ts' "out @ [Say (''  << '' @ l)]"] show ?case
    by (simp add: x send_step_def put_def MsgOutput_def MsgError_def)
qed simp

lemma numberless_terminal: "numberless (terminal_json t)"
  by (simp add: terminal_json_def omit_empty_def)

lemma coerce_type [simp]:
  "coerce_utf8 MsgOutput = MsgOutput" "coerce_utf8 MsgTurnCompleted = MsgTurnCompleted"
  "coerce_utf8 MsgHistory = MsgHistory" "coerce_utf8 MsgHistoryRsp = MsgHistoryRsp"
  by (simp_all add: MsgOutput_def MsgTurnCompleted_def MsgHistory_def MsgHistoryRsp_def byte_def)

lemma read_encoded:
  "\<forall>m\<in>set ms. int64_range (Timestamp m) \<Longrightarrow> read_messages (concat (map Encode ms)) = map coerce_message ms"
proof (induction ms)
  case Nil
  show ?case by (subst read_messages.simps) (simp add: Read_def ReadBytes_def)
next
  case (Cons m ms)
  then show ?case
    using Read_Encode [of m "concat (map Encode ms)"] by (subst read_messages.simps) simp
qed

lemma read_turn_messages:
  assumes "int64_range now" "ValidString sid" "list_all (\<lambda>(u, l). int64_range u \<and> ValidString l) outs"
  shows "read_messages (concat (map Encode (turn_messages sid outs now t))) = turn_messages sid outs now t"
proof -
  have "coerce_message m = m \<and> int64_range (Timestamp m)" if "m \<in> set (turn_messages sid outs now t)" for m
    using that assms
    by (auto simp: turn_messages_def list_all_iff encode_terminal_def coerce_encode_id numberless_terminal
        coerce_new_message coerce_valid)
  then have "map coerce_message (turn_messages sid outs now t) = turn_messages sid outs now t"
    and "\<forall>m\<in>set (turn_messages sid outs now t). int64_range (Timestamp m)"
    by (simp_all add: map_idI)
  then show ?thesis using read_encoded by metis
qed

text \<open>
  When the command reads, before its deadline, what the daemon wrote for a turn, it prints every line
  of output in order and succeeds exactly when the turn was completed, and otherwise fails with
  the code and the detail of the turn's end; timeouts and messages of other sessions in between make
  no difference.
\<close>

definition send_report :: "string \<Rightarrow> string \<Rightarrow> (time \<times> string) list \<Rightarrow> TurnTerminal \<Rightarrow> line list \<times> string option" where
  "send_report sid message outs t =
     (SayQuoted (''[cli] -> session '' @ short sid @ '' type=user_input payload='') message [] # Say ''[output] waiting...''
        # map (\<lambda>(u, l). Say (''  << '' @ l)) outs @ (if tt_Status t = TurnCompleted then [Say ''[cli] done''] else []),
      if tt_Status t = TurnCompleted then None else Some (ErrorCode t @ '': '' @ ErrorDetail t))"

lemma send_reports_turn:
  assumes "int64_range now" "ValidString sid" "list_all (\<lambda>(u, l). int64_range u \<and> ValidString l) outs"
    and "ValidString (tt_Status t)" "ValidString (ErrorCode t)" "ValidString (ErrorDetail t)"
    and "ci_dial w = None" "ci_write w = None"
    and "list_all (\<lambda>(u, ev). u < send_deadline w) (ci_events w)"
    and "map snd (filter (\<lambda>(u, ev). \<not> passed_over sid ev) (ci_events w))
          = map RMsg (read_messages (concat (map Encode (turn_messages sid outs now t))))"
  shows "execSendCommand (\<lambda>_. None) w addr sid message =
     (fst (send_report sid message outs t), [NewMessage (ci_now w) MsgUserInput sid message], snd (send_report sid message outs t))"
proof -
  let ?evs = "filter (\<lambda>(u, ev). \<not> passed_over sid ev) (ci_events w)"
  let ?head = "[SayQuoted (''[cli] -> session '' @ short sid @ '' type=user_input payload='') message [], Say ''[output] waiting...'']"
  have dec: "decode_terminal (encode_terminal t) = Some t"
    using assms(4-6) by (simp add: decode_encode_terminal coerce_terminal_def coerce_valid)
  have evs: "map snd ?evs = map RMsg (turn_messages sid outs now t)"
    using assms(10) by (simp add: read_turn_messages assms(1-3))
  define ts where "ts = map fst ?evs"
  have z: "?evs = zip ts (map RMsg (turn_messages sid outs now t))"
    unfolding ts_def evs [symmetric] by (simp add: zip_map_fst_snd)
  have in_time: "list_all (\<lambda>t. t < send_deadline w) ts"
    using assms(9) by (auto simp: ts_def list_all_iff)
  have len: "length ts = Suc (length outs)"
    using arg_cong [OF evs, of length] by (simp add: ts_def turn_messages_def)
  then obtain us u where ts: "ts = us @ [u]" "length us = length outs" by (cases ts rule: rev_cases) auto
  have us: "list_all (\<lambda>t. t < send_deadline w) us" and u: "u < send_deadline w"
    using in_time unfolding ts(1) by simp_all
  have split: "?evs = zip us (map (\<lambda>(u, l). RMsg (NewMessage u MsgOutput sid l)) outs)
      @ [(u, RMsg (NewMessage now MsgTurnCompleted sid (encode_terminal t)))]"
    unfolding z ts(1) turn_messages_def using ts(2) by (simp add: comp_def case_prod_unfold)
  have "wait_loop (send_deadline w) bad late (send_step (\<lambda>_. None) (ci_jerr w) sid) (ci_events w) ?head
     = wait_loop (send_deadline w) bad late (send_step (\<lambda>_. None) (ci_jerr w) sid)
         [(u, RMsg (NewMessage now MsgTurnCompleted sid (encode_terminal t)))] (?head @ map (\<lambda>(u, l). Say (''  << '' @ l)) outs)"
    for bad late
    unfolding wait_passes_over [OF assms(9)] split wait_outputs [OF us ts(2)] ..
  then show ?thesis
    using assms(7,8) u dec
    by (simp add: execSendCommand_def put_def send_step_def send_report_def MsgTurnCompleted_def MsgError_def MsgOutput_def)
qed

definition sample_cli :: "(time \<times> read_event) list \<Rightarrow> cli_world" where
  "sample_cli evs = \<lparr>ci_os = \<lparr>Getenv = (\<lambda>_. []), UserHomeDir = None\<rparr>, ci_arg0 = ''botmux'', ci_now = 0, ci_reach = None,
     ci_dial = None, ci_write = None, ci_events = evs, ci_jerr = (\<lambda>_. [])\<rparr>"

text \<open>A codex session whose worker has connected and is ready, and a client subscribed to it.\<close>

definition ready_state :: Daemon where
  "ready_state = foldl exec (New sample_config Map.empty) (butlast sample_acts @ [AAdmit 6 None 3 (Some sample_ready)])"

definition subscribed :: "Daemon \<times> forwarder option" where
  "subscribed = forward_ready None 5 9 4 (NewMessage 0 MsgUserInput ''s'' ''hi'') 0 0 ready_state"

lemma subscribed_forwarder:
  "snd subscribed = Some \<lparr>fs_meta = 0, fs_conn = 4, fs_cursor = 0, fs_outputCh = Some 0, fs_terminalCursor = 0,
     fs_terminalCh = Some 0, fs_stop = 9, fs_done = False\<rparr>"
  by code_simp

lemma subscribed_meta:
  "LastOutput (metas (fst subscribed) 0) = []" "outputSeq (metas (fst subscribed) 0) = 0"
  "outputNotifyCh (metas (fst subscribed) 0) = Some 0" "terminals (metas (fst subscribed) 0) = []"
  "terminalSeq (metas (fst subscribed) 0) = 0" "terminalNotifyCh (metas (fst subscribed) 0) = Some 0"
  "turnActive (metas (fst subscribed) 0)" "sid_of (fst subscribed) 0 = ''s''"
  by code_simp+

lemma subscribed_ends:
  assumes "subscribed = (d, Some fs)" "forward_loop (batch_rounds [([AOutput 0 l], 6)]) fs d = (fs1, d1)"
  shows "terminal_ready fs1 (foldl exec d1 [AComplete 0 t])" (is ?ready)
    "fst (terminals_since (metas (foldl exec d1 [AComplete 0 t]) 0) (fs_terminalCursor fs1)) = [t]" (is ?ts)
proof -
  have fs: "fs = \<lparr>fs_meta = 0, fs_conn = 4, fs_cursor = 0, fs_outputCh = Some 0, fs_terminalCursor = 0,
      fs_terminalCh = Some 0, fs_stop = 9, fs_done = False\<rparr>"
    using subscribed_forwarder unfolding assms(1) by simp
  have d1: "fs_terminalCh fs1 = Some 0" "fs_terminalCursor fs1 = 0" "fs_meta fs1 = 0" "terminals (metas d1 0) = []"
    "terminalSeq (metas d1 0) = 0" "terminalNotifyCh (metas d1 0) = Some 0" "turnActive (metas d1 0)"
    using assms(2) subscribed_meta [unfolded assms(1), simplified]
    by (auto simp: batch_rounds_def forward_round_def fs output_ready_def forward_output_def write_all_none AddOutput_def
        ensureOutputStateLocked_def SnapshotOutputSince_def Let_def maxMemoryOutputLines_def)
  then show ?ready ?ts
    by (simp_all add: terminal_ready_def terminals_since_def SnapshotTerminalsSince_def CompleteTurn_def
        finishTurnLocked_def publishTerminalLocked_def ensureTerminalStateLocked_def maxMemoryTerminals_def
        since_window_def Let_def)
qed

section \<open>A turn from end to end\<close>

text \<open>
  C37: a client sees the turn it asked for. Let the daemon have subscribed the client and sent its
  input to the worker; let the daemon then do anything that writes nothing else to that connection,
  in between which the forwarding goroutine is woken for output at least every 2000 lines and in
  the end for the first terminal published since. When the send command reads, in time,
  what was written to its connection, it prints exactly the lines the session put out until the
  goroutine was last woken for output, in order, and reports the end of the turn: it succeeds if it was completed and else fails with its code and
  detail.
\<close>

theorem turn_end_to_end:
  assumes ready: "forward_ready wr u0 stop c msg m h d0 = (d, Some fs)" "wf_output (metas d0 m)" "m < nextMeta d0"
    and room: "unat (outputSeq (metas d m)) + length (batch_lines m bs) < 2 ^ 64"
    and batches: "list_all (\<lambda>(acts, u). length (lines_of m acts) \<le> maxMemoryOutputLines \<and> silent_on c acts) bs" "silent_on c acts"
    and loop: "forward_loop (batch_rounds bs) fs d = (fs1, d1)"
      "forward_loop (batch_rounds bs @ [(\<lambda>d. foldl exec d acts, ForwardTerminal now None)]) fs d = (fs2, d2)"
    and ends: "terminal_ready fs1 (foldl exec d1 acts)"
      "fst (terminals_since (metas (foldl exec d1 acts) m) (fs_terminalCursor fs1)) = t # ts"
    and texts: "int64_range now" "ValidString (sid_of d m)" "list_all (\<lambda>(u, l). int64_range u \<and> ValidString l) (batch_lines m bs)"
      "ValidString (tt_Status t)" "ValidString (ErrorCode t)" "ValidString (ErrorDetail t)"
    and client: "ci_dial w = None" "ci_write w = None" "list_all (\<lambda>(u, ev). u < send_deadline w) (ci_events w)"
      "map snd (filter (\<lambda>(u, ev). \<not> passed_over (sid_of d m) ev) (ci_events w))
         = map RMsg (read_messages (concat (map Encode (drop (length (written_to c d)) (written_to c d2)))))"
  shows "execSendCommand (\<lambda>_. None) w addr (sid_of d m) message =
     (fst (send_report (sid_of d m) message (batch_lines m bs) t),
      [NewMessage (ci_now w) MsgUserInput (sid_of d m) message],
      snd (send_report (sid_of d m) message (batch_lines m bs) t))"
proof (rule send_reports_turn [OF texts client(1-3)])
  have s: "synced m fs d" "fs_conn fs = c" using forward_ready_synced [OF ready] by simp_all
  have "written_to c d2 = written_to c d @ turn_messages (sid_of d m) (batch_lines m bs) now t"
    using forwarded_turn [OF s(1) room _ _ loop(1) ends loop(2)] batches s(2) by simp
  then show "map snd (filter (\<lambda>(u, ev). \<not> passed_over (sid_of d m) ev) (ci_events w))
      = map RMsg (read_messages (concat (map Encode (turn_messages (sid_of d m) (batch_lines m bs) now t))))"
    using client(4) by simp
qed

theorem turn_end_to_end_witness:
  "snd (snd (execSendCommand (\<lambda>_. None) (sample_cli ((1, RTimeout) # map (\<lambda>m. (2, RMsg m))
      (turn_messages ''s'' [(6, ''x'')] 7 (failed_terminal ''code'' ''why'')))) [] ''s'' ''hi'')) = Some ''code: why''"
proof -
  let ?t = "failed_terminal ''code'' ''why''"
  let ?w = "sample_cli ((1, RTimeout) # map (\<lambda>m. (2, RMsg m)) (turn_messages ''s'' [(6, ''x'')] 7 ?t))"
  let ?bs = "[([AOutput 0 ''x''], 6)] :: batch list"
  let ?acts = "[AComplete 0 ?t]"
  obtain d fs where F: "subscribed = (d, Some fs)"
    using subscribed_forwarder by (metis prod.collapse)
  obtain fs1 d1 where l1: "forward_loop (batch_rounds ?bs) fs d = (fs1, d1)" by fastforce
  obtain fs2 d2 where l2: "forward_loop (batch_rounds ?bs @ [(\<lambda>d. foldl exec d ?acts, ForwardTerminal 7 None)]) fs d = (fs2, d2)"
    by fastforce
  have ready: "forward_ready None 5 9 4 (NewMessage 0 MsgUserInput ''s'' ''hi'') 0 0 ready_state = (d, Some fs)"
    using F unfolding subscribed_def .
  have facts: "wf_output (metas ready_state 0)" "0 < nextMeta ready_state" by code_simp+
  note ends = subscribed_ends [OF F l1, of ?t]
  have sid: "sid_of d 0 = ''s''" and z: "unat (outputSeq (metas d 0)) = 0"
    using subscribed_meta unfolding F by simp_all
  have lines: "batch_lines 0 ?bs = [(6, ''x'')]" by (simp add: batch_lines_def)
  have room: "unat (outputSeq (metas d 0)) + length (batch_lines 0 ?bs) < 2 ^ 64" using z by (simp add: lines)
  have silent: "list_all (\<lambda>(acts, u). length (lines_of 0 acts) \<le> maxMemoryOutputLines \<and> silent_on 4 acts) ?bs" "silent_on 4 ?acts"
    by (simp_all add: silent_on_def maxMemoryOutputLines_def)
  have v: "ValidString (sid_of d 0)" "list_all (\<lambda>(u, l). int64_range u \<and> ValidString l) (batch_lines 0 ?bs)"
    "ValidString (tt_Status ?t)" "ValidString (ErrorCode ?t)" "ValidString (ErrorDetail ?t)"
    unfolding sid lines
    by (simp_all add: ValidString_ascii byte_def failed_terminal_def TurnFailed_def int64_range_def)
  have i: "int64_range 7" by (simp add: int64_range_def)
  have io: "ci_dial ?w = None" "ci_write ?w = None" by (simp_all add: sample_cli_def)
  have time: "list_all (\<lambda>(u, ev). u < send_deadline ?w) (ci_events ?w)"
    by (simp add: sample_cli_def turn_messages_def send_deadline_def Second_def)
  have s: "synced 0 fs d" "fs_conn fs = 4" using forward_ready_synced [OF ready facts] by simp_all
  have "written_to 4 d2 = written_to 4 d @ turn_messages ''s'' [(6, ''x'')] 7 ?t"
    using forwarded_turn [OF s(1) room _ _ l1 ends l2] silent s(2) sid lines by simp
  moreover have "read_messages (concat (map Encode (turn_messages ''s'' [(6, ''x'')] 7 ?t))) = turn_messages ''s'' [(6, ''x'')] 7 ?t"
    using read_turn_messages [OF i v(1,2)] unfolding sid lines .
  ultimately have evs: "map snd (filter (\<lambda>(u, ev). \<not> passed_over (sid_of d 0) ev) (ci_events ?w))
      = map RMsg (read_messages (concat (map Encode (drop (length (written_to 4 d)) (written_to 4 d2)))))"
    by (simp add: sid sample_cli_def turn_messages_def passed_over_def)
  from turn_end_to_end [OF ready facts room silent l1 l2 ends i v io time evs, of "[]" "''hi''"]
  show ?thesis unfolding sid by (simp add: send_report_def failed_terminal_def TurnFailed_def TurnCompleted_def)
qed

section \<open>Reading a history\<close>

definition printed_history :: "string \<Rightarrow> string list \<Rightarrow> line list" where
  "printed_history sid outs =
     (if outs = [] then [Say (''[cli] session '' @ short sid @ '' has no output history'')]
      else history_rows (length (itoa (int (length outs)))) 1 outs
        @ [Say (''[cli] '' @ itoa (int (length outs)) @ '' line(s)'')])"

lemma decode_strings:
  assumes "list_all ValidString outs"
  shows "decode_outputs (json_encode (JArr (map JStr outs))) = Some outs"
proof -
  have "decode_elems (string_field (\<lambda>s _. s)) [] [] (map JStr outs) = Some outs" for outs
    by (induction outs) (simp_all add: string_field_def)
  moreover have "coerce_json (JArr (map JStr outs)) = JArr (map JStr outs)"
    using assms by (auto simp: list_all_iff coerce_valid)
  then have "json_parse (json_encode (JArr (map JStr outs))) = Some (JArr (map JStr outs))"
    using json_roundtrip [of "JArr (map JStr outs)" "[]"] by (auto simp: skip_ws_def simp del: coerce_json.simps)
  ultimately show ?thesis
    by (simp add: decode_outputs_def unmarshal_slice_def slice_field_def)
qed

text \<open>
  C38: the history command prints the session's output. When the daemon reads the request the command
  writes and the command reads, in time, what the daemon answers, it prints exactly the lines the
  daemon holds for that session, numbered from one, and exits with status 0.
\<close>

theorem history_roundtrip:
  assumes "sessions d sid = Some m" "sid \<noteq> []" "ValidString sid" "list_all ValidString (SnapshotOutput (metas d m))"
    and "int64_range (ci_now w)" "int64_range (cw_now cw)" "ci_dial w = None" "ci_write w = None"
    and "read_messages (Encode (NewMessage (ci_now w) MsgHistory sid [])) = [req]"
    and "d' = fst (handleClientConn fmt visited validate partial sw rm wait c (cw, req) [] d)"
    and "ci_events w = map (Pair u) (map RMsg (read_messages (concat (map (\<lambda>(_, a). Encode a) (drop (length (outbox d)) (outbox d'))))))"
    and "u < ci_now w + 8 * Second"
  shows "cmd_history w addr (sid # rest) =
     (printed_history sid (SnapshotOutput (metas d m)), [NewMessage (ci_now w) MsgHistory sid []], 0)"
proof -
  let ?outs = "SnapshotOutput (metas d m)"
  let ?p = "json_encode (JArr (map JStr ?outs))"
  let ?a = "NewMessage (cw_now cw) MsgHistoryRsp sid ?p"
  have sid: "coerce_utf8 sid = sid" using assms(3) by (rule coerce_valid)
  have "req = NewMessage (ci_now w) MsgHistory sid []"
    using assms(9) read_encoded [of "[NewMessage (ci_now w) MsgHistory sid []]"] assms(5)
    by (simp add: coerce_new_message sid)
  then have "outbox d' = outbox d @ [(c, ?a)]"
    using assms(1,2,10)
    by (simp add: handleClientConn_def handleHistory_def write_conn_def MsgHistory_def MsgListSessions_def)
  moreover have "coerce_utf8 ?p = ?p" by (rule coerce_encode_id) (simp add: list_all_iff)
  then have "coerce_message ?a = ?a" by (simp add: coerce_new_message sid)
  ultimately have "ci_events w = [(u, RMsg ?a)]"
    using assms(6,11) read_encoded [of "[?a]"] by simp
  then show ?thesis
    using assms(7,8,12) decode_strings [OF assms(4)]
    by (simp add: cmd_history_def ask_def history_step_def printed_history_def MsgHistoryRsp_def MsgError_def Let_def)
qed

theorem history_roundtrip_witness:
  "cmd_history (sample_cli [(1, RMsg (NewMessage 6 MsgHistoryRsp ''s'' (json_encode (JArr (map JStr [''hi''])))))]) [] [''s'']
   = (printed_history ''s'' [''hi''], [NewMessage 0 MsgHistory ''s'' []], 0)"
proof -
  let ?d = "(New sample_config Map.empty)\<lparr>sessions := [''s'' \<mapsto> 0], metas := (\<lambda>_. zero_meta\<lparr>LastOutput := [''hi'']\<rparr>)\<rparr>"
  let ?cw = "\<lparr>cw_io = IoOk, cw_wr = None, cw_now = 6, cw_env = id, cw_stop = 0\<rparr>"
  let ?req = "NewMessage 0 MsgHistory ''s'' []"
  let ?a = "NewMessage 6 MsgHistoryRsp ''s'' (json_encode (JArr (map JStr [''hi''])))"
  let ?d' = "fst (handleClientConn undefined [] undefined undefined undefined None id 3 (?cw, ?req) [] ?d)"
  have v: "ValidString ''s''" "list_all ValidString [''hi'']" by (simp_all add: ValidString_ascii byte_def)
  have req: "read_messages (Encode ?req) = [?req]"
    using read_encoded [of "[?req]"] by (simp add: int64_range_def coerce_new_message byte_def)
  have out: "drop (length (outbox ?d)) (outbox ?d') = [(3, ?a)]"
    by (simp add: handleClientConn_def handleHistory_def write_conn_def MsgHistory_def MsgListSessions_def
        SnapshotOutput_def New_def Let_def)
  have a: "read_messages (Encode ?a) = [?a]"
  proof -
    have "coerce_utf8 (json_encode (JArr (map JStr [''hi'']))) = json_encode (JArr (map JStr [''hi'']))"
      by (rule coerce_encode_id) simp
    then have "coerce_message ?a = ?a"
      unfolding coerce_new_message coerce_type coerce_valid [OF v(1)] by (simp only:)
    then show ?thesis using read_encoded [of "[?a]"] by (simp add: int64_range_def)
  qed
  have outs: "SnapshotOutput (metas ?d 0) = [''hi'']" by (simp add: SnapshotOutput_def)
  have "cmd_history (sample_cli [(1, RMsg ?a)]) [] (''s'' # []) = (printed_history ''s'' (SnapshotOutput (metas ?d 0)), [NewMessage (ci_now (sample_cli [(1, RMsg ?a)])) MsgHistory ''s'' []], 0)"
  proof (rule history_roundtrip [where cw = ?cw and d' = ?d' and req = ?req and c = 3 and u = 1 and m = 0])
    show "sessions ?d ''s'' = Some 0" by simp
    show "ValidString ''s''" by (rule v)
    show "list_all ValidString (SnapshotOutput (metas ?d 0))" unfolding outs by (rule v)
    show "read_messages (Encode (NewMessage (ci_now (sample_cli [(1, RMsg ?a)])) MsgHistory ''s'' [])) = [?req]"
      using req by (simp add: sample_cli_def)
    show "ci_events (sample_cli [(1, RMsg ?a)]) = map (Pair 1) (map RMsg (read_messages
        (concat (map (\<lambda>(_, a). Encode a) (drop (length (outbox ?d)) (outbox ?d'))))))"
      unfolding out using a by (simp add: sample_cli_def)
  qed (simp_all add: sample_cli_def int64_range_def Second_def)
  then show ?thesis unfolding outs by (simp add: sample_cli_def)
qed

section \<open>What a read deadline costs\<close>

text \<open>
  A message of which only a part has arrived when the read deadline passes is lost: the part is
  dropped, and the rest is no message, which ends the command with an error.
\<close>

lemma partial_message_lost:
  fixes m :: Message
  defines "m \<equiv> NewMessage 5 MsgOutput ''s'' ''x''"
  shows "read_round jerr [] (take 9 (Encode m)) = (RTimeout, [])
    \<and> read_round jerr [] (drop 9 (Encode m)) = (RFailed (jerr (drop 9 (Encode m))), [])"
  unfolding m_def by code_simp

end
