(* ===== verification/Program.thy ===== *)
theory Program
  imports Cli_Commands Adapters
begin

text \<open>
  \<open>main\<close> of \<open>cmd/daemon/main.go\<close>: one program that is a worker, a command or a daemon by its
  environment and its flags. Each role is modelled up to the wait for its goroutines, which the other
  theories model one by one; what the system answers is a record of arguments.
\<close>

section \<open>The worker\<close>

record worker_world =
  ww_quote :: "string \<Rightarrow> string"
  ww_conn :: "string + conn"                 \<comment> \<open>what \<open>connectToDaemon\<close> returns\<close>
  ww_start :: "string + CliStartResult"      \<comment> \<open>what the tool's \<open>Start\<close> returns\<close>
  ww_ready :: ready_wait
  ww_attempt :: attempt_world

text \<open>\<open>runWorker\<close>: the running worker, or what \<open>log.Fatalf\<close> says before the process ends.\<close>

definition runWorker :: "worker_world \<Rightarrow> os_env \<Rightarrow> string + Worker" where
  "runWorker ww os =
     (case workerOptionsFromEnv os of
        Inl e \<Rightarrow> Inl (''[worker] '' @ e)
      | Inr opts \<Rightarrow>
          (case Run (ww_quote ww) (worker_adapter opts \<noteq> None) (ww_conn ww) (ww_start ww) (ww_ready ww)
                  (ww_attempt ww) (NewWorker opts) of
             (w, Some e) \<Rightarrow> Inl (''[worker] fatal: '' @ e)
           | (w, None) \<Rightarrow> Inr w))"

section \<open>The daemon\<close>

definition startup_banner :: "string \<Rightarrow> DaemonConfig \<Rightarrow> line list" where
  "startup_banner arg0 c =
     [Say ([CHR 0x0A] @ ''=== botmux-go daemon started ===''),
      Say (''  listen    : '' @ ListenAddr c),
      Say (''  dashboard : '' @ DashboardAddr c),
      Say (''  bots      : '' @ itoa (int (length (Bots c))))]
     @ map (\<lambda>b. Say (''    - '' @ bot_Name b @ '' ('' @ bot_BotID b @ '', cli='' @ bot_CliType b
                       @ '', backend='' @ BackendType b @ '')'')) (Bots c)
     @ [Say (''  new sess : '' @ arg0 @ '' -cmd new <sid> [<bot_id>]''),
        Say (''  send msg : '' @ arg0 @ '' -cmd send <sid> '' @ [CHR 0x22] @ ''hello world'' @ [CHR 0x22]),
        Say (''  shutdown : ctrl+c'' @ [CHR 0x0A])]"

record daemon_world =
  dw_config :: config_world
  dw_arg0 :: string
  dw_exe :: "string option"                  \<comment> \<open>the error of \<open>os.Executable\<close>\<close>
  dw_disk :: "string \<rightharpoonup> store_file"
  dw_mkdir :: "string \<Rightarrow> string option"
  dw_listen :: "string option"
  dw_now :: time
  dw_readdir :: readdir

text \<open>\<open>runDaemon\<close> without a command; None when the loading of the configuration does not return.\<close>

definition startDaemon :: "daemon_world \<Rightarrow> string \<Rightarrow> string \<Rightarrow> string \<Rightarrow> (string + line list \<times> Daemon) option" where
  "startDaemon w cfgPath listen dashboard =
     (case daemon_config (dw_config w) cfgPath listen dashboard of
        None \<Rightarrow> None
      | Some c \<Rightarrow>
          Some (case dw_exe w of
                  Some e \<Rightarrow> Inl (''[daemon] init: get self exe: '' @ e)
                | None \<Rightarrow>
                    (case Start (EnsureDirs (dw_mkdir w) c) (dw_listen w) (dw_now w) (dw_readdir w) (New c (dw_disk w)) of
                       (d, Some e) \<Rightarrow> Inl (''[daemon] start: '' @ e)
                     | (d, None) \<Rightarrow> Inr (startup_banner (dw_arg0 w) c, d))))"

section \<open>The program\<close>

text \<open>What \<open>flag.Parse\<close> gives; a flag that is not on the command line is empty.\<close>

record flags =
  fl_config :: string
  fl_cmd :: string
  fl_listen :: string
  fl_dashboard :: string
  fl_args :: "string list"

datatype role_result =
  AsWorker "string + Worker"
| AsCommand cli_result
| AsDaemon "(string + line list \<times> Daemon) option"

definition runDaemon :: "daemon_world \<Rightarrow> cli_world \<Rightarrow> flags \<Rightarrow> role_result" where
  "runDaemon w cw fl =
     (if fl_cmd fl \<noteq> [] then AsCommand (execCommand cw (fl_listen fl) (fl_cmd fl) (fl_args fl))
      else AsDaemon (startDaemon w (fl_config fl) (fl_listen fl) (fl_dashboard fl)))"

definition main :: "worker_world \<Rightarrow> daemon_world \<Rightarrow> cli_world \<Rightarrow> os_env \<Rightarrow> flags \<Rightarrow> role_result" where
  "main ww w cw os fl = (if is_worker os then AsWorker (runWorker ww os) else runDaemon w cw fl)"

section \<open>What the program starts\<close>

lemma cfg_restore_fold: "cfg (foldl (restore_one now) d stored) = cfg d"
  by (induction stored arbitrary: d) (simp_all add: restore_one_def alloc_meta_def Let_def)

lemma cfg_Start [simp]: "cfg (fst (Start dirs listen now rd d)) = cfg d"
  by (simp add: Start_def startSessionMonitor_def restoreSessions_def cfg_restore_fold split: option.split sum.split)

text \<open>
  A configuration file that cannot be read or decoded does not keep the daemon from starting, and
  the addresses of the command line win over whatever was loaded.
\<close>

lemma daemon_config_fallback:
  "Load w p = Some (Inl e) \<Longrightarrow> daemon_config w p [] [] = Some (DefaultConfig (cf_os w))"
  by (simp add: daemon_config_def)

lemma daemon_config_complete:
  assumes "UserHomeDir (cf_os w) \<noteq> Some []" "daemon_config w p listen dashboard = Some c"
  shows "complete_config (cf_os w) c \<and> (listen \<noteq> [] \<longrightarrow> ListenAddr c = listen)
    \<and> (dashboard \<noteq> [] \<longrightarrow> DashboardAddr c = dashboard)"
proof -
  obtain c0 where c0: "complete_config (cf_os w) c0"
    and c: "c = (let c = (if listen \<noteq> [] then c0\<lparr>ListenAddr := listen\<rparr> else c0)
                  in if dashboard \<noteq> [] then c\<lparr>DashboardAddr := dashboard\<rparr> else c)"
    using assms(2) complete_default [OF assms(1)] load_complete [OF assms(1)]
    by (auto simp: daemon_config_def Let_def split: option.splits sum.splits)
  from c0 show ?thesis unfolding c Let_def by (auto simp: complete_config_def)
qed

text \<open>A daemon that has started runs with a complete configuration, the one its banner shows.\<close>

lemma started_daemon_complete:
  assumes "UserHomeDir (cf_os (dw_config w)) \<noteq> Some []"
    and "startDaemon w p listen dashboard = Some (Inr (out, d))"
  shows "complete_config (cf_os (dw_config w)) (cfg d) \<and> out = startup_banner (dw_arg0 w) (cfg d)
    \<and> (listen \<noteq> [] \<longrightarrow> ListenAddr (cfg d) = listen)"
proof -
  obtain c where c: "daemon_config (dw_config w) p listen dashboard = Some c" "out = startup_banner (dw_arg0 w) c"
    and s: "Start (EnsureDirs (dw_mkdir w) c) (dw_listen w) (dw_now w) (dw_readdir w) (New c (dw_disk w)) = (d, None)"
    using assms(2) by (auto simp: startDaemon_def split: option.splits prod.splits)
  from arg_cong [OF s, of "\<lambda>r. cfg (fst r)"] have "cfg d = c" by (simp add: New_def)
  with c daemon_config_complete [OF assms(1) c(1)] show ?thesis by simp
qed

text \<open>
  A worker runs only with a session and a tool that an adapter is registered for, and then it has
  told the daemon that it is ready.
\<close>

lemma running_worker_ready:
  assumes "runWorker ww os = Inr w"
  shows "w_ready w \<and> Getenv os EnvSessionID \<noteq> []
    \<and> or_default (Getenv os EnvCliType) ''mock'' \<in> ListKinds adapterFactories"
proof -
  obtain opts where opts: "workerOptionsFromEnv os = Inr opts"
    and run: "Run (ww_quote ww) (worker_adapter opts \<noteq> None) (ww_conn ww) (ww_start ww) (ww_ready ww)
                (ww_attempt ww) (NewWorker opts) = (w, None)"
    using assms by (auto simp: runWorker_def split: sum.splits option.splits prod.splits)
  from opts have "Getenv os EnvSessionID \<noteq> [] \<and> op_CliType opts = or_default (Getenv os EnvCliType) ''mock''"
    by (auto simp: workerOptionsFromEnv_def Let_def split: if_splits)
  moreover from run have "worker_adapter opts \<noteq> None" by (cases "worker_adapter opts") (simp_all add: Run_def)
  moreover from run have "w_ready w"
    by (auto simp: Run_def Let_def split: sum.splits option.splits if_splits prod.splits handshake_error.splits)
  ultimately show ?thesis using worker_adapter_iff [of opts] by simp
qed

text \<open>Every worker the daemon starts for a session of the kind \<open>claude\<close> ends at once.\<close>

lemma claude_worker_ends:
  assumes "SessionID x \<noteq> []" "CliType x = CliClaude"
  shows "runWorker ww (child_env os (worker_environ c x iid)) = Inl ''[worker] fatal: no adapter registered for cli_type''"
  using assms
  by (simp add: runWorker_def workerOptionsFromEnv_def child_env_worker or_default_def CliClaude_def
      claude_has_no_adapter Run_def Let_def)

end
