(* ===== verification/Spec2Isabelle.thy ===== *)
theory Spec2Isabelle
  imports Session_Store File_Locks Daemon_Loops Worker_Runs Adapters Http_Server Program
begin

text \<open>
  \<^bold>\<open>botmux-go\<close>: a daemon that keeps sessions with command line tools (Codex, Aiden, a mock, a
  pseudo terminal, tmux), one worker process per session, and talks to clients over a line protocol and
  over HTTP.

  \<^bold>\<open>The program and its theories.\<close> Go code is translated function by function under its own
  names; a name that clashes with another carries a prefix of its component.

  \<^item> \<open>internal/protocol\<close>: \<open>Protocol\<close> is the vocabulary of messages and turn terminals,
    \<open>Json\<close> the part of \<open>encoding/json\<close> the program uses, \<open>Protocol_Codec\<close> the coding of
    messages and their reader over a byte stream.
  \<^item> \<open>internal/daemon\<close>, data: \<open>Session_Meta\<close> is the in-memory record of a session (output
    log, terminal log, turn state), \<open>Session_Store\<close> its files, \<open>Worker_Handle\<close> a worker
    generation as the daemon sees it, \<open>File_Locks\<close> the per-session file lock as interleaved
    steps of its users.
  \<^item> \<open>internal/daemon\<close>, behaviour: \<open>Daemon_State\<close> is the record of the daemon's maps and heaps
    and the identity predicates; \<open>Daemon_Lifecycle\<close> creates, restores, closes, purges sessions and
    starts and reaps workers; \<open>Daemon_Turns\<close> admits input, cancels turns, fails and restarts;
    \<open>Daemon_Router\<close> admits connections, routes the messages of workers and serves clients,
    \<open>Forwarding\<close> is the goroutine that forwards a session's output to a client;
    \<open>Daemon_Monitor\<close> is the session monitor, garbage collection, start and shutdown,
    \<open>Daemon_Loops\<close> the accept and the collection loop.
  \<^item> \<open>internal/daemon/http_server.go\<close>, \<open>embed_dashboard.go\<close>: \<open>Http_Message\<close> is the
    vocabulary and its JSON, \<open>Http_Handlers\<close> the handlers, \<open>Http_Server\<close> routes, CORS, the
    dashboard and the properties of the API.
  \<^item> \<open>internal/config\<close>: \<open>Config\<close> (records, defaults, bots, Codex profiles), \<open>Config_Load\<close>.
  \<^item> \<open>internal/worker\<close>: \<open>Ansi_Filter\<close> and \<open>Tui_Screen\<close> (screen text, deduplication),
    \<open>Idle_Observer\<close>, \<open>Worker_Turn\<close> (the turn state and its interrupts), \<open>Worker\<close>
    (connection, handshake, messages, output of the tool), \<open>Worker_Safety\<close>, and \<open>Worker_Runs\<close>
    with the loops of its goroutines.
  \<^item> \<open>internal/adapter\<close>: \<open>Adapter\<close> (events, registry), \<open>Adapter_Contract\<close>, \<open>Adapter_Io\<close> (writing all of a
    buffer, retries), \<open>Utf8_Chunks\<close>, \<open>Aiden\<close>, \<open>Simple_Adapters\<close> (mock, pty, tmux),
    \<open>Codex_Screen\<close>, \<open>Codex_Files\<close> (history), \<open>Codex_Transcript\<close>, \<open>Codex_Process\<close>
    (which rollouts a process tree holds), \<open>Codex\<close>, and \<open>Adapters\<close>, a tool in a worker.
  \<^item> \<open>cmd/daemon/main.go\<close>: \<open>Cli\<close> (options, commands), \<open>Cli_Commands\<close>, and \<open>Program\<close>,
    the roles a start of the program can have.
  \<^item> \<open>Prelude\<close> and \<open>Go_Strings\<close> hold the Go base types, UTF-8, \<open>strings\<close>,
    \<open>strconv\<close> and \<open>path/filepath\<close>; \<open>Runs\<close> what a step function reaches and the loops of
    goroutines.

  \<^bold>\<open>Interfaces.\<close> Contracts that several components keep are locales, interpreted where the
  component is: \<open>machine\<close> of \<open>Runs\<close> (a step function with an invariant: the daemon's maps, the
  silence and the cancellation of a worker), \<open>closing\<close> which extends it (what is closed stays closed:
  the session store, the daemon's sessions), \<open>bounded_log\<close> (the output and the terminal log of a
  session), \<open>turn_gate\<close> (the turn of a session and of a worker), \<open>ansi_filter\<close> (the worker's and the
  Codex adapter's screen filter), \<open>closable_adapter\<close> (all adapters but tmux) and
  \<open>process_adapter\<close> which extends it (Codex, Aiden).

  \<^bold>\<open>State and concurrency.\<close> The state of a daemon is one record; \<open>*SessionMeta\<close> and
  \<open>*WorkerHandle\<close> are references into heaps because the code compares their identity. What runs
  under one lock is one function on the state. A handler that takes several locks, sleeps or blocks is
  composed of these in the code's order, with an argument \<open>env\<close>: what other goroutines do in
  between, any function on the state. \<open>Daemon_System\<close> collects the sections as the actions of a
  transition system with its invariant; the lemmas of \<open>Daemon_Runs\<close> and \<open>Daemon_Handlers\<close> check that
  this system is closed under the handlers as they are composed, whatever their \<open>env\<close>, as long as
  that is made of actions too, so that nothing a handler does is outside of it;
  \<open>Daemon_Safety\<close>, \<open>Daemon_Endings\<close> and \<open>Daemon_Service\<close> state what holds of all runs. The requests of
  the HTTP API stay inside too. The guards of the handlers are pinned by the properties that name
  them, not by this closure. The worker is treated the same way: \<open>Worker_Turn\<close> has
  its interrupt goroutines as an inductive step relation, \<open>Worker_Safety\<close> its actions, and
  \<open>Worker_Runs\<close> shows that its methods and loops are runs of them. What the
  world contributes (clock, random bytes, the outcome of a write, a save, a start of a process) is an
  argument; what leaves the daemon (messages, kills, closed connections) is recorded in its state.

  \<^bold>\<open>Groups of theorems.\<close>
  \<^item> Turns: a restart fences the turns of the generation it replaces, a cancelled turn ends, a turn has
    at most one terminal, cancellation succeeds exactly when it may, an interrupt hits only the turn it
    was meant for, late events of a turn are dropped.
  \<^item> Identity: the maps are consistent, a worker is admitted by its nonce, a replaced or purged worker
    has no effect, a closed session stays closed; the worker's and the daemon's handshake agree.
  \<^item> Data: messages survive the wire, polls of the output and of transcripts return exactly what is new,
    a save replaces a file or leaves it, sessions do not share files, locks exclude each other, repeated
    status lines of a tool's screen are dropped and nothing else.
  \<^item> Adapters: input is sent whole and reported as submitted only when confirmed by the tool's own
    record; readiness; the rollouts of a process tree; what a turn reports reaches the daemon; of Codex
    and Aiden at most one process is started and closing kills it (the PTY adapter does not keep this).
  \<^item> Boundaries: start attempts are bounded; a shutdown asks every worker to exit, returns when those
    it waits for have, and kills exactly those that outlive the grace period; a closed worker's loops return and it says nothing more, loading a configuration returns a complete
    one, the options of a worker are those the daemon gave it.
  \<^item> HTTP and command line: reading requests change nothing, status codes say what happened,
    consecutive pages show everything once (of sessions, when no two have equal sort keys), the send command
    prints what the session puts out during its turn and reports the turn's end, and the history command
    prints the log.

  \<^bold>\<open>Bounds and fuel.\<close> The JSON parser recurses with fuel; the length of the text is enough (the
  round trip is proved with that fuel). Loops that may not end (\<open>writeAll\<close>, \<open>Load\<close>) are partial
  functions and their return is stated. Loops that wait are given by the list of what they observe.
  Sequence numbers are 64-bit words and wrap; the properties that need it bound the number of steps by
  \<open>2 ^ 64\<close>. The limits of the code (2000 lines, 16 terminals, 3 attempts, 5 retries, pages of 500)
  are the code's constants.

  \<^bold>\<open>Not modelled.\<close> Processes, pseudo terminals, sockets, the file system, \<open>/proc\<close>,
  \<open>pgrep\<close>, \<open>lsof\<close> and \<open>tmux\<close> are parameters: what they answer is an argument. A session file holds the
  record itself: its encoding as JSON and back is taken to be the identity, so that replacing invalid
  UTF-8 in a stored string is not modelled (it is for messages). While a shutdown waits, only what it
  does itself is recorded; that a worker has exited is an event.
  \<open>startHTTPServer\<close>'s listening, signal handling, the flag package and logging are I/O around the
  modelled functions. Of \<open>net/http\<close> only what the handlers use is
  modelled; routes whose fixed part is percent-escaped and the body of a redirect are not. Data races
  (reads without a lock that the code contains) are not given a semantics: such a read sees the state of
  one moment. \<open>strings.ToLower\<close> folds ASCII letters only. The dashboard page and the fake Codex of
  the tests are not code of the program.
\<close>

end
